(* ===== verification/Baetyl_Prelude.thy ===== *)
theory Baetyl_Prelude
  imports Main "HOL-Library.Sublist"
begin

text \<open>
  The prelude of the development: what the components share of the Go language and of its
  standard library. It holds the type synonyms of the model, the functions of package
  \<^verbatim>\<open>strings\<close> the sources call (on byte strings), Go's buffered channels, the
  sequencing of fallible calls, and the collections of simplification rules
  (\<open>go_strings\<close>, \<open>go_chan\<close>, \<open>go_result\<close>) that the proofs of the components use.
\<close>

named_theorems go_strings \<open>laws of the string functions of Go's standard library\<close>
named_theorems go_chan \<open>laws of buffered channels\<close>
named_theorems go_result \<open>unfolding of fallible sequencing\<close>

section \<open>Fallible results\<close>

text \<open>
  A Go function that returns \<^verbatim>\<open>(T, error)\<close> is a function into \<open>('e, 'a) result\<close>: \<open>Inl\<close> carries
  the error, \<open>Inr\<close> the value. \<open>rbind\<close> is the \<^verbatim>\<open>if err != nil { return err }\<close> idiom.
\<close>

type_synonym ('e, 'a) result = "'e + 'a"

fun rbind :: "('e, 'a) result \<Rightarrow> ('a \<Rightarrow> ('e, 'b) result) \<Rightarrow> ('e, 'b) result" where
  "rbind (Inl e) f = Inl e"
| "rbind (Inr x) f = f x"

definition is_ok :: "('e, 'a) result \<Rightarrow> bool" where
  "is_ok r = (case r of Inl _ \<Rightarrow> False | Inr _ \<Rightarrow> True)"

lemma is_ok_simps [simp, go_result]:
  "is_ok (Inl e) = False"
  "is_ok (Inr x) = True"
  by (simp_all add: is_ok_def)

lemma rbind_eq_Inr [go_result]: "rbind r f = Inr y \<longleftrightarrow> (\<exists>x. r = Inr x \<and> f x = Inr y)"
  by (cases r) auto

lemma rbind_eq_Inl [go_result]:
  "rbind r f = Inl e \<longleftrightarrow> r = Inl e \<or> (\<exists>x. r = Inr x \<and> f x = Inl e)"
  by (cases r) auto

lemma rbind_assoc: "rbind (rbind r f) g = rbind r (\<lambda>x. rbind (f x) g)"
  by (cases r) auto

lemma rbind_cong [fundef_cong]:
  "r = r' \<Longrightarrow> (\<And>x. r' = Inr x \<Longrightarrow> f x = g x) \<Longrightarrow> rbind r f = rbind r' g"
  by (cases r') auto

section \<open>Package strings\<close>

text \<open>Strings are byte strings, so \<open>length\<close> is Go's \<^verbatim>\<open>len\<close>.\<close>

definition strings_HasPrefix :: "string \<Rightarrow> string \<Rightarrow> bool" where
  "strings_HasPrefix s p = (take (length p) s = p)"

fun strings_Contains :: "string \<Rightarrow> string \<Rightarrow> bool" where
  "strings_Contains [] p = (p = [])"
| "strings_Contains (c # s) p = (strings_HasPrefix (c # s) p \<or> strings_Contains s p)"

text \<open>\<^verbatim>\<open>strings.Split(s, sep)\<close> for a separator of one byte.\<close>

fun strings_Split :: "char \<Rightarrow> string \<Rightarrow> string list" where
  "strings_Split c [] = [[]]"
| "strings_Split c (x # xs) =
     (if x = c then [] # strings_Split c xs
      else (case strings_Split c xs of [] \<Rightarrow> [[x]] | y # ys \<Rightarrow> (x # y) # ys))"

fun strings_Join :: "string list \<Rightarrow> string \<Rightarrow> string" where
  "strings_Join [] sep = []"
| "strings_Join [x] sep = x"
| "strings_Join (x # y # ys) sep = x @ sep @ strings_Join (y # ys) sep"

text \<open>\<^verbatim>\<open>strings.ToLower\<close> on ASCII; the bytes of multi-byte runes are left alone.\<close>

definition byte_lower :: "char \<Rightarrow> char" where
  "byte_lower c = (if (65::nat) \<le> of_char c \<and> of_char c \<le> (90::nat) then char_of (of_char c + (32::nat)) else c)"

definition strings_ToLower :: "string \<Rightarrow> string" where
  "strings_ToLower s = map byte_lower s"

lemma HasPrefix_prefix [go_strings]: "strings_HasPrefix s p \<longleftrightarrow> prefix p s"
  by (auto simp: strings_HasPrefix_def prefix_def) (metis append_take_drop_id)

lemma HasPrefix_single [go_strings]: "strings_HasPrefix s [c] \<longleftrightarrow> (\<exists>t. s = c # t)"
  by (auto simp: HasPrefix_prefix prefix_def)

lemma Contains_sublist [go_strings]: "strings_Contains s p \<longleftrightarrow> sublist p s"
  by (induction s) (auto simp: HasPrefix_prefix sublist_Cons_right)

lemma Contains_single [go_strings]: "strings_Contains s [c] \<longleftrightarrow> c \<in> set s"
  by (induction s) (auto simp: HasPrefix_single)

lemma Split_not_Nil [simp]: "strings_Split c s \<noteq> []"
  by (induction s) (auto split: list.splits)

lemma Split_Cons_other:
  "x \<noteq> c \<Longrightarrow> strings_Split c (x # xs) =
     (x # hd (strings_Split c xs)) # tl (strings_Split c xs)"
  by (cases "strings_Split c xs") auto

lemma Join_Split [go_strings]: "strings_Join (strings_Split c s) [c] = s"
proof (induction s)
  case Nil
  show ?case by simp
next
  case (Cons x xs)
  obtain y ys where ys: "strings_Split c xs = y # ys"
    by (cases "strings_Split c xs") auto
  with Cons show ?case by (cases ys) auto
qed

lemma Split_no_sep [go_strings]: "seg \<in> set (strings_Split c s) \<Longrightarrow> c \<notin> set seg"
proof (induction s arbitrary: seg)
  case Nil
  then show ?case by simp
next
  case (Cons x xs)
  then show ?case
    by (cases "strings_Split c xs") (auto split: if_splits)
qed

lemma set_Split [go_strings]:
  "(\<Union>seg \<in> set (strings_Split c s). set seg) = set s - {c}"
proof (induction s)
  case Nil
  show ?case by simp
next
  case (Cons x xs)
  then show ?case by (cases "strings_Split c xs") (auto split: if_splits)
qed

lemma length_Split [go_strings]: "length (strings_Split c s) = Suc (count_list s c)"
proof (induction s)
  case (Cons x xs)
  then show ?case by (cases "strings_Split c xs") auto
qed simp

lemma Split_Join [go_strings]:
  "xs \<noteq> [] \<Longrightarrow> (\<And>x. x \<in> set xs \<Longrightarrow> c \<notin> set x) \<Longrightarrow> strings_Split c (strings_Join xs [c]) = xs"
proof (induction xs "[c]" rule: strings_Join.induct)
  case 1
  then show ?case by simp
next
  case (2 x)
  have "strings_Split c s = [s]" if "c \<notin> set s" for s
    using that by (induction s) auto
  with 2 show ?case by simp
next
  case (3 x y ys)
  have split: "strings_Split c (s @ c # t) = s # strings_Split c t" if "c \<notin> set s" for s t
    using that by (induction s) auto
  from 3 show ?case by (simp add: split)
qed

lemma find_map_comp: "find P (map f xs) = map_option f (find (P \<circ> f) xs)"
  by (induction xs) auto

lemma length_ToLower [simp]: "length (strings_ToLower s) = length s"
  by (simp add: strings_ToLower_def)

section \<open>Buffered channels\<close>

text \<open>
  A channel made by \<^verbatim>\<open>make(chan T, n)\<close>: its capacity and the queued values, oldest first. A
  send is enabled while there is room, a receive while a value is queued. The \<^verbatim>\<open>select\<close>
  statements of the sources choose between a channel operation and another event (a timer, the
  death of a tomb); their models take that choice as an argument.
\<close>

record 'a chan =
  chan_cap :: nat
  chan_buf :: "'a list"

definition make_chan :: "nat \<Rightarrow> 'a chan" where
  "make_chan n = \<lparr>chan_cap = n, chan_buf = []\<rparr>"

definition chan_full :: "'a chan \<Rightarrow> bool" where
  "chan_full ch = (chan_cap ch \<le> length (chan_buf ch))"

definition chan_send :: "'a chan \<Rightarrow> 'a \<Rightarrow> 'a chan option" where
  "chan_send ch x = (if chan_full ch then None else Some (ch\<lparr>chan_buf := chan_buf ch @ [x]\<rparr>))"

definition chan_recv :: "'a chan \<Rightarrow> ('a \<times> 'a chan) option" where
  "chan_recv ch = (case chan_buf ch of [] \<Rightarrow> None | x # xs \<Rightarrow> Some (x, ch\<lparr>chan_buf := xs\<rparr>))"

definition chan_wf :: "'a chan \<Rightarrow> bool" where
  "chan_wf ch = (length (chan_buf ch) \<le> chan_cap ch)"

datatype 'a qop = QSend 'a | QRecv

text \<open>
  The interface of a bounded FIFO queue, for the components that hand values over a channel:
  \<open>contents\<close> is the abstract queue, a send appends, a receive takes the oldest value, and the
  bound is kept. The laws below are what the clients of channels rely on.
\<close>

locale bounded_fifo =
  fixes empty :: "nat \<Rightarrow> 'q"
    and send :: "'q \<Rightarrow> 'a \<Rightarrow> 'q option"
    and recv :: "'q \<Rightarrow> ('a \<times> 'q) option"
    and contents :: "'q \<Rightarrow> 'a list"
    and capacity :: "'q \<Rightarrow> nat"
    and inv :: "'q \<Rightarrow> bool"
  assumes empty_contents: "contents (empty n) = []"
    and empty_inv: "inv (empty n)"
    and empty_capacity: "capacity (empty n) = n"
    and inv_bound: "inv q \<Longrightarrow> length (contents q) \<le> capacity q"
    and send_None: "inv q \<Longrightarrow> send q x = None \<longleftrightarrow> length (contents q) = capacity q"
    and send_Some: "inv q \<Longrightarrow> send q x = Some q' \<Longrightarrow>
          contents q' = contents q @ [x] \<and> capacity q' = capacity q \<and> inv q'"
    and recv_None: "recv q = None \<longleftrightarrow> contents q = []"
    and recv_Some: "inv q \<Longrightarrow> recv q = Some (x, q') \<Longrightarrow>
          contents q = x # contents q' \<and> capacity q' = capacity q \<and> inv q'"
begin

text \<open>Sends that find the queue full are lost; \<open>send_all\<close> is a run of such sends.\<close>

primrec send_all :: "'q \<Rightarrow> 'a list \<Rightarrow> 'q" where
  "send_all q [] = q"
| "send_all q (x # xs) = send_all (case send q x of None \<Rightarrow> q | Some q' \<Rightarrow> q') xs"

primrec recv_n :: "nat \<Rightarrow> 'q \<Rightarrow> 'a list \<times> 'q" where
  "recv_n 0 q = ([], q)"
| "recv_n (Suc n) q =
     (case recv q of None \<Rightarrow> ([], q) | Some (x, q') \<Rightarrow> (let (xs, q'') = recv_n n q' in (x # xs, q'')))"

lemma send_all_contents:
  "inv q \<Longrightarrow> inv (send_all q xs) \<and> capacity (send_all q xs) = capacity q \<and>
     contents (send_all q xs) = contents q @ take (capacity q - length (contents q)) xs"
proof (induction xs arbitrary: q)
  case Nil
  then show ?case by simp
next
  case (Cons x xs)
  show ?case
  proof (cases "send q x")
    case None
    with Cons.prems have "length (contents q) = capacity q" by (simp add: send_None)
    with Cons None show ?thesis by simp
  next
    case (Some q')
    with Cons.prems have q': "contents q' = contents q @ [x]" "capacity q' = capacity q" "inv q'"
      by (auto dest: send_Some)
    have "length (contents q) < capacity q"
      using Some Cons.prems inv_bound [OF q'(3)] q' by simp
    then obtain k where "capacity q - length (contents q) = Suc k"
      by (metis Suc_diff_Suc)
    moreover from this q' have "capacity q' - length (contents q') = k" by simp
    ultimately show ?thesis using Some Cons.IH [OF q'(3)] q' by simp
  qed
qed

lemma recv_n_contents:
  "inv q \<Longrightarrow> fst (recv_n n q) = take n (contents q) \<and>
     contents (snd (recv_n n q)) = drop n (contents q) \<and> inv (snd (recv_n n q))"
proof (induction n arbitrary: q)
  case 0
  then show ?case by simp
next
  case (Suc n)
  show ?case
  proof (cases "recv q")
    case None
    with Suc.prems show ?thesis using recv_None [of q] by simp
  next
    case (Some p)
    obtain x q' where p: "p = (x, q')" by (cases p)
    from Suc.prems Some p have "contents q = x # contents q'" "inv q'"
      by (auto dest: recv_Some)
    with Suc.IH [of q'] Some p show ?thesis by (auto split: prod.splits)
  qed
qed

text \<open>What is sent while there is room comes out in the order it went in.\<close>

lemma fifo_order:
  assumes "length xs \<le> n"
  shows "fst (recv_n (length xs) (send_all (empty n) xs)) = xs"
proof -
  have "contents (send_all (empty n) xs) = xs" "inv (send_all (empty n) xs)"
    using send_all_contents [OF empty_inv, of n xs] assms
    by (simp_all add: empty_contents empty_capacity)
  then show ?thesis using recv_n_contents [of "send_all (empty n) xs" "length xs"] by simp
qed

text \<open>
  Any interleaving of sends and receives: \<open>run_ops\<close> returns what was accepted, what was
  received, and the final queue.
\<close>

primrec run_ops :: "'q \<Rightarrow> 'a qop list \<Rightarrow> 'a list \<times> 'a list \<times> 'q" where
  "run_ops q [] = ([], [], q)"
| "run_ops q (x # ops) =
     (case x of
        QSend v \<Rightarrow>
          (case send q v of
             None \<Rightarrow> run_ops q ops
           | Some q' \<Rightarrow> (let (acc, rcv, q'') = run_ops q' ops in (v # acc, rcv, q'')))
      | QRecv \<Rightarrow>
          (case recv q of
             None \<Rightarrow> run_ops q ops
           | Some (v, q') \<Rightarrow> (let (acc, rcv, q'') = run_ops q' ops in (acc, v # rcv, q''))))"

lemma run_ops_history:
  "inv q \<Longrightarrow> run_ops q ops = (acc, rcv, q') \<Longrightarrow> contents q @ acc = rcv @ contents q' \<and> inv q'"
proof (induction ops arbitrary: q acc rcv)
  case (Cons x ops)
  show ?case
  proof (cases x)
    case (QSend v)
    show ?thesis
    proof (cases "send q v")
      case None
      then show ?thesis using Cons QSend by simp
    next
      case (Some q1)
      with Cons.prems(1) have q1: "contents q1 = contents q @ [v]" "inv q1" by (auto dest: send_Some)
      obtain acc1 where "run_ops q1 ops = (acc1, rcv, q')" "acc = v # acc1"
        using Cons.prems(2) QSend Some by (auto split: prod.splits)
      with Cons.IH [OF q1(2)] q1(1) show ?thesis by simp
    qed
  next
    case QRecv
    show ?thesis
    proof (cases "recv q")
      case None
      then show ?thesis using Cons QRecv by simp
    next
      case (Some p)
      obtain v q1 where p: "p = (v, q1)" by (cases p)
      with Some Cons.prems(1) have "contents q = v # contents q1" "inv q1" by (auto dest: recv_Some)
      moreover obtain rcv1 where "run_ops q1 ops = (acc, rcv1, q')" "rcv = v # rcv1"
        using Cons.prems(2) QRecv Some p by (auto split: prod.splits)
      ultimately show ?thesis using Cons.IH [of q1 acc rcv1] by simp
    qed
  qed
qed simp

end

lemma make_chan_simps [simp, go_chan]:
  "chan_buf (make_chan n) = []" "chan_cap (make_chan n) = n"
  by (simp_all add: make_chan_def)

lemma chan_send_eq_Some [go_chan]:
  "chan_send ch x = Some ch' \<longleftrightarrow>
     length (chan_buf ch) < chan_cap ch \<and> ch' = ch\<lparr>chan_buf := chan_buf ch @ [x]\<rparr>"
  by (auto simp: chan_send_def chan_full_def)

lemma chan_send_eq_None [go_chan]:
  "chan_send ch x = None \<longleftrightarrow> chan_cap ch \<le> length (chan_buf ch)"
  by (auto simp: chan_send_def chan_full_def)

lemma chan_recv_eq_Some [go_chan]:
  "chan_recv ch = Some (x, ch') \<longleftrightarrow> (\<exists>xs. chan_buf ch = x # xs \<and> ch' = ch\<lparr>chan_buf := xs\<rparr>)"
  by (auto simp: chan_recv_def split: list.splits)

lemma chan_recv_eq_None [go_chan]: "chan_recv ch = None \<longleftrightarrow> chan_buf ch = []"
  by (auto simp: chan_recv_def split: list.splits)

interpretation go_channel: bounded_fifo make_chan chan_send chan_recv chan_buf chan_cap chan_wf
  by unfold_locales (auto simp: go_chan chan_wf_def)

section \<open>Association lists as Go maps in iteration order\<close>

text \<open>
  A Go map the code ranges over is an association list with distinct keys: the list order is
  the iteration order, which Go leaves unspecified, so theorems hold for every order.
  \<open>alist_put\<close> is \<^verbatim>\<open>m[k] = v\<close>, \<open>alist_del\<close> is \<^verbatim>\<open>delete(m, k)\<close>.
\<close>

fun alist_put :: "'k \<Rightarrow> 'v \<Rightarrow> ('k \<times> 'v) list \<Rightarrow> ('k \<times> 'v) list" where
  "alist_put k v [] = [(k, v)]"
| "alist_put k v ((k', v') # m) = (if k = k' then (k, v) # m else (k', v') # alist_put k v m)"

definition alist_del :: "'k \<Rightarrow> ('k \<times> 'v) list \<Rightarrow> ('k \<times> 'v) list" where
  "alist_del k m = filter (\<lambda>kv. fst kv \<noteq> k) m"

definition alist_wf :: "('k \<times> 'v) list \<Rightarrow> bool" where
  "alist_wf m = distinct (map fst m)"

lemma map_of_put [simp]: "map_of (alist_put k v m) = (map_of m)(k \<mapsto> v)"
  by (induction m) (auto simp: fun_eq_iff)

lemma keys_put: "set (map fst (alist_put k v m)) = insert k (set (map fst m))"
  by (induction k v m rule: alist_put.induct) auto

lemma wf_put [intro, simp]: "alist_wf m \<Longrightarrow> alist_wf (alist_put k v m)"
proof (induction m)
  case (Cons kv m)
  then show ?case using keys_put [of k v m] by (cases kv) (auto simp: alist_wf_def)
qed (simp add: alist_wf_def)

lemma map_of_del [simp]: "map_of (alist_del k m) = (map_of m)(k := None)"
  by (induction m) (auto simp: alist_del_def fun_eq_iff)

lemma wf_del [intro, simp]: "alist_wf m \<Longrightarrow> alist_wf (alist_del k m)"
  by (simp add: alist_wf_def alist_del_def distinct_map_filter)

lemma wf_Nil [simp]: "alist_wf []"
  by (simp add: alist_wf_def)

lemma wf_Cons: "alist_wf ((k, v) # m) \<longleftrightarrow> map_of m k = None \<and> alist_wf m"
  by (auto simp: alist_wf_def map_of_eq_None_iff)

section \<open>Interfaces of state machines, stores and codecs\<close>

text \<open>
  A component whose state moves by steps and keeps an invariant: what holds initially and is kept by every step holds in
  every state a run reaches. The components give their step and the lemma that a step keeps the invariant.
\<close>

locale step_system =
  fixes step :: "'s \<Rightarrow> 's \<Rightarrow> bool"
    and inv :: "'s \<Rightarrow> bool"
  assumes step_inv: "step s s' \<Longrightarrow> inv s \<Longrightarrow> inv s'"
begin

lemma steps_inv: "rtranclp step s s' \<Longrightarrow> inv s \<Longrightarrow> inv s'"
  by (induction rule: rtranclp_induct) (auto intro: step_inv)

lemma steps_stable:
  assumes "rtranclp step s s'" "inv s" "P s"
    and "\<And>x y. inv x \<Longrightarrow> P x \<Longrightarrow> step x y \<Longrightarrow> P y"
  shows "P s'"
proof -
  have "inv s' \<and> P s'"
    using assms(1) by (induction rule: rtranclp_induct) (auto intro: assms step_inv)
  then show ?thesis ..
qed

end

text \<open>Steps that an event selects, and events that may be impossible in a state.\<close>

locale event_system =
  fixes next_state :: "'s \<Rightarrow> 'e \<Rightarrow> 's"
    and inv :: "'s \<Rightarrow> bool"
  assumes event_inv: "inv s \<Longrightarrow> inv (next_state s e)"
begin

lemma run_inv: "inv s \<Longrightarrow> inv (foldl next_state s es)"
  by (induction es arbitrary: s) (auto simp: event_inv)

end

sublocale event_system \<subseteq> events: step_system "\<lambda>s s'. \<exists>e. s' = next_state s e" inv
  by unfold_locales (auto simp: event_inv)

locale partial_event_system =
  fixes try_step :: "'s \<Rightarrow> 'e \<Rightarrow> 's option"
    and inv :: "'s \<Rightarrow> bool"
  assumes try_inv: "inv s \<Longrightarrow> try_step s e = Some s' \<Longrightarrow> inv s'"

sublocale partial_event_system \<subseteq> events: step_system "\<lambda>s s'. \<exists>e. try_step s e = Some s'" inv
  by unfold_locales (auto intro: try_inv)

text \<open>
  A store of values by key, as a map of the language, a \<^verbatim>\<open>sync.Map\<close> or a list of entries: of several writes the last one is read.
\<close>

locale kv_store =
  fixes lookup :: "'st \<Rightarrow> 'k \<Rightarrow> 'v option"
    and put :: "'st \<Rightarrow> 'k \<Rightarrow> 'v \<Rightarrow> 'st"
    and remove :: "'st \<Rightarrow> 'k \<Rightarrow> 'st"
  assumes lookup_put: "lookup (put s k v) k' = (if k' = k then Some v else lookup s k')"
    and lookup_remove: "lookup (remove s k) k' = (if k' = k then None else lookup s k')"
begin

lemma lookup_puts:
  "lookup (foldl (\<lambda>s (k, v). put s k v) s kvs) k = (case map_of (rev kvs) k of Some v \<Rightarrow> Some v | None \<Rightarrow> lookup s k)"
  by (induction kvs arbitrary: s) (auto simp: lookup_put map_add_def split: option.splits)

lemma lookup_removes:
  "lookup (foldl remove s ks) k = (if k \<in> set ks then None else lookup s k)"
  by (induction ks arbitrary: s) (auto simp: lookup_remove)

end

interpretation go_map: kv_store "\<lambda>m k. m k" "\<lambda>m k v. m(k \<mapsto> v)" "\<lambda>m k. m(k := None)"
  by unfold_locales auto

interpretation go_entries: kv_store map_of "\<lambda>m k v. alist_put k v m" "\<lambda>m k. alist_del k m"
  by unfold_locales auto

text \<open>A codec: decoding inverts encoding, hence encoding is injective and lists of texts can be decoded one by one.\<close>

locale text_codec =
  fixes encode :: "'v \<Rightarrow> 't"
    and decode :: "'t \<Rightarrow> 'v option"
  assumes decode_encode: "decode (encode v) = Some v"
begin

lemma encode_inj: "encode v = encode w \<longleftrightarrow> v = w"
  by (metis decode_encode option.inject)

lemma decode_all: "List.map_filter decode (map encode vs) = vs"
  by (induction vs) (simp_all add: List.map_filter_simps decode_encode)

end

end
