(* ===== verification/Mqtt_Topic.thy ===== *)
theory Mqtt_Topic
  imports Baetyl_Prelude
begin

text \<open>
  MQTT topic names and filters: \<^verbatim>\<open>mqtt/topic.go\<close>. \<open>checkTopic\<close> is the routine behind
  \<open>CheckTopic\<close> and behind the method of \<open>TopicChecker\<close>; the lemmas show that it decides the
  declarative predicate \<open>topic_ok\<close>, and what an accepted topic is sure not to contain.
  \<^verbatim>\<open>ProcessTopic\<close> (the text template engine) is not modelled.
\<close>

section \<open>The routine\<close>

definition maxTopicLevels :: nat where
  "maxTopicLevels = 9"

definition maxTopicLength :: nat where
  "maxTopicLength = 255"

text \<open>The loop over the segments, with the source's \<open>index\<close> and \<open>levels\<close>.\<close>

fun check_levels :: "bool \<Rightarrow> nat \<Rightarrow> nat \<Rightarrow> string list \<Rightarrow> bool" where
  "check_levels wildcard levels index [] = True"
| "check_levels wildcard levels index (segment # rest) =
     (if 1 < length segment \<and> (strings_Contains segment ''+'' \<or> strings_Contains segment ''#'')
      then False
      else if \<not> wildcard \<and> (segment = ''#'' \<or> segment = ''+'') then False
      else if segment = ''#'' \<and> index \<noteq> levels - 1 then False
      else check_levels wildcard levels (Suc index) rest)"

text \<open>
  \<open>sysTopics\<close> is a \<^verbatim>\<open>map[string]struct{}\<close>, hence a set; the nil map is the empty set.
  \<^verbatim>\<open>strings.Split\<close> returns at least one segment, so the source's \<^verbatim>\<open>segments[0]\<close> is always there
  and the first branch of the case is never taken.
\<close>

definition checkTopic :: "string \<Rightarrow> bool \<Rightarrow> string set \<Rightarrow> bool" where
  "checkTopic topic wildcard sysTopics =
     (if topic = [] then False
      else if maxTopicLength < length topic \<or> strings_Contains topic [CHR 0x00] then False
      else
        (case strings_Split CHR ''/'' topic of
           [] \<Rightarrow> False
         | seg0 # rest \<Rightarrow>
             (let levels_ok = (\<lambda>segments.
                    if maxTopicLevels < length segments then False
                    else check_levels wildcard (length segments) 0 segments)
              in if strings_HasPrefix seg0 ''$'' then
                   if length (seg0 # rest) < 2 then False
                   else if sysTopics = {} then
                     if strings_Contains seg0 ''+'' \<or> strings_Contains seg0 ''#'' then False
                     else levels_ok rest
                   else if seg0 \<notin> sysTopics then False
                   else levels_ok rest
                 else levels_ok (seg0 # rest))))"

definition CheckTopic :: "string \<Rightarrow> bool \<Rightarrow> bool" where
  "CheckTopic topic wildcard = checkTopic topic wildcard {}"

record TopicChecker =
  sysTopics :: "string set"

definition NewTopicChecker :: "string list \<Rightarrow> TopicChecker" where
  "NewTopicChecker ts = \<lparr>sysTopics = fold insert ts {}\<rparr>"

definition TopicChecker_CheckTopic :: "TopicChecker \<Rightarrow> string \<Rightarrow> bool \<Rightarrow> bool" where
  "TopicChecker_CheckTopic tc topic wildcard = checkTopic topic wildcard (sysTopics tc)"

section \<open>The specification\<close>

text \<open>
  A topic splits at the slashes. A first segment that starts with a dollar sign is a system
  segment: it must be followed by another one, must be registered when the checker has a
  register and is free of wildcards when it has none. The remaining segments are the levels.
\<close>

definition segment_ok :: "bool \<Rightarrow> string \<Rightarrow> bool \<Rightarrow> bool" where
  "segment_ok wildcard seg is_last \<longleftrightarrow>
     (CHR ''+'' \<in> set seg \<longrightarrow> wildcard \<and> seg = ''+'') \<and>
     (CHR ''#'' \<in> set seg \<longrightarrow> wildcard \<and> seg = ''#'' \<and> is_last)"

definition levels_of :: "string \<Rightarrow> string list" where
  "levels_of t = (let segs = strings_Split CHR ''/'' t in
     if (\<exists>u. hd segs = CHR ''$'' # u) then tl segs else segs)"

definition system_ok :: "string set \<Rightarrow> string \<Rightarrow> bool" where
  "system_ok sys t \<longleftrightarrow>
     (\<forall>u. hd (strings_Split CHR ''/'' t) = CHR ''$'' # u \<longrightarrow>
        levels_of t \<noteq> [] \<and>
        (if sys = {} then CHR ''+'' \<notin> set u \<and> CHR ''#'' \<notin> set u
         else CHR ''$'' # u \<in> sys))"

definition topic_ok :: "bool \<Rightarrow> string set \<Rightarrow> string \<Rightarrow> bool" where
  "topic_ok wildcard sys t \<longleftrightarrow>
     t \<noteq> [] \<and> length t \<le> 255 \<and> CHR 0x00 \<notin> set t \<and> system_ok sys t \<and>
     length (levels_of t) \<le> 9 \<and>
     (\<forall>i < length (levels_of t).
        segment_ok wildcard (levels_of t ! i) (Suc i = length (levels_of t)))"

section \<open>The routine decides the specification\<close>

lemma single_mem: "length seg \<le> 1 \<Longrightarrow> c \<in> set seg \<longleftrightarrow> seg = [c]"
  by (cases seg) auto

lemma segment_check:
  "segment_ok wildcard seg is_last \<longleftrightarrow>
     \<not> (1 < length seg \<and> (strings_Contains seg ''+'' \<or> strings_Contains seg ''#'')) \<and>
     \<not> (\<not> wildcard \<and> (seg = ''#'' \<or> seg = ''+'')) \<and> \<not> (seg = ''#'' \<and> \<not> is_last)"
proof (cases "1 < length seg")
  case True
  then have "seg \<noteq> ''+''" "seg \<noteq> ''#''" by auto
  with True show ?thesis by (auto simp: segment_ok_def Contains_single)
next
  case False
  then have "c \<in> set seg \<longleftrightarrow> seg = [c]" for c using single_mem [of seg c] by simp
  with False show ?thesis by (auto simp: segment_ok_def)
qed

lemma check_levels_iff:
  "levels = index + length segs \<Longrightarrow>
   check_levels wildcard levels index segs \<longleftrightarrow>
     (\<forall>i < length segs. segment_ok wildcard (segs ! i) (Suc i = length segs))"
proof (induction segs arbitrary: index)
  case Nil
  then show ?case by simp
next
  case (Cons seg rest)
  have last: "index = levels - Suc 0 \<longleftrightarrow> rest = []"
    using Cons.prems by (cases rest) auto
  have "check_levels wildcard levels index (seg # rest) \<longleftrightarrow>
      segment_ok wildcard seg (rest = []) \<and> check_levels wildcard levels (Suc index) rest"
    by (auto simp: segment_check last)
  also have "\<dots> \<longleftrightarrow> segment_ok wildcard seg (rest = []) \<and>
      (\<forall>i < length rest. segment_ok wildcard (rest ! i) (Suc i = length rest))"
    using Cons.IH [of "Suc index"] Cons.prems by simp
  also have "\<dots> \<longleftrightarrow> (\<forall>i < length (seg # rest).
      segment_ok wildcard ((seg # rest) ! i) (Suc i = length (seg # rest)))"
    by (auto simp: less_Suc_eq_0_disj nth_Cons')
  finally show ?case .
qed

declare check_levels.simps(2) [simp del]

lemma levels_of_Cons:
  "strings_Split CHR ''/'' t = seg0 # rest \<Longrightarrow>
     levels_of t = (if strings_HasPrefix seg0 ''$'' then rest else seg0 # rest)"
  by (auto simp: levels_of_def HasPrefix_single)

text \<open>
  C7. Functional correctness of the topic checker: for every topic, wildcard flag and set of
  registered system topics, \<open>checkTopic\<close> answers exactly the declarative specification
  \<open>topic_ok\<close> (length, NUL byte, system prefix, number of levels, use of the wildcards).
\<close>

theorem checkTopic_iff: "checkTopic t wildcard sys \<longleftrightarrow> topic_ok wildcard sys t"
proof -
  obtain seg0 rest where segs: "strings_Split CHR ''/'' t = seg0 # rest"
    by (cases "strings_Split CHR ''/'' t") auto
  note lev = levels_of_Cons [OF segs]
  show ?thesis
  proof (cases "strings_HasPrefix seg0 ''$''")
    case True
    then obtain u where "seg0 = CHR ''$'' # u" by (auto simp: HasPrefix_single)
    then show ?thesis
      using segs lev True
      by (auto simp: checkTopic_def topic_ok_def system_ok_def check_levels_iff Let_def
          Contains_single maxTopicLength_def maxTopicLevels_def)
  next
    case False
    then show ?thesis
      using segs lev
      by (auto simp: checkTopic_def topic_ok_def system_ok_def check_levels_iff Let_def
          Contains_single maxTopicLength_def maxTopicLevels_def HasPrefix_single)
  qed
qed

section \<open>What an accepted topic guarantees\<close>

lemma set_topic:
  "set t \<subseteq> insert CHR ''/'' (\<Union> (set ` set (strings_Split CHR ''/'' t)))"
  using set_Split [of "CHR ''/''" t] by blast

lemma topic_chars:
  "set t \<subseteq> insert CHR ''/'' (set (hd (strings_Split CHR ''/'' t)) \<union> \<Union> (set ` set (levels_of t)))"
proof -
  obtain seg0 rest where segs: "strings_Split CHR ''/'' t = seg0 # rest"
    by (cases "strings_Split CHR ''/'' t") auto
  have "set t \<subseteq> insert CHR ''/'' (set seg0 \<union> \<Union> (set ` set rest))"
    using set_topic [of t] segs by simp
  moreover have "set rest \<subseteq> set (levels_of t)"
    using segs by (auto simp: levels_of_def Let_def)
  ultimately show ?thesis using segs by auto
qed

lemma levels_wildcard_free:
  assumes "topic_ok False sys t" and "seg \<in> set (levels_of t)"
  shows "CHR ''+'' \<notin> set seg" and "CHR ''#'' \<notin> set seg"
  using assms by (auto simp: topic_ok_def segment_ok_def in_set_conv_nth)

lemma head_wildcard_free:
  assumes "topic_ok False {} t" and c: "c = CHR ''+'' \<or> c = CHR ''#''"
  shows "c \<notin> set (hd (strings_Split CHR ''/'' t))"
proof (cases "\<exists>u. hd (strings_Split CHR ''/'' t) = CHR ''$'' # u")
  case True
  with assms show ?thesis by (auto simp: topic_ok_def system_ok_def)
next
  case False
  then have "hd (strings_Split CHR ''/'' t) \<in> set (levels_of t)"
    by (auto simp: levels_of_def Let_def)
  with assms show ?thesis using levels_wildcard_free by metis
qed

text \<open>
  A topic accepted for publishing (no wildcards allowed, no register of system topics)
  holds neither of the wildcard characters anywhere, not even in its system segment, so no
  publisher can write to a filter.
\<close>

theorem publish_topic_wildcard_free:
  "CheckTopic t False \<Longrightarrow> CHR ''+'' \<notin> set t \<and> CHR ''#'' \<notin> set t"
proof -
  assume "CheckTopic t False"
  then have ok: "topic_ok False {} t" by (simp add: CheckTopic_def checkTopic_iff)
  have "c \<notin> set t" if c: "c = CHR ''+'' \<or> c = CHR ''#''" for c
    using topic_chars [of t] head_wildcard_free [OF ok c] levels_wildcard_free [OF ok] c by auto
  then show ?thesis by blast
qed

theorem publish_topic_wildcard_free_witness:
  "CheckTopic ''$baidu/services/a'' False \<and>
   CHR ''+'' \<notin> set ''$baidu/services/a'' \<and> CHR ''#'' \<notin> set ''$baidu/services/a''"
proof -
  have "CheckTopic ''$baidu/services/a'' False" by code_simp
  with publish_topic_wildcard_free [OF this] show ?thesis by blast
qed

lemma segment_ok_mono: "segment_ok False seg l \<Longrightarrow> segment_ok wildcard seg l"
  by (auto simp: segment_ok_def)

lemma checkTopic_wildcard_mono: "checkTopic t False sys \<Longrightarrow> checkTopic t wildcard sys"
  by (auto simp: checkTopic_iff topic_ok_def intro: segment_ok_mono)

lemma sysTopics_NewTopicChecker [simp]: "sysTopics (NewTopicChecker ts) = set ts"
  by (simp add: NewTopicChecker_def union_set_fold [symmetric])

text \<open>
  A checker that registers system topics is at least as strict as the bare check on the
  levels, accepts a topic with a system segment only when that very segment is registered, and
  accepts the same topics as the bare check among those without a system segment.
\<close>

theorem TopicChecker_restricts:
  assumes "ts \<noteq> []"
  shows "TopicChecker_CheckTopic (NewTopicChecker ts) t wildcard \<longleftrightarrow>
     topic_ok wildcard (set ts) t \<and>
     (strings_HasPrefix t ''$'' \<longrightarrow> hd (strings_Split CHR ''/'' t) \<in> set ts) \<and>
     (\<not> strings_HasPrefix t ''$'' \<longrightarrow> CheckTopic t wildcard)"
proof -
  have head: "strings_HasPrefix t ''$'' \<longleftrightarrow> (\<exists>u. hd (strings_Split CHR ''/'' t) = CHR ''$'' # u)"
    by (cases t) (auto simp: HasPrefix_single split: list.splits)
  show ?thesis
    using assms
    by (auto simp: TopicChecker_CheckTopic_def CheckTopic_def checkTopic_iff head topic_ok_def
        system_ok_def)
qed

theorem TopicChecker_restricts_witness:
  "TopicChecker_CheckTopic (NewTopicChecker [''$baidu'', ''$link'']) ''$link/+/#'' True \<and>
   \<not> TopicChecker_CheckTopic (NewTopicChecker [''$baidu'', ''$link'']) ''$SYS/+'' True"
proof -
  have ne: "[''$baidu'', ''$link''] \<noteq> []" by simp
  have "\<not> hd (strings_Split CHR ''/'' ''$SYS/+'') \<in> set [''$baidu'', ''$link'']"
    "strings_HasPrefix ''$SYS/+'' ''$''" by code_simp+
  moreover have "TopicChecker_CheckTopic (NewTopicChecker [''$baidu'', ''$link'']) ''$link/+/#'' True"
    by (simp add: TopicChecker_CheckTopic_def checkTopic_def Let_def check_levels.simps
        HasPrefix_single Contains_single maxTopicLength_def maxTopicLevels_def)
  ultimately show ?thesis using TopicChecker_restricts [OF ne, of "''$SYS/+''" True] by blast
qed

end
