(* ===== verification/Mqtt_Counter.thy ===== *)
theory Mqtt_Counter
  imports Baetyl_Prelude "HOL-Library.Word"
begin

text \<open>
  The packet identifiers of the MQTT client: \<^verbatim>\<open>mqtt/counter.go\<close>. The identifier type \<^verbatim>\<open>ID\<close> is the
  unsigned integer of the packet library; the model is generic in its width \<open>'w\<close>, so the
  wrap-around is that of whatever width it has (16 bits on the wire). The mutex makes each
  method one atomic step, so a client's calls are a sequence of \<open>NextID\<close> steps.
\<close>

section \<open>The counter\<close>

record 'i Counter =
  next_id :: 'i

definition NextCounterID :: "'w::len word \<Rightarrow> 'w word" where
  "NextCounterID pid = (let pid = pid + 1 in if pid = 0 then pid + 1 else pid)"

definition NewCounterWithNext :: "'w::len word \<Rightarrow> 'w word Counter" where
  "NewCounterWithNext nxt = \<lparr>next_id = nxt\<rparr>"

definition NewCounter :: "'w::len word Counter" where
  "NewCounter = NewCounterWithNext 1"

definition NextID :: "'w::len word Counter \<Rightarrow> 'w word \<times> 'w word Counter" where
  "NextID c = (let pid = next_id c in (pid, c\<lparr>next_id := NextCounterID pid\<rparr>))"

definition GetNextID :: "'w::len word Counter \<Rightarrow> 'w word" where
  "GetNextID c = next_id c"

definition Reset :: "'w::len word Counter \<Rightarrow> 'w word Counter" where
  "Reset c = c\<lparr>next_id := 1\<rparr>"

text \<open>The identifiers that \<open>n\<close> calls in a row return.\<close>

primrec NextIDs :: "nat \<Rightarrow> 'w::len word Counter \<Rightarrow> 'w word list" where
  "NextIDs 0 c = []"
| "NextIDs (Suc n) c = (let (pid, c') = NextID c in pid # NextIDs n c')"

section \<open>The sequence of identifiers\<close>

text \<open>The number of identifiers in use: every value but zero.\<close>

abbreviation id_period :: "'w::len itself \<Rightarrow> nat" where
  "id_period _ \<equiv> 2 ^ LENGTH('w) - 1"

lemma id_period_pos: "0 < id_period TYPE('w::len)"
  using one_less_power [of "2::nat" "LENGTH('w)"] by simp

lemma NextCounterID_nonzero: "NextCounterID pid \<noteq> 0"
  by (auto simp: NextCounterID_def Let_def)

lemma unat_le_period: "unat (pid :: 'w::len word) \<le> id_period TYPE('w)"
proof -
  have "unat pid < 2 ^ LENGTH('w)" by (rule unsigned_less)
  then show ?thesis by linarith
qed

lemma unat_NextCounterID:
  fixes pid :: "'w::len word"
  assumes "pid \<noteq> 0"
  shows "unat (NextCounterID pid) = unat pid mod id_period TYPE('w) + 1"
proof (cases "unat pid = id_period TYPE('w)")
  case True
  then have "unat pid = unat (- 1 :: 'w word)"
    by (simp add: unsigned_minus_1_eq_mask mask_eq_exp_minus_1)
  then have "pid = - 1" by (simp only: word_unat_eq_iff)
  then have "NextCounterID pid = 1" by (simp add: NextCounterID_def)
  with True show ?thesis by simp
next
  case False
  with unat_le_period [of pid] have lt: "unat pid < id_period TYPE('w)" by linarith
  have "unat (pid + 1) = (unat pid + 1) mod 2 ^ LENGTH('w)"
    by (simp add: unat_word_ariths)
  with lt have plus: "unat (pid + 1) = unat pid + 1" by simp
  then have "pid + 1 \<noteq> 0" by auto
  with plus lt show ?thesis by (simp add: NextCounterID_def)
qed

definition id_at :: "nat \<Rightarrow> 'w::len word" where
  "id_at k = of_nat (k mod id_period TYPE('w) + 1)"

lemma unat_id_at: "unat (id_at k :: 'w::len word) = k mod id_period TYPE('w) + 1"
proof -
  have "k mod id_period TYPE('w) < id_period TYPE('w)"
    by (rule mod_less_divisor [OF id_period_pos])
  then have "k mod id_period TYPE('w) + 1 < 2 ^ LENGTH('w)" by linarith
  then show ?thesis unfolding id_at_def by (simp only: unat_of_nat mod_less)
qed

lemma id_at_nonzero: "id_at k \<noteq> (0 :: 'w::len word)"
proof
  assume "id_at k = (0 :: 'w word)"
  then have "unat (id_at k :: 'w word) = 0" by simp
  then show False by (simp add: unat_id_at)
qed

lemma NextCounterID_id_at: "NextCounterID (id_at k :: 'w::len word) = id_at (Suc k)"
proof -
  have "unat (NextCounterID (id_at k :: 'w word)) =
      (k mod id_period TYPE('w) + 1) mod id_period TYPE('w) + 1"
    by (simp add: unat_NextCounterID [OF id_at_nonzero] unat_id_at)
  also have "\<dots> = unat (id_at (Suc k) :: 'w word)"
    by (simp add: unat_id_at mod_simps)
  finally show ?thesis by (simp add: word_unat_eq_iff)
qed

lemma NextIDs_from:
  "NextIDs n \<lparr>next_id = id_at k :: 'w::len word\<rparr> = map id_at [k..<k + n]"
proof (induction n arbitrary: k)
  case (Suc n)
  have "NextIDs (Suc n) \<lparr>next_id = id_at k :: 'w word\<rparr> =
      id_at k # NextIDs n \<lparr>next_id = id_at (Suc k)\<rparr>"
    by (simp add: NextID_def NextCounterID_id_at)
  also have "\<dots> = id_at k # map id_at [Suc k..<Suc k + n]"
    using Suc.IH [of "Suc k"] by simp
  also have "\<dots> = map id_at [k..<k + Suc n]" by (simp add: upt_conv_Cons del: upt_Suc)
  finally show ?case .
qed simp

text \<open>
  C9. The identifiers of a new counter are, in order, 1, 2, ..., \<open>2^w - 1\<close>, 1, 2, ...: the
  k-th call returns \<open>k mod (2^w - 1) + 1\<close>. The wrap-around skips zero, which MQTT reserves.
\<close>

theorem NextIDs_NewCounter:
  "NextIDs n (NewCounter :: 'w::len word Counter) =
     map (\<lambda>k. of_nat (k mod (2 ^ LENGTH('w) - 1) + 1)) [0..<n]"
proof -
  have "(NewCounter :: 'w word Counter) = \<lparr>next_id = id_at 0\<rparr>"
    by (simp add: NewCounter_def NewCounterWithNext_def id_at_def)
  then have "NextIDs n (NewCounter :: 'w word Counter) = map id_at [0..<n]"
    using NextIDs_from [of n 0, where 'w='w] by simp
  moreover have "(id_at :: nat \<Rightarrow> 'w word) = (\<lambda>k. of_nat (k mod (2 ^ LENGTH('w) - 1) + 1))"
    by (rule ext) (simp only: id_at_def)
  ultimately show ?thesis by (simp only:)
qed

lemma id_at_inj_on:
  assumes "n \<le> id_period TYPE('w::len)"
  shows "inj_on (id_at :: nat \<Rightarrow> 'w word) {k..<k + n}"
proof (rule linorder_inj_onI')
  fix i j assume ij: "i \<in> {k..<k + n}" "j \<in> {k..<k + n}" "i < j"
  show "(id_at i :: 'w word) \<noteq> id_at j"
  proof
    assume "(id_at i :: 'w word) = id_at j"
    then have "i mod id_period TYPE('w) = j mod id_period TYPE('w)"
      using unat_id_at [of i, where 'w='w] unat_id_at [of j, where 'w='w] by simp
    then have "id_period TYPE('w) dvd j - i"
      using ij(3) mod_eq_dvd_iff_nat [of i j] by (metis less_imp_le)
    then have "id_period TYPE('w) \<le> j - i" using ij(3) by (simp add: dvd_imp_le)
    with ij assms show False by auto
  qed
qed

text \<open>
  Identifiers are not reused early: any \<open>2^w - 1\<close> calls in a row (so 65535 for 16-bit
  identifiers) return pairwise distinct, non-zero identifiers, whatever the counter's state
  after a first call.
\<close>

theorem NextIDs_distinct:
  fixes c :: "'w::len word Counter"
  assumes "next_id c \<noteq> 0" and "n \<le> 2 ^ LENGTH('w) - 1"
  shows "distinct (NextIDs n c) \<and> 0 \<notin> set (NextIDs n c)"
proof -
  obtain k where k: "unat (next_id c) = Suc k" "k < id_period TYPE('w)"
    using assms(1) unat_le_period [of "next_id c"]
    by (cases "unat (next_id c)") (auto simp: unat_eq_zero)
  then have "next_id c = id_at k"
    by (simp add: word_unat_eq_iff unat_id_at)
  then have c: "c = \<lparr>next_id = id_at k\<rparr>" by simp
  have "inj_on (id_at :: nat \<Rightarrow> 'w word) {k..<k + n}"
    by (rule id_at_inj_on) (use assms(2) in simp)
  then have "distinct (map (id_at :: nat \<Rightarrow> 'w word) [k..<k + n])"
    by (simp add: distinct_map)
  moreover have "0 \<notin> set (map (id_at :: nat \<Rightarrow> 'w word) [k..<k + n])"
    by (auto dest: sym simp: id_at_nonzero)
  ultimately show ?thesis unfolding c NextIDs_from by (rule conjI)
qed

theorem NextIDs_distinct_witness:
  "distinct (NextIDs 3 (NewCounterWithNext 6 :: 3 word Counter)) \<and>
   NextIDs 3 (NewCounterWithNext 6 :: 3 word Counter) = [6, 7, 1]"
proof -
  have "next_id (NewCounterWithNext 6 :: 3 word Counter) \<noteq> 0" "(3::nat) \<le> 2 ^ LENGTH(3) - 1"
    by (simp_all add: NewCounterWithNext_def)
  from NextIDs_distinct [OF this] have "distinct (NextIDs 3 (NewCounterWithNext 6 :: 3 word Counter))"
    by (rule conjunct1)
  moreover have "NextIDs 3 (NewCounterWithNext 6 :: 3 word Counter) = [6, 7, 1]" by code_simp
  ultimately show ?thesis by blast
qed

end
