(* ===== verification/Utils_Cert.thy ===== *)
theory Utils_Cert
  imports Baetyl_Prelude
begin

text \<open>
  The certificate configuration shared by the MQTT and HTTP clients: \<^verbatim>\<open>utils/cert.go\<close>. Loading
  the files is the work of the package \<^verbatim>\<open>tlsconfig\<close>, a parameter of the two constructors.
\<close>

record Certificate =
  CA :: string
  Key :: string
  Cert :: string
  CertName :: string
  InsecureSkipVerify :: bool
  ClientAuthType :: int

record tls_options =
  CAFile :: string
  KeyFile :: string
  CertFile :: string
  optSkipVerify :: bool
  optClientAuth :: int

definition NewTLSConfigServer ::
  "(tls_options \<Rightarrow> (string, 'tls) result) \<Rightarrow> Certificate \<Rightarrow> (string, 'tls) result" where
  "NewTLSConfigServer tlsconfig_Server c =
     tlsconfig_Server \<lparr>CAFile = CA c, KeyFile = Key c, CertFile = Cert c, optSkipVerify = False,
       optClientAuth = ClientAuthType c\<rparr>"

definition NewTLSConfigClient ::
  "(tls_options \<Rightarrow> (string, 'tls) result) \<Rightarrow> Certificate \<Rightarrow> (string, 'tls) result" where
  "NewTLSConfigClient tlsconfig_Client c =
     tlsconfig_Client \<lparr>CAFile = CA c, KeyFile = Key c, CertFile = Cert c,
       optSkipVerify = InsecureSkipVerify c, optClientAuth = 0\<rparr>"

text \<open>
  Neither constructor reads the server name: two configurations that differ only there give
  the same TLS configuration.
\<close>

lemma NewTLSConfig_ignores_name:
  "NewTLSConfigClient f (c\<lparr>CertName := n\<rparr>) = NewTLSConfigClient f c"
  "NewTLSConfigServer f (c\<lparr>CertName := n\<rparr>) = NewTLSConfigServer f c"
  by (simp_all add: NewTLSConfigClient_def NewTLSConfigServer_def)

end
