(* ===== verification/Mqtt_Client.thy ===== *)
theory Mqtt_Client
  imports Mqtt_Counter Utils_Cert
begin

text \<open>
  The reconnecting MQTT client: \<^verbatim>\<open>mqtt/client.go\<close>, \<^verbatim>\<open>mqtt/stream.go\<close>, \<^verbatim>\<open>mqtt/observer.go\<close>,
  \<^verbatim>\<open>mqtt/options.go\<close> and \<^verbatim>\<open>MatchTopicQOS\<close> of \<^verbatim>\<open>mqtt/gomqtt.go\<close>.

  A \<open>Client\<close> owns a bounded channel of packets and one goroutine, \<open>connecting\<close>, which opens a
  \<open>stream\<close>, drains the channel into it until the stream or the client dies, closes the stream
  and starts over with the packet that failed, if any. A stream has two goroutines of its own,
  \<open>receiving\<close> and \<open>pinging\<close>. The goroutines are modelled at the grain of one blocking operation:
  a step is one iteration of a loop, and a run is a list of events that says which goroutine
  moves and how the environment answers. The connection, the dialer, the keep-alive tracker
  and the user's observer belong to other packages or to the user: what they answer
  is part of the event or an argument.
\<close>

section \<open>Packets and options\<close>

type_synonym ID = "16 word"
type_synonym QOS = "8 word"

definition QOSFailure :: QOS where "QOSFailure = 0x80"

definition ConnectionAccepted :: "8 word" where "ConnectionAccepted = 0"

record Message =
  Topic :: string
  Payload :: string
  MQOS :: QOS
  Retain :: bool

record Subscription =
  sub_topic :: string
  sub_qos :: QOS

record ConnectPacket =
  con_ClientID :: string
  con_KeepAlive :: "16 word"
  con_Username :: string
  con_Password :: string
  con_CleanSession :: bool
  con_Version :: "8 word"

datatype Packet =
    Connect ConnectPacket
  | Connack "8 word"
  | Publish (pub_ID: ID) (pub_Dup: bool) (pub_Message: Message)
  | Puback ID
  | Subscribe ID "Subscription list"
  | Suback ID "QOS list"
  | Pingreq
  | Pingresp
  | Disconnect
  | OtherPacket nat

definition NewConnect :: ConnectPacket where
  "NewConnect = \<lparr>con_ClientID = [], con_KeepAlive = 0, con_Username = [], con_Password = [],
     con_CleanSession = True, con_Version = 4\<rparr>"

text \<open>Durations are nanoseconds, as \<^verbatim>\<open>time.Duration\<close> has them.\<close>

definition second :: int where "second = 1000000000"
definition minute :: int where "minute = 60 * second"

record 'tls ClientOptions =
  Address :: string
  Username :: string
  Password :: string
  TLSConfig :: "'tls option"
  ClientID :: string
  CleanSession :: bool
  Timeout :: int
  KeepAlive :: int
  MaxReconnectInterval :: int
  MaxMessageSize :: int
  MaxCacheMessages :: int
  Subscriptions :: "Subscription list"
  DisableAutoAck :: bool

definition NewClientOptions :: "'tls ClientOptions" where
  "NewClientOptions = \<lparr>Address = [], Username = [], Password = [], TLSConfig = None, ClientID = [],
     CleanSession = False, Timeout = 30 * second, KeepAlive = 3 * minute,
     MaxReconnectInterval = 3 * minute, MaxMessageSize = 4 * 1024 * 1024, MaxCacheMessages = 10,
     Subscriptions = [], DisableAutoAck = False\<rparr>"

record QOSTopic =
  qt_qos :: "32 word"
  qt_topic :: string

record ClientConfig =
  cc_Address :: string
  cc_Username :: string
  cc_Password :: string
  cc_ClientID :: string
  cc_CleanSession :: bool
  cc_Timeout :: int
  cc_KeepAlive :: int
  cc_MaxReconnectInterval :: int
  cc_MaxCacheMessages :: int
  cc_DisableAutoAck :: bool
  cc_Subscriptions :: "QOSTopic list"
  cc_Certificate :: Certificate

definition ToClientOptions ::
  "(tls_options \<Rightarrow> (string, 'tls) result) \<Rightarrow> ClientConfig \<Rightarrow> (string, 'tls ClientOptions) result" where
  "ToClientOptions tlsconfig_Client cc =
     (let ops = \<lparr>Address = cc_Address cc, Username = cc_Username cc, Password = cc_Password cc,
            TLSConfig = None, ClientID = cc_ClientID cc, CleanSession = cc_CleanSession cc,
            Timeout = cc_Timeout cc, KeepAlive = cc_KeepAlive cc,
            MaxReconnectInterval = cc_MaxReconnectInterval cc, MaxMessageSize = 0,
            MaxCacheMessages = cc_MaxCacheMessages cc, Subscriptions = [],
            DisableAutoAck = cc_DisableAutoAck cc\<rparr>;
          subs = map (\<lambda>t. \<lparr>sub_topic = qt_topic t, sub_qos = ucast (qt_qos t)\<rparr>) (cc_Subscriptions cc)
      in if Key (cc_Certificate cc) \<noteq> [] \<or> Cert (cc_Certificate cc) \<noteq> []
         then rbind (NewTLSConfigClient tlsconfig_Client (cc_Certificate cc))
                (\<lambda>tls. Inr (ops\<lparr>TLSConfig := Some tls, Subscriptions := subs\<rparr>))
         else Inr (ops\<lparr>Subscriptions := subs\<rparr>))"

section \<open>Observers\<close>

text \<open>
  Errors of the MQTT layer, the ones \<^verbatim>\<open>mqtt/gomqtt.go\<close> re-exports and those of the connection,
  the observer and the broker's return code.
\<close>

datatype mqtt_error =
    ErrClientAlreadyClosed | ErrClientAlreadyConnecting | ErrClientMissingPong
  | ErrClientExpectedConnack | ErrClientSubscriptionFailed | ErrFutureTimeout | ErrFutureCanceled
  | ConnackRefused "8 word" | PacketNotSupported Packet | ConnError string | UserError string

record Observer =
  OnPublish :: "Packet \<Rightarrow> mqtt_error option"
  OnPuback :: "Packet \<Rightarrow> mqtt_error option"

text \<open>The wrapper's three optional callbacks; \<open>OnError\<close> has no result, so only its presence counts.\<close>

record ObserverWrapper =
  wr_onPublish :: "(Packet \<Rightarrow> mqtt_error option) option"
  wr_onPuback :: "(Packet \<Rightarrow> mqtt_error option) option"

definition ObserverWrapper_OnPublish :: "ObserverWrapper \<Rightarrow> Packet \<Rightarrow> mqtt_error option" where
  "ObserverWrapper_OnPublish h pkt = (case wr_onPublish h of None \<Rightarrow> None | Some f \<Rightarrow> f pkt)"

definition ObserverWrapper_OnPuback :: "ObserverWrapper \<Rightarrow> Packet \<Rightarrow> mqtt_error option" where
  "ObserverWrapper_OnPuback h pkt = (case wr_onPuback h of None \<Rightarrow> None | Some f \<Rightarrow> f pkt)"

definition wrapped :: "ObserverWrapper \<Rightarrow> Observer" where
  "wrapped h = \<lparr>OnPublish = ObserverWrapper_OnPublish h, OnPuback = ObserverWrapper_OnPuback h\<rparr>"

section \<open>The stream\<close>

definition subscribeId :: ID where "subscribeId = 1"

datatype future = Pending | Completed | Canceled

fun Complete :: "future \<Rightarrow> future" where
  "Complete Pending = Completed"
| "Complete f = f"

fun Cancel :: "future \<Rightarrow> future" where
  "Cancel Pending = Canceled"
| "Cancel f = f"

fun future_Wait :: "future \<Rightarrow> mqtt_error option" where
  "future_Wait Pending = Some ErrFutureTimeout"
| "future_Wait Completed = None"
| "future_Wait Canceled = Some ErrFutureCanceled"

datatype tracker_op = TReset | TPing | TPong

datatype observer_call = CallPublish Packet | CallPuback Packet | CallError mqtt_error

text \<open>
  \<^verbatim>\<open>sync.Once\<close>: the first call of \<open>Do\<close> runs the function, later ones wait for it and do nothing.
  A call from within the function waits for itself; \<open>None\<close> is that deadlock.
\<close>

datatype once = OnceFresh | OnceRunning | OnceDone

text \<open>
  The stream's state, with what it has done to its surroundings: the packets the connection
  took (\<open>wire\<close>), the calls of the observer, the calls of the tracker. \<open>tombReason\<close> is
  \<open>Some r\<close> once the stream's tomb was killed, with the error \<open>r\<close> if there was one.
\<close>

record stream =
  connectFuture :: future
  subscribeFuture :: future
  connacked :: bool
  once :: once
  tombReason :: "mqtt_error option option"
  connClosed :: bool
  wire :: "Packet list"
  calls :: "observer_call list"
  tracker :: "tracker_op list"

definition new_stream :: "Packet list \<Rightarrow> stream" where
  "new_stream w = \<lparr>connectFuture = Pending, subscribeFuture = Pending, connacked = False,
     once = OnceFresh, tombReason = None, connClosed = False, wire = w, calls = [], tracker = []\<rparr>"

definition once_Do :: "(stream \<Rightarrow> stream option) \<Rightarrow> stream \<Rightarrow> stream option" where
  "once_Do f s =
     (case once s of
        OnceFresh \<Rightarrow> map_option (\<lambda>s'. s'\<lparr>once := OnceDone\<rparr>) (f (s\<lparr>once := OnceRunning\<rparr>))
      | OnceRunning \<Rightarrow> None
      | OnceDone \<Rightarrow> Some s)"

definition onError :: "Observer option \<Rightarrow> mqtt_error \<Rightarrow> stream \<Rightarrow> stream" where
  "onError obs err s = (if obs = None then s else s\<lparr>calls := calls s @ [CallError err]\<rparr>)"

text \<open>
  \<^verbatim>\<open>stream.send\<close>, with the connection's answer as argument and \<^verbatim>\<open>die\<close> as a parameter, since the
  two call each other: \<^verbatim>\<open>die\<close> sends a disconnect packet from inside \<^verbatim>\<open>once.Do\<close>, and when that
  fails \<^verbatim>\<open>send\<close> calls \<^verbatim>\<open>die\<close>, which then enters \<^verbatim>\<open>once.Do\<close> again.
\<close>

definition send_core ::
  "(mqtt_error \<Rightarrow> stream \<Rightarrow> stream option) \<Rightarrow> Packet \<Rightarrow> mqtt_error option \<Rightarrow> stream \<Rightarrow>
     (mqtt_error option \<times> stream) option" where
  "send_core die_k pkt connErr s =
     (let s = s\<lparr>tracker := tracker s @ [TReset]\<rparr> in
      case connErr of
        None \<Rightarrow> Some (None, s\<lparr>wire := wire s @ [pkt]\<rparr>)
      | Some e \<Rightarrow> map_option (\<lambda>s'. (Some e, s')) (die_k e s))"

text \<open>\<open>discErr\<close> is the connection's answer to the disconnect packet, used only when \<open>err\<close> is nil.\<close>

definition die ::
  "Observer option \<Rightarrow> mqtt_error option \<Rightarrow> mqtt_error option \<Rightarrow> stream \<Rightarrow> stream option" where
  "die obs discErr err s = once_Do (\<lambda>s.
     let s = s\<lparr>connectFuture := Cancel (connectFuture s), subscribeFuture := Cancel (subscribeFuture s)\<rparr>;
         r = (case err of
                Some e \<Rightarrow> Some (onError obs e s)
              | None \<Rightarrow> map_option snd (send_core (\<lambda>e. once_Do Some) Disconnect discErr s))
     in map_option (\<lambda>s. s\<lparr>tombReason := (if tombReason s = None then Some err else tombReason s),
                          connClosed := True\<rparr>) r) s"

definition stream_send ::
  "Observer option \<Rightarrow> Packet \<Rightarrow> mqtt_error option \<Rightarrow> stream \<Rightarrow> (mqtt_error option \<times> stream) option" where
  "stream_send obs = send_core (\<lambda>e. die obs None (Some e))"

definition stream_close :: "Observer option \<Rightarrow> mqtt_error option \<Rightarrow> stream \<Rightarrow> stream option" where
  "stream_close obs discErr s = die obs discErr None s"

definition onConnack :: "Packet \<Rightarrow> mqtt_error option" where
  "onConnack pkt =
     (case pkt of
        Connack code \<Rightarrow> (if code \<noteq> ConnectionAccepted then Some (ConnackRefused code) else None)
      | _ \<Rightarrow> Some ErrClientExpectedConnack)"

definition onPublish :: "Observer option \<Rightarrow> Packet \<Rightarrow> stream \<Rightarrow> mqtt_error option \<times> stream" where
  "onPublish obs pkt s =
     (case obs of None \<Rightarrow> (None, s)
      | Some ob \<Rightarrow> (OnPublish ob pkt, s\<lparr>calls := calls s @ [CallPublish pkt]\<rparr>))"

definition onPuback :: "Observer option \<Rightarrow> Packet \<Rightarrow> stream \<Rightarrow> mqtt_error option \<times> stream" where
  "onPuback obs pkt s =
     (case obs of None \<Rightarrow> (None, s)
      | Some ob \<Rightarrow> (OnPuback ob pkt, s\<lparr>calls := calls s @ [CallPuback pkt]\<rparr>))"

definition onSuback :: "ID \<Rightarrow> QOS list \<Rightarrow> stream \<Rightarrow> mqtt_error option \<times> stream" where
  "onSuback pid codes s =
     (if pid \<noteq> subscribeId then (None, s)
      else if QOSFailure \<in> set codes then (Some ErrClientSubscriptionFailed, s)
      else (None, s\<lparr>subscribeFuture := Complete (subscribeFuture s)\<rparr>))"

text \<open>
  One iteration of \<^verbatim>\<open>receiving\<close>: \<open>Inl e\<close> when \<^verbatim>\<open>conn.Receive\<close> failed; \<open>ackErr\<close> is the connection's
  answer should the iteration send an acknowledgement. The boolean says whether the loop goes on.
\<close>

definition stop_with ::
  "Observer option \<Rightarrow> mqtt_error \<Rightarrow> stream \<Rightarrow> (bool \<times> stream) option" where
  "stop_with obs e s = map_option (\<lambda>s'. (False, s')) (die obs None (Some e) s)"

definition receiving_step ::
  "bool \<Rightarrow> Observer option \<Rightarrow> mqtt_error option \<Rightarrow> (mqtt_error, Packet) result \<Rightarrow> stream \<Rightarrow>
     (bool \<times> stream) option" where
  "receiving_step disableAutoAck obs ackErr input s =
     (case input of
        Inl e \<Rightarrow> stop_with obs e s
      | Inr pkt \<Rightarrow>
          if \<not> connacked s then
            (let s = s\<lparr>connacked := True\<rparr> in
             case onConnack pkt of
               Some e \<Rightarrow> stop_with obs e s
             | None \<Rightarrow> Some (True, s\<lparr>connectFuture := Complete (connectFuture s)\<rparr>))
          else
            (let handled =
               (case pkt of
                  Publish pid dup msg \<Rightarrow>
                    (let (uerr, s) = onPublish obs pkt s in
                     if uerr \<noteq> None then Some (None, s)
                     else if \<not> disableAutoAck \<and> MQOS msg = 1 then stream_send obs (Puback pid) ackErr s
                     else Some (None, s))
                | Puback pid \<Rightarrow> Some (onPuback obs pkt s)
                | Suback pid codes \<Rightarrow> Some (onSuback pid codes s)
                | Pingresp \<Rightarrow> Some (None, s\<lparr>tracker := tracker s @ [TPong]\<rparr>)
                | Connack _ \<Rightarrow> Some (Some ErrClientAlreadyConnecting, s)
                | _ \<Rightarrow> Some (Some (PacketNotSupported pkt), s))
             in case handled of
                  None \<Rightarrow> None
                | Some (Some e, s) \<Rightarrow> stop_with obs e s
                | Some (None, s) \<Rightarrow> Some (True, s)))"

text \<open>
  \<^verbatim>\<open>receiving\<close> on a sequence of inputs, each with the connection's answer to a possible
  acknowledgement; it stops at the first iteration that returns.
\<close>

fun receiving ::
  "bool \<Rightarrow> Observer option \<Rightarrow> (mqtt_error option \<times> (mqtt_error, Packet) result) list \<Rightarrow> stream \<Rightarrow>
     (bool \<times> stream) option" where
  "receiving d obs [] s = Some (True, s)"
| "receiving d obs ((ackErr, x) # xs) s =
     (case receiving_step d obs ackErr x s of
        None \<Rightarrow> None
      | Some (True, s') \<Rightarrow> receiving d obs xs s'
      | Some (False, s') \<Rightarrow> Some (False, s'))"

text \<open>
  One iteration of \<^verbatim>\<open>pinging\<close>: whether the tracker's window has passed and a ping is still
  pending, and the connection's answer to the ping.
\<close>

definition pinging_step ::
  "Observer option \<Rightarrow> bool \<Rightarrow> bool \<Rightarrow> mqtt_error option \<Rightarrow> stream \<Rightarrow> (bool \<times> stream) option" where
  "pinging_step obs windowPassed pending pingErr s =
     (if windowPassed then
        (if pending then stop_with obs ErrClientMissingPong s
         else
           (let s = s\<lparr>tracker := tracker s @ [TPing]\<rparr> in
            case stream_send obs Pingreq pingErr s of
              None \<Rightarrow> None
            | Some (Some e, s) \<Rightarrow> Some (False, s)
            | Some (None, s) \<Rightarrow> Some (tombReason s = None, s)))
      else Some (tombReason s = None, s))"

section \<open>The client\<close>

record 'tls Client =
  ops :: "'tls ClientOptions"
  ids :: "ID Counter"
  cache :: "Packet chan"
  dying :: bool
  callback :: bool

text \<open>\<open>None\<close>: \<^verbatim>\<open>make\<close> panics on a negative capacity.\<close>

definition NewClient :: "'tls ClientOptions \<Rightarrow> 'tls Client option" where
  "NewClient o' =
     (if MaxCacheMessages o' < 0 then None
      else Some \<lparr>ops = o', ids = NewCounter, cache = make_chan (nat (MaxCacheMessages o')),
                 dying = False, callback = False\<rparr>)"

definition SetReconnectCallback :: "'tls Client \<Rightarrow> 'tls Client" where
  "SetReconnectCallback c = c\<lparr>callback := True\<rparr>"

definition ResetClient :: "'tls ClientOptions \<Rightarrow> 'tls Client \<Rightarrow> 'tls Client" where
  "ResetClient o' c = c\<lparr>ops := (ops c)\<lparr>ClientID := ClientID o', Username := Username o',
     Password := Password o'\<rparr>\<rparr>"

text \<open>
  The two \<^verbatim>\<open>select\<close> statements. When several cases are ready Go picks any: \<open>pick\<close> says whether
  the one of the dying tomb is taken. A result \<open>None\<close> of \<open>Client_Send\<close> is a blocked caller.
  The result's second component is the error, the third the new state.
\<close>

definition Client_Send ::
  "bool \<Rightarrow> Packet \<Rightarrow> 'tls Client \<Rightarrow> (mqtt_error option \<times> 'tls Client) option" where
  "Client_Send pick pkt c =
     (if dying c \<and> (pick \<or> chan_full (cache c)) then Some (Some ErrClientAlreadyClosed, c)
      else map_option (\<lambda>ch. (None, c\<lparr>cache := ch\<rparr>)) (chan_send (cache c) pkt))"

definition SendOrDrop :: "bool \<Rightarrow> Packet \<Rightarrow> 'tls Client \<Rightarrow> mqtt_error option \<times> 'tls Client" where
  "SendOrDrop pick pkt c =
     (case Client_Send pick pkt c of Some r \<Rightarrow> r | None \<Rightarrow> (None, c))"

text \<open>The packet \<^verbatim>\<open>Publish\<close> builds, and the client with the counter it leaves.\<close>

definition publish_packet ::
  "QOS \<Rightarrow> string \<Rightarrow> string \<Rightarrow> ID \<Rightarrow> bool \<Rightarrow> bool \<Rightarrow> 'tls Client \<Rightarrow> Packet \<times> 'tls Client" where
  "publish_packet qos topic payload pid retain dup c =
     (let msg = \<lparr>Topic = topic, Payload = payload, MQOS = qos, Retain = retain\<rparr> in
      if qos \<noteq> 0 \<and> pid = 0 then
        (let (nid, cnt) = NextID (ids c) in (Publish nid dup msg, c\<lparr>ids := cnt\<rparr>))
      else (Publish pid dup msg, c))"

definition Client_Publish ::
  "bool \<Rightarrow> QOS \<Rightarrow> string \<Rightarrow> string \<Rightarrow> ID \<Rightarrow> bool \<Rightarrow> bool \<Rightarrow> 'tls Client \<Rightarrow>
     (mqtt_error option \<times> 'tls Client) option" where
  "Client_Publish pick qos topic payload pid retain dup c =
     (let (pkt, c') = publish_packet qos topic payload pid retain dup c in Client_Send pick pkt c')"

definition Client_Kill :: "'tls Client \<Rightarrow> 'tls Client" where
  "Client_Kill c = c\<lparr>dying := True\<rparr>"

section \<open>Connecting\<close>

text \<open>
  \<^verbatim>\<open>uint16(math.Ceil(d.Seconds()))\<close>, for the durations whose ceiling fits sixteen bits (Go leaves
  the conversion of a larger float unspecified).
\<close>

definition ceil_seconds :: "int \<Rightarrow> 16 word" where
  "ceil_seconds ns = of_int (- ((- ns) div second))"

definition connect_packet :: "'tls ClientOptions \<Rightarrow> Packet" where
  "connect_packet o' = Connect (NewConnect\<lparr>con_ClientID := ClientID o',
     con_KeepAlive := ceil_seconds (KeepAlive o'), con_CleanSession := CleanSession o',
     con_Username := Username o', con_Password := Password o'\<rparr>)"

text \<open>
  What happens around one call of \<^verbatim>\<open>connect\<close>: the answers of the dialer and of the connection
  to the two packets it sends itself, and what the receiving goroutine gets while \<^verbatim>\<open>connect\<close>
  waits for the first and for the second future. A future still pending at the end of the
  wait has timed out.
\<close>

record connect_env =
  dialErr :: "mqtt_error option"
  connectErr :: "mqtt_error option"
  upToConnack :: "(mqtt_error option \<times> (mqtt_error, Packet) result) list"
  subscribeErr :: "mqtt_error option"
  upToSuback :: "(mqtt_error option \<times> (mqtt_error, Packet) result) list"

text \<open>
  \<open>None\<close> would be a deadlock in \<^verbatim>\<open>die\<close>. The pair's first component is the error returned, the
  second the stream and whether its receiving goroutine still runs; after an error the caller
  gets no stream.
\<close>

definition failed :: "mqtt_error \<Rightarrow> (mqtt_error, 'a) result option" where
  "failed e = Some (Inl e)"

definition await ::
  "Observer option \<Rightarrow> future \<Rightarrow> stream \<Rightarrow> (mqtt_error, stream) result option" where
  "await obs f s =
     (case future_Wait f of
        None \<Rightarrow> Some (Inr s)
      | Some e \<Rightarrow> (case die obs None (Some e) s of None \<Rightarrow> None | Some _ \<Rightarrow> failed e))"

text \<open>The receiving goroutine goes on with \<open>xs\<close> if it is still running.\<close>

definition receive_on ::
  "bool \<Rightarrow> Observer option \<Rightarrow> (mqtt_error option \<times> (mqtt_error, Packet) result) list \<Rightarrow>
     bool \<times> stream \<Rightarrow> (bool \<times> stream) option" where
  "receive_on d obs xs rs = (if fst rs then receiving d obs xs (snd rs) else Some rs)"

definition connect ::
  "Observer option \<Rightarrow> 'tls ClientOptions \<Rightarrow> connect_env \<Rightarrow> (mqtt_error, bool \<times> stream) result option" where
  "connect obs o' env =
     (case dialErr env of
        Some e \<Rightarrow> failed e
      | None \<Rightarrow>
     (case connectErr env of
        Some e \<Rightarrow> failed e
      | None \<Rightarrow>
     (case receiving (DisableAutoAck o') obs (upToConnack env) (new_stream [connect_packet o']) of
        None \<Rightarrow> None
      | Some (alive, s) \<Rightarrow>
     (case await obs (connectFuture s) s of
        None \<Rightarrow> None
      | Some (Inl e) \<Rightarrow> failed e
      | Some (Inr s) \<Rightarrow>
     (if Subscriptions o' = [] then Some (Inr (alive, s))
      else
     (case subscribeErr env of
        Some e \<Rightarrow> failed e
      | None \<Rightarrow>
     (case receive_on (DisableAutoAck o') obs (upToSuback env)
             (alive, s\<lparr>wire := wire s @ [Subscribe subscribeId (Subscriptions o')]\<rparr>) of
        None \<Rightarrow> None
      | Some (alive, s) \<Rightarrow>
     (case await obs (subscribeFuture s) s of
        None \<Rightarrow> None
      | Some (Inl e) \<Rightarrow> failed e
      | Some (Inr s) \<Rightarrow> Some (Inr (alive, s))))))))))"

section \<open>The goroutines together\<close>

text \<open>
  Where the connecting goroutine stands: at the top of its loop, in the \<^verbatim>\<open>select\<close> on the timer, at
  the start of \<^verbatim>\<open>sending\<close> with the packet kept from the last stream, in the loop of \<^verbatim>\<open>sending\<close>,
  returned, or blocked for ever inside \<^verbatim>\<open>once.Do\<close>.
\<close>

datatype loop_pc = LoopTop | Selecting | SendingCurr | SendingLoop | Stopped | Hung

text \<open>
  \<open>attempted\<close> is \<^verbatim>\<open>!next.IsZero()\<close>. Two histories are kept beside the state: \<open>accepted\<close>, the packets the
  callers of \<^verbatim>\<open>Send\<close> got onto the channel, and \<open>handed\<close>, those \<^verbatim>\<open>sending\<close> gave to a connection
  that took them, over all streams.
\<close>

record 'tls sys =
  cli :: "'tls Client"
  pc :: loop_pc
  attempted :: bool
  curr :: "Packet option"
  strm :: "stream option"
  recvAlive :: bool
  pingAlive :: bool
  reconnects :: nat
  accepted :: "Packet list"
  handed :: "Packet list"

definition start_sys :: "'tls Client \<Rightarrow> 'tls sys" where
  "start_sys c = \<lparr>cli = c, pc = LoopTop, attempted = False, curr = None, strm = None,
     recvAlive = False, pingAlive = False, reconnects = 0, accepted = [], handed = []\<rparr>"

datatype client_event =
    EvSend bool Packet
  | EvSendOrDrop bool Packet
  | EvPublish bool QOS string string ID bool bool
  | EvKill
  | EvTop "mqtt_error option"
  | EvStop
  | EvConnect connect_env
  | EvSendCurr "mqtt_error option"
  | EvSendCache "mqtt_error option"
  | EvClientDying
  | EvStreamDying
  | EvReceive "mqtt_error option" "(mqtt_error, Packet) result"
  | EvPing bool bool "mqtt_error option"

text \<open>A caller's send: the packet is on the channel exactly when the buffer grew.\<close>

definition after_send ::
  "Packet \<Rightarrow> 'tls sys \<Rightarrow> (mqtt_error option \<times> 'tls Client) option \<Rightarrow> 'tls sys option" where
  "after_send pkt y r =
     map_option (\<lambda>(e, c). y\<lparr>cli := c, accepted := accepted y @
        (if chan_buf (cache c) = chan_buf (cache (cli y)) then [] else [pkt])\<rparr>) r"

text \<open>The top of the loop of \<^verbatim>\<open>connecting\<close>: the callback, then the old stream is closed.\<close>

definition loop_top :: "Observer option \<Rightarrow> mqtt_error option \<Rightarrow> 'tls sys \<Rightarrow> 'tls sys" where
  "loop_top obs discErr y =
     (let y = (if attempted y \<and> callback (cli y) then y\<lparr>reconnects := Suc (reconnects y)\<rparr> else y) in
      case strm y of
        None \<Rightarrow> y\<lparr>pc := Selecting\<rparr>
      | Some st \<Rightarrow>
          (case stream_close obs discErr st of
             None \<Rightarrow> y\<lparr>pc := Hung\<rparr>
           | Some _ \<Rightarrow> y\<lparr>pc := Selecting, strm := None, recvAlive := False, pingAlive := False\<rparr>))"

definition loop_connect :: "Observer option \<Rightarrow> connect_env \<Rightarrow> 'tls sys \<Rightarrow> 'tls sys" where
  "loop_connect obs env y =
     (let y = y\<lparr>attempted := True\<rparr> in
      case connect obs (ops (cli y)) env of
        None \<Rightarrow> y\<lparr>pc := Hung\<rparr>
      | Some (Inl e) \<Rightarrow> y\<lparr>pc := LoopTop, strm := None\<rparr>
      | Some (Inr (alive, st)) \<Rightarrow>
          y\<lparr>pc := SendingCurr, strm := Some st, recvAlive := alive, pingAlive := (0 < KeepAlive (ops (cli y)))\<rparr>)"

text \<open>
  The two places where \<^verbatim>\<open>sending\<close> gives a packet to the stream: on failure it returns the packet,
  which becomes \<open>curr\<close>; on success it goes on with its loop.
\<close>

definition sending_packet ::
  "Observer option \<Rightarrow> Packet \<Rightarrow> mqtt_error option \<Rightarrow> stream \<Rightarrow> 'tls sys \<Rightarrow> 'tls sys" where
  "sending_packet obs pkt connErr st y =
     (case stream_send obs pkt connErr st of
        None \<Rightarrow> y\<lparr>pc := Hung, curr := Some pkt\<rparr>
      | Some (Some e, st') \<Rightarrow> y\<lparr>pc := LoopTop, curr := Some pkt, strm := Some st'\<rparr>
      | Some (None, st') \<Rightarrow> y\<lparr>pc := SendingLoop, curr := None, strm := Some st', handed := handed y @ [pkt]\<rparr>)"

definition stream_side :: "(bool \<times> stream) option \<Rightarrow> 'tls sys \<Rightarrow> (bool \<Rightarrow> 'tls sys \<Rightarrow> 'tls sys) \<Rightarrow> 'tls sys" where
  "stream_side r y upd =
     (case r of None \<Rightarrow> upd False y | Some (b, st) \<Rightarrow> upd b (y\<lparr>strm := Some st\<rparr>))"

fun client_step :: "Observer option \<Rightarrow> 'tls sys \<Rightarrow> client_event \<Rightarrow> 'tls sys option" where
  "client_step obs y (EvSend pick pkt) = after_send pkt y (Client_Send pick pkt (cli y))"
| "client_step obs y (EvSendOrDrop pick pkt) = after_send pkt y (Some (SendOrDrop pick pkt (cli y)))"
| "client_step obs y (EvPublish pick qos topic payload pid retain dup) =
     after_send (fst (publish_packet qos topic payload pid retain dup (cli y))) y
       (Client_Publish pick qos topic payload pid retain dup (cli y))"
| "client_step obs y EvKill = Some (y\<lparr>cli := Client_Kill (cli y)\<rparr>)"
| "client_step obs y (EvTop discErr) = (if pc y = LoopTop then Some (loop_top obs discErr y) else None)"
| "client_step obs y EvStop =
     (if pc y = Selecting \<and> dying (cli y) then Some (y\<lparr>pc := Stopped\<rparr>) else None)"
| "client_step obs y (EvConnect env) = (if pc y = Selecting then Some (loop_connect obs env y) else None)"
| "client_step obs y (EvSendCurr connErr) =
     (case (pc y, strm y) of
        (SendingCurr, Some st) \<Rightarrow>
          (case curr y of
             None \<Rightarrow> Some (y\<lparr>pc := SendingLoop\<rparr>)
           | Some pkt \<Rightarrow> Some (sending_packet obs pkt connErr st y))
      | _ \<Rightarrow> None)"
| "client_step obs y (EvSendCache connErr) =
     (case (pc y, strm y, chan_recv (cache (cli y))) of
        (SendingLoop, Some st, Some (pkt, ch)) \<Rightarrow>
          Some (sending_packet obs pkt connErr st (y\<lparr>cli := (cli y)\<lparr>cache := ch\<rparr>\<rparr>))
      | _ \<Rightarrow> None)"
| "client_step obs y EvClientDying =
     (if pc y = SendingLoop \<and> dying (cli y) then Some (y\<lparr>pc := LoopTop, curr := None\<rparr>) else None)"
| "client_step obs y EvStreamDying =
     (case (pc y, strm y) of
        (SendingLoop, Some st) \<Rightarrow>
          (if tombReason st \<noteq> None then Some (y\<lparr>pc := LoopTop, curr := None\<rparr>) else None)
      | _ \<Rightarrow> None)"
| "client_step obs y (EvReceive ackErr x) =
     (case strm y of
        Some st \<Rightarrow>
          (if recvAlive y then
             Some (stream_side (receiving_step (DisableAutoAck (ops (cli y))) obs ackErr x st) y
                     (\<lambda>b y. y\<lparr>recvAlive := b\<rparr>))
           else None)
      | None \<Rightarrow> None)"
| "client_step obs y (EvPing windowPassed pending pingErr) =
     (case strm y of
        Some st \<Rightarrow>
          (if pingAlive y then
             Some (stream_side (pinging_step obs windowPassed pending pingErr st) y (\<lambda>b y. y\<lparr>pingAlive := b\<rparr>))
           else None)
      | None \<Rightarrow> None)"

fun client_run :: "Observer option \<Rightarrow> 'tls sys \<Rightarrow> client_event list \<Rightarrow> 'tls sys option" where
  "client_run obs y [] = Some y"
| "client_run obs y (e # es) =
     (case client_step obs y e of None \<Rightarrow> None | Some y' \<Rightarrow> client_run obs y' es)"

section \<open>Topic matching\<close>

text \<open>
  \<^verbatim>\<open>MatchTopicQOS\<close>, over the values the trie of the packet library returns for the topic. The
  loop stops at the first one below the current level.
\<close>

fun lowest_qos :: "32 word \<Rightarrow> QOS list \<Rightarrow> 32 word" where
  "lowest_qos qos [] = qos"
| "lowest_qos qos (s # ss) = (let us = ucast s in if us < qos then us else lowest_qos qos ss)"

definition MatchTopicQOS :: "(string \<Rightarrow> QOS list) \<Rightarrow> string \<Rightarrow> bool \<times> 32 word" where
  "MatchTopicQOS t_Match topic = (let ss = t_Match topic in (ss \<noteq> [], lowest_qos 1 ss))"

lemma unat_ucast_qos: "unat (ucast (q :: QOS) :: 32 word) = unat q"
proof -
  have "unat q < 2 ^ LENGTH(8)" by (rule unsigned_less)
  then have "unat q < 2 ^ 32" by simp
  then show ?thesis by (simp add: unsigned_ucast_eq take_bit_nat_eq_self)
qed

lemma ucast_qos_0: "(ucast (q :: QOS) :: 32 word) = 0 \<longleftrightarrow> q = 0"
  by (simp add: word_unat_eq_iff unat_ucast_qos)

lemma lowest_qos_cap:
  "lowest_qos 1 ss = (if 0 \<in> set ss then 0 else 1)"
proof (induction ss)
  case (Cons q ss)
  have "(ucast q :: 32 word) < 1 \<longleftrightarrow> q = 0"
    by (simp add: word_less_nat_alt unat_ucast_qos unat_eq_zero)
  with Cons show ?case by (simp add: Let_def)
qed simp

text \<open>
  \<open>MatchTopicQOS\<close> reports a match exactly when the trie has one, and the level it returns is
  the lowest of the matching subscriptions, capped at 1, in spite of the early exit of its loop
  and whatever the order in which the trie lists them.
\<close>

theorem MatchTopicQOS_lowest:
  "MatchTopicQOS t topic =
     (t topic \<noteq> [], Min (insert 1 (ucast ` set (t topic))))"
proof -
  have "Min (insert 1 (ucast ` set ss)) = lowest_qos 1 ss" for ss :: "QOS list"
  proof (cases "0 \<in> set ss")
    case True
    then have "(0::32 word) \<in> ucast ` set ss" by (metis imageI unsigned_0)
    then have "Min (insert 1 (ucast ` set ss)) = (0::32 word)"
      by (intro Min_eqI) auto
    with True show ?thesis by (simp add: lowest_qos_cap)
  next
    case False
    have "1 \<le> (ucast q :: 32 word)" if "q \<in> set ss" for q
    proof -
      have "q \<noteq> 0" using that False by auto
      then have "0 < unat (ucast q :: 32 word)" by (simp add: unat_ucast_qos unat_gt_0)
      then show ?thesis by (simp add: word_le_nat_alt)
    qed
    then have "Min (insert 1 (ucast ` set ss)) = (1::32 word)" by (intro Min_eqI) auto
    with False show ?thesis by (simp add: lowest_qos_cap)
  qed
  then show ?thesis by (simp add: MatchTopicQOS_def Let_def)
qed

section \<open>Properties of the stream\<close>

lemma once_Do_Done: "once s = OnceDone \<Longrightarrow> once_Do f s = Some s"
  by (simp add: once_Do_def)

text \<open>Killing with an error never blocks, and what it changes.\<close>

lemma die_error:
  "once s \<noteq> OnceRunning \<Longrightarrow> die obs x (Some e) s = Some (if once s = OnceDone then s else
     (onError obs e s)\<lparr>once := OnceDone, connectFuture := Cancel (connectFuture s),
        subscribeFuture := Cancel (subscribeFuture s),
        tombReason := (if tombReason s = None then Some (Some e) else tombReason s), connClosed := True\<rparr>)"
  by (cases "once s") (auto simp: die_def once_Do_def onError_def)

lemma stream_send_ok:
  "stream_send obs pkt None s = Some (None, s\<lparr>tracker := tracker s @ [TReset], wire := wire s @ [pkt]\<rparr>)"
  by (simp add: stream_send_def send_core_def)

lemma stream_send_error:
  "once s \<noteq> OnceRunning \<Longrightarrow> stream_send obs pkt (Some e) s =
     map_option (\<lambda>s'. (Some e, s')) (die obs None (Some e) (s\<lparr>tracker := tracker s @ [TReset]\<rparr>))"
  by (simp add: stream_send_def send_core_def)

text \<open>
  The invariant of a stream between steps: its \<^verbatim>\<open>once\<close> is not half-way, the tomb and the
  connection are dead exactly when it has run, no future is pending then, and the observer has
  heard of at most one error, only then.
\<close>

fun is_error_call :: "observer_call \<Rightarrow> bool" where
  "is_error_call (CallError _) = True"
| "is_error_call _ = False"

definition stream_inv :: "stream \<Rightarrow> bool" where
  "stream_inv s \<longleftrightarrow> once s \<noteq> OnceRunning \<and> (tombReason s \<noteq> None \<longleftrightarrow> once s = OnceDone) \<and>
     (connClosed s \<longleftrightarrow> once s = OnceDone) \<and>
     (once s = OnceDone \<longrightarrow> connectFuture s \<noteq> Pending \<and> subscribeFuture s \<noteq> Pending) \<and>
     length (filter is_error_call (calls s)) \<le> (if once s = OnceDone then 1 else 0)"

lemma Cancel_not_Pending [simp]: "Cancel f \<noteq> Pending" "Complete f \<noteq> Pending"
  by (cases f; simp)+

lemma new_stream_inv [simp]: "stream_inv (new_stream w)"
  by (simp add: stream_inv_def new_stream_def)

lemma die_error_inv:
  assumes "stream_inv s"
  obtains s' where "die obs x (Some e) s = Some s'" "stream_inv s'" "once s' = OnceDone" "wire s' = wire s"
    "connacked s' = connacked s"
proof -
  have run: "once s \<noteq> OnceRunning" using assms by (simp add: stream_inv_def)
  show thesis
  proof (cases "once s = OnceDone")
    case True
    with die_error [OF run, of obs x e] assms show thesis by (intro that [of s]) simp_all
  next
    case False
    from die_error [OF run, of obs x e] False assms show thesis
      by (intro that) (simp, simp_all add: stream_inv_def onError_def)
  qed
qed

lemma stream_send_inv:
  assumes "stream_inv s"
  shows "\<exists>s'. stream_send obs pkt r s = Some (r, s') \<and> stream_inv s' \<and>
     wire s' = wire s @ (if r = None then [pkt] else []) \<and> connacked s' = connacked s"
proof (cases r)
  case None
  then show ?thesis using assms by (simp add: stream_send_ok stream_inv_def)
next
  case (Some e)
  have "stream_inv (s\<lparr>tracker := tracker s @ [TReset]\<rparr>)" using assms by (simp add: stream_inv_def)
  from die_error_inv [OF this, of obs None e] obtain s' where
    "die obs None (Some e) (s\<lparr>tracker := tracker s @ [TReset]\<rparr>) = Some s'" "stream_inv s'" "wire s' = wire s"
    "connacked s' = connacked s" by auto
  with Some assms show ?thesis by (simp add: stream_send_error stream_inv_def)
qed

lemma stop_with_inv:
  assumes "stream_inv s"
  shows "\<exists>s'. stop_with obs e s = Some (False, s') \<and> stream_inv s' \<and> wire s' = wire s \<and>
     connacked s' = connacked s"
  using die_error_inv [OF assms, of obs None e] by (metis option.map(2) stop_with_def)

lemma stop_with_Some:
  assumes "stream_inv s"
  obtains s' where "stop_with obs e s = Some (False, s')" "stream_inv s'" "wire s' = wire s"
    "connacked s' = connacked s"
  using stop_with_inv [OF assms] that by metis

lemma handlers_inv:
  "stream_inv s \<Longrightarrow> stream_inv (snd (onPublish obs pkt s))"
  "stream_inv s \<Longrightarrow> stream_inv (snd (onPuback obs pkt s))"
  "stream_inv s \<Longrightarrow> stream_inv (snd (onSuback pid codes s))"
  by (auto simp: stream_inv_def onPublish_def onPuback_def onSuback_def split: option.splits)

text \<open>The handler of one received packet, as a step of its own for the proofs.\<close>

definition handle ::
  "bool \<Rightarrow> Observer option \<Rightarrow> mqtt_error option \<Rightarrow> Packet \<Rightarrow> stream \<Rightarrow>
     (mqtt_error option \<times> stream) option" where
  "handle d obs ackErr pkt s =
     (case pkt of
        Publish pid dup msg \<Rightarrow>
          (let (uerr, s) = onPublish obs pkt s in
           if uerr \<noteq> None then Some (None, s)
           else if \<not> d \<and> MQOS msg = 1 then stream_send obs (Puback pid) ackErr s
           else Some (None, s))
      | Puback pid \<Rightarrow> Some (onPuback obs pkt s)
      | Suback pid codes \<Rightarrow> Some (onSuback pid codes s)
      | Pingresp \<Rightarrow> Some (None, s\<lparr>tracker := tracker s @ [TPong]\<rparr>)
      | Connack _ \<Rightarrow> Some (Some ErrClientAlreadyConnecting, s)
      | _ \<Rightarrow> Some (Some (PacketNotSupported pkt), s))"

lemma receiving_step_handle:
  "connacked s \<Longrightarrow> receiving_step d obs ackErr (Inr pkt) s =
     (case handle d obs ackErr pkt s of
        None \<Rightarrow> None
      | Some (Some e, s) \<Rightarrow> stop_with obs e s
      | Some (None, s) \<Rightarrow> Some (True, s))"
  by (simp add: receiving_step_def handle_def)

lemma handle_inv:
  assumes "stream_inv s"
  shows "\<exists>e s'. handle d obs ackErr pkt s = Some (e, s') \<and> stream_inv s'"
proof (cases pkt)
  case (Publish pid dup msg)
  show ?thesis
    using handlers_inv(1) [OF assms, of obs pkt]
      stream_send_inv [OF handlers_inv(1) [OF assms, of obs pkt], of obs "Puback pid" ackErr] Publish
    by (auto simp: handle_def split: prod.splits)
next
  case (Puback pid)
  then show ?thesis using handlers_inv(2) [OF assms, of obs pkt] by (cases "onPuback obs pkt s") (simp add: handle_def)
next
  case (Suback pid codes)
  then show ?thesis using handlers_inv(3) [OF assms, of pid codes] by (cases "onSuback pid codes s") (simp add: handle_def)
next
  case Pingresp
  then show ?thesis using assms by (simp add: handle_def stream_inv_def)
qed (use assms in \<open>simp_all add: handle_def\<close>)

lemma receiving_step_inv:
  assumes "stream_inv s"
  shows "\<exists>b s'. receiving_step d obs ackErr x s = Some (b, s') \<and> stream_inv s'"
proof (cases x)
  case (Inl e)
  then show ?thesis using stop_with_inv [OF assms, of obs e] by (auto simp: receiving_step_def)
next
  case (Inr pkt)
  show ?thesis
  proof (cases "connacked s")
    case True
    obtain e s' where "handle d obs ackErr pkt s = Some (e, s')" "stream_inv s'"
      using handle_inv [OF assms] by blast
    with Inr True show ?thesis
      using stop_with_inv [of s' obs "the e"] by (cases e) (auto simp: receiving_step_handle)
  next
    case False
    have inv': "stream_inv (s\<lparr>connacked := True, connectFuture := f\<rparr>)" if "f \<noteq> Pending" for f
      using assms that by (simp add: stream_inv_def)
    have "stream_inv (s\<lparr>connacked := True\<rparr>)" using assms by (simp add: stream_inv_def)
    then show ?thesis using Inr False stop_with_inv [of "s\<lparr>connacked := True\<rparr>" obs "the (onConnack pkt)"]
        inv' [of "Complete (connectFuture s)"]
      by (cases "onConnack pkt") (auto simp: receiving_step_def)
  qed
qed

lemma receiving_inv:
  "stream_inv s \<Longrightarrow> \<exists>b s'. receiving d obs xs s = Some (b, s') \<and> stream_inv s'"
proof (induction d obs xs s rule: receiving.induct)
  case (2 d obs ackErr x xs s)
  obtain b s' where "receiving_step d obs ackErr x s = Some (b, s')" "stream_inv s'"
    using receiving_step_inv [OF "2.prems"] by blast
  with 2 show ?case by (cases b) auto
qed auto

lemma pinging_step_inv:
  assumes "stream_inv s"
  shows "\<exists>b s'. pinging_step obs w p r s = Some (b, s') \<and> stream_inv s'"
proof -
  have "stream_inv (s\<lparr>tracker := tracker s @ [TPing]\<rparr>)" using assms by (simp add: stream_inv_def)
  from stream_send_inv [OF this, of obs Pingreq r] stop_with_inv [OF assms, of obs ErrClientMissingPong] assms
  show ?thesis by (cases r) (auto simp: pinging_step_def)
qed

lemma await_Inr: "await obs f s = Some (Inr s') \<longleftrightarrow> s' = s \<and> f = Completed"
  by (cases f) (auto simp: await_def failed_def split: option.splits)

text \<open>What one successful connection attempt established.\<close>

lemma connect_Some:
  assumes "connect obs o' env = Some (Inr (alive, st))"
  obtains b s b' s' where "receiving (DisableAutoAck o') obs (upToConnack env) (new_stream [connect_packet o']) = Some (b, s)"
    "connectFuture s = Completed" "stream_inv s" "stream_inv st"
    "if Subscriptions o' = [] then st = s \<and> alive = b
     else receive_on (DisableAutoAck o') obs (upToSuback env)
            (b, s\<lparr>wire := wire s @ [Subscribe subscribeId (Subscriptions o')]\<rparr>) = Some (alive, st) \<and>
          subscribeFuture st = Completed"
proof -
  obtain b s where r1: "receiving (DisableAutoAck o') obs (upToConnack env) (new_stream [connect_packet o']) = Some (b, s)"
    and inv: "stream_inv s" using receiving_inv [OF new_stream_inv] by blast
  have inv': "stream_inv (s\<lparr>wire := x\<rparr>)" for x using inv by (simp add: stream_inv_def)
  obtain b' s' where r2: "receive_on (DisableAutoAck o') obs (upToSuback env)
      (b, s\<lparr>wire := wire s @ [Subscribe subscribeId (Subscriptions o')]\<rparr>) = Some (b', s')" "stream_inv s'"
    using receiving_inv [OF inv'] inv' by (cases b) (fastforce simp: receive_on_def)+
  show thesis
    by (rule that [OF r1]; use assms r1 r2 inv in
        \<open>auto simp: connect_def failed_def await_Inr split: option.splits sum.splits if_splits\<close>)
qed

lemma connect_inv:
  "connect obs o' env = Some (Inr (alive, st)) \<Longrightarrow> stream_inv st"
  by (rule connect_Some)

text \<open>
  Acknowledgement of a received publish packet on a connected stream, with a connection that
  takes what is sent: the loop goes on, the observer sees the packet exactly once, and exactly one
  puback with the packet's identifier is sent if the packet has level 1, automatic
  acknowledgement is on and the observer returned no error; otherwise nothing is sent. An
  error of the user's handler never kills the stream.
\<close>

theorem publish_acknowledged:
  assumes "connacked s"
  shows "\<exists>s'. receiving_step d obs None (Inr (Publish pid dup msg)) s = Some (True, s') \<and>
     calls s' = calls s @ (if obs = None then [] else [CallPublish (Publish pid dup msg)]) \<and>
     wire s' = wire s @ (if \<not> d \<and> MQOS msg = 1 \<and>
         (\<forall>ob. obs = Some ob \<longrightarrow> OnPublish ob (Publish pid dup msg) = None) then [Puback pid] else []) \<and>
     once s' = once s \<and> tombReason s' = tombReason s"
  using assms
  by (auto simp: receiving_step_handle handle_def onPublish_def stream_send_ok split: option.splits)

theorem publish_acknowledged_witness:
  "\<exists>s'. receiving_step False (Some (wrapped \<lparr>wr_onPublish = None, wr_onPuback = None\<rparr>)) None
       (Inr (Publish 7 False \<lparr>Topic = ''t'', Payload = [], MQOS = 1, Retain = False\<rparr>))
       ((new_stream [])\<lparr>connacked := True\<rparr>) = Some (True, s') \<and> wire s' = [Puback 7]"
  using publish_acknowledged [of "(new_stream [])\<lparr>connacked := True\<rparr>" False
      "Some (wrapped \<lparr>wr_onPublish = None, wr_onPuback = None\<rparr>)" 7 False
      "\<lparr>Topic = ''t'', Payload = [], MQOS = 1, Retain = False\<rparr>"]
  by (auto simp: wrapped_def ObserverWrapper_OnPublish_def new_stream_def)

lemma Cancel_Completed: "Cancel f = Completed \<longleftrightarrow> f = Completed"
  by (cases f) auto

lemma stop_with_futures:
  assumes "stop_with obs e s = Some (b, s')" "once s \<noteq> OnceRunning"
  shows "\<not> b \<and> (connectFuture s' = Completed \<longleftrightarrow> connectFuture s = Completed) \<and>
    (subscribeFuture s' = Completed \<longleftrightarrow> subscribeFuture s = Completed)"
  using assms by (auto simp: stop_with_def die_error onError_def Cancel_Completed split: if_splits)

lemma stream_send_futures:
  assumes "stream_send obs pkt r s = Some (e, s')" "once s \<noteq> OnceRunning"
  shows "(subscribeFuture s' = Completed \<longleftrightarrow> subscribeFuture s = Completed) \<and> once s' \<noteq> OnceRunning"
  using assms
  by (cases r) (auto simp: stream_send_ok stream_send_error die_error onError_def Cancel_Completed split: if_splits)

definition accepted_suback :: "(mqtt_error, Packet) result \<Rightarrow> bool" where
  "accepted_suback x \<longleftrightarrow> (\<exists>codes. x = Inr (Suback subscribeId codes) \<and> QOSFailure \<notin> set codes)"

lemma handle_suback:
  assumes "handle d obs a pkt s = Some (e, s')" "once s \<noteq> OnceRunning"
  shows "(subscribeFuture s' = Completed \<longrightarrow> subscribeFuture s = Completed \<or> accepted_suback (Inr pkt)) \<and>
    once s' \<noteq> OnceRunning"
proof (cases pkt)
  case (Publish pid dup msg)
  have "subscribeFuture (snd (onPublish obs pkt s)) = subscribeFuture s" "once (snd (onPublish obs pkt s)) = once s"
    by (auto simp: onPublish_def split: option.splits)
  with assms Publish stream_send_futures show ?thesis
    by (fastforce simp: handle_def split: prod.splits if_splits)
next
  case (Puback pid)
  with assms show ?thesis by (auto simp: handle_def onPuback_def split: option.splits)
next
  case (Suback pid codes)
  with assms show ?thesis by (auto simp: handle_def onSuback_def accepted_suback_def split: if_splits)
qed (use assms in \<open>auto simp: handle_def\<close>)

lemma receiving_step_suback:
  assumes "receiving_step d obs a x s = Some (b, s')" "stream_inv s" "subscribeFuture s' = Completed"
  shows "subscribeFuture s = Completed \<or> accepted_suback x"
proof -
  have run: "once s \<noteq> OnceRunning" using assms(2) by (simp add: stream_inv_def)
  show ?thesis
  proof (cases x)
    case (Inl e)
    with assms run show ?thesis by (auto simp: receiving_step_def dest: stop_with_futures)
  next
    case (Inr pkt)
    show ?thesis
    proof (cases "connacked s")
      case True
      with assms Inr obtain e s'' where h: "handle d obs a pkt s = Some (e, s'')"
        and r: "(case e of Some e \<Rightarrow> stop_with obs e s'' | None \<Rightarrow> Some (True, s'')) = Some (b, s')"
        by (auto simp: receiving_step_handle split: option.splits)
      with handle_suback [OF h run] assms Inr show ?thesis
        by (auto dest: stop_with_futures split: option.splits)
    next
      case False
      with assms Inr run show ?thesis
        by (auto simp: receiving_step_def Let_def dest: stop_with_futures split: option.splits)
    qed
  qed
qed

lemma receiving_suback:
  "receiving d obs xs s = Some (b, s') \<Longrightarrow> stream_inv s \<Longrightarrow> subscribeFuture s' = Completed \<Longrightarrow>
     subscribeFuture s = Completed \<or> (\<exists>x \<in> set xs. accepted_suback (snd x))"
proof (induction d obs xs s rule: receiving.induct)
  case (2 d obs a x xs s)
  obtain c s'' where st: "receiving_step d obs a x s = Some (c, s'')" "stream_inv s''"
    using receiving_step_inv [OF "2.prems"(2)] by blast
  show ?case
  proof (cases c)
    case True
    with 2 st receiving_step_suback [OF st(1) "2.prems"(2)] show ?thesis by auto
  next
    case False
    with 2 st receiving_step_suback [OF st(1) "2.prems"(2)] show ?thesis by auto
  qed
qed simp

lemma receiving_connack:
  assumes "receiving d obs xs (new_stream w) = Some (b, s)" "connectFuture s = Completed"
  shows "\<exists>a ys. xs = (a, Inr (Connack ConnectionAccepted)) # ys"
proof (cases xs)
  case Nil
  with assms show ?thesis by (auto simp: new_stream_def)
next
  case (Cons ax ys)
  obtain a x where ax: "ax = (a, x)" by (cases ax)
  have dead: "connectFuture s' \<noteq> Completed" if "stop_with obs e ((new_stream w)\<lparr>connacked := c\<rparr>) = Some (r, s')"
    for e c r s' using stop_with_futures [OF that] by (simp add: new_stream_def)
  have no_stop: "\<not> r" if "stop_with obs e t = Some (r, s')" for e r s' t
    using that by (auto simp: stop_with_def)
  show ?thesis
  proof (cases "\<exists>pkt. x = Inr pkt \<and> onConnack pkt = None")
    case True
    then obtain pkt where "x = Inr pkt" "onConnack pkt = None" by blast
    then show ?thesis using Cons ax by (cases pkt) (auto simp: onConnack_def split: if_splits)
  next
    case False
    have nc: "\<not> connacked (new_stream w)" "(new_stream w)\<lparr>connacked := False\<rparr> = new_stream w"
      by (simp_all add: new_stream_def)
    from False obtain e c where "receiving_step d obs a x (new_stream w) = stop_with obs e ((new_stream w)\<lparr>connacked := c\<rparr>)"
    proof (cases x)
      case (Inl e)
      then show ?thesis using that [of e False] by (simp only: receiving_step_def nc sum.case)
    next
      case (Inr pkt)
      with False obtain e where "onConnack pkt = Some e" by auto
      then show ?thesis using Inr nc that [of e True] by (simp add: receiving_step_def)
    qed
    with assms Cons ax show ?thesis
      by (auto dest: dead no_stop split: option.splits bool.splits prod.splits)
  qed
qed

text \<open>
  C20. A successful connection attempt. The broker's first packet was an accepting connack; if
  subscriptions are configured, a suback for the client's one subscribe packet arrived
  with no failure code among its return codes.
\<close>

theorem connect_established:
  assumes "connect obs o' env = Some (Inr (alive, st))"
  shows "\<exists>a ys. upToConnack env = (a, Inr (Connack ConnectionAccepted)) # ys \<and>
     (Subscriptions o' \<noteq> [] \<longrightarrow>
        (\<exists>x codes. x \<in> set (upToConnack env @ upToSuback env) \<and>
           snd x = Inr (Suback subscribeId codes) \<and> QOSFailure \<notin> set codes))"
proof -
  from connect_Some [OF assms] obtain b s where
    r: "receiving (DisableAutoAck o') obs (upToConnack env) (new_stream [connect_packet o']) = Some (b, s)"
    "connectFuture s = Completed" "stream_inv s" "stream_inv st"
    "if Subscriptions o' = [] then st = s \<and> alive = b
     else receive_on (DisableAutoAck o') obs (upToSuback env)
            (b, s\<lparr>wire := wire s @ [Subscribe subscribeId (Subscriptions o')]\<rparr>) = Some (alive, st) \<and>
          subscribeFuture st = Completed" by blast
  let ?s = "s\<lparr>wire := wire s @ [Subscribe subscribeId (Subscriptions o')]\<rparr>"
  have inv: "stream_inv ?s" using r(3) by (simp add: stream_inv_def)
  have new: "subscribeFuture (new_stream w) = Pending" for w by (simp add: new_stream_def)
  have connack: "\<exists>a ys. upToConnack env = (a, Inr (Connack ConnectionAccepted)) # ys"
    using receiving_connack [OF r(1,2)] .
  have "\<exists>x \<in> set (upToConnack env @ upToSuback env). accepted_suback (snd x)" if "Subscriptions o' \<noteq> []"
  proof -
    from that r(5) have fut: "subscribeFuture st = Completed"
      and on: "receive_on (DisableAutoAck o') obs (upToSuback env) (b, ?s) = Some (alive, st)" by simp_all
    show ?thesis
    proof (cases "subscribeFuture s = Completed")
      case True
      with receiving_suback [OF r(1) new_stream_inv] new show ?thesis by auto
    next
      case False
      with fut on have "receiving (DisableAutoAck o') obs (upToSuback env) ?s = Some (alive, st)"
        by (auto simp: receive_on_def split: if_splits)
      from receiving_suback [OF this inv fut] False show ?thesis by auto
    qed
  qed
  with connack show ?thesis unfolding accepted_suback_def by blast
qed

theorem connect_established_witness:
  "\<exists>st. connect None ((NewClientOptions :: unit ClientOptions)\<lparr>Subscriptions := [\<lparr>sub_topic = ''t'', sub_qos = 1\<rparr>]\<rparr>)
       \<lparr>dialErr = None, connectErr = None, upToConnack = [(None, Inr (Connack ConnectionAccepted))],
        subscribeErr = None, upToSuback = [(None, Inr (Suback subscribeId [1]))]\<rparr> = Some (Inr (True, st)) \<and>
     (\<exists>codes. Suback subscribeId [1] = Suback subscribeId codes \<and> QOSFailure \<notin> set codes)"
proof -
  let ?o = "(NewClientOptions :: unit ClientOptions)\<lparr>Subscriptions := [\<lparr>sub_topic = ''t'', sub_qos = 1\<rparr>]\<rparr>"
  let ?env = "\<lparr>dialErr = None, connectErr = None, upToConnack = [(None, Inr (Connack ConnectionAccepted))],
        subscribeErr = None, upToSuback = [(None, Inr (Suback subscribeId [1]))]\<rparr>"
  obtain st where st: "connect None ?o ?env = Some (Inr (True, st))"
    by (simp add: connect_def NewClientOptions_def receiving_step_def onConnack_def new_stream_def await_def
        receive_on_def onSuback_def QOSFailure_def)
  from connect_established [OF st] st show ?thesis
    by (auto simp: NewClientOptions_def)
qed

section \<open>Properties of the client\<close>

text \<open>Publish packets above level 0 never carry the identifier zero.\<close>

lemma publish_packet_spec:
  assumes "publish_packet qos topic payload pid retain dup c = (pkt, c')" "next_id (ids c) \<noteq> 0"
  shows "(qos \<noteq> 0 \<longrightarrow> pub_ID pkt \<noteq> 0) \<and> (pid \<noteq> 0 \<longrightarrow> pub_ID pkt = pid \<and> ids c' = ids c) \<and>
     next_id (ids c') \<noteq> 0 \<and> cache c' = cache c"
  using assms NextCounterID_nonzero [of "next_id (ids c)"]
  by (auto simp: publish_packet_def NextID_def Let_def split: if_splits)

definition opt_list :: "'a option \<Rightarrow> 'a list" where
  "opt_list x = (case x of None \<Rightarrow> [] | Some y \<Rightarrow> [y])"

lemma opt_list_simps [simp]: "opt_list None = []" "opt_list (Some x) = [x]"
  by (simp_all add: opt_list_def)

definition fifo_inv :: "'tls sys \<Rightarrow> bool" where
  "fifo_inv y \<longleftrightarrow> accepted y = handed y @ opt_list (curr y) @ chan_buf (cache (cli y)) \<and>
     chan_wf (cache (cli y)) \<and> (pc y = SendingLoop \<longrightarrow> curr y = None)"

definition sys_inv :: "'tls sys \<Rightarrow> bool" where
  "sys_inv y \<longleftrightarrow> fifo_inv y \<and> (\<forall>st. strm y = Some st \<longrightarrow> stream_inv st)"

lemma Client_Send_cases:
  assumes "Client_Send pick pkt c = Some (e, c')"
  shows "(c' = c \<and> e = Some ErrClientAlreadyClosed \<and> dying c) \<or>
     (e = None \<and> length (chan_buf (cache c)) < chan_cap (cache c) \<and>
      c' = c\<lparr>cache := (cache c)\<lparr>chan_buf := chan_buf (cache c) @ [pkt]\<rparr>\<rparr>)"
  using assms by (auto simp: Client_Send_def go_chan split: if_splits)

lemma after_send_inv:
  assumes "sys_inv y" "after_send pkt y r = Some y'"
    and "\<And>e c'. r = Some (e, c') \<Longrightarrow> cache c' = cache (cli y) \<or>
       (length (chan_buf (cache (cli y))) < chan_cap (cache (cli y)) \<and>
        cache c' = (cache (cli y))\<lparr>chan_buf := chan_buf (cache (cli y)) @ [pkt]\<rparr>)"
  shows "sys_inv y'"
  using assms by (fastforce simp: after_send_def sys_inv_def fifo_inv_def chan_wf_def)

lemma sending_packet_inv:
  assumes "accepted y = handed y @ pkt # chan_buf (cache (cli y))" "chan_wf (cache (cli y))" "stream_inv st"
  shows "sys_inv (sending_packet obs pkt r st y)"
proof -
  obtain st' where "stream_send obs pkt r st = Some (r, st')" "stream_inv st'"
    using stream_send_inv [OF assms(3)] by blast
  with assms show ?thesis
    by (cases r) (simp_all add: sending_packet_def sys_inv_def fifo_inv_def)
qed

lemma loop_connect_inv:
  assumes "sys_inv y" "pc y = Selecting" shows "sys_inv (loop_connect obs env y)"
  using assms connect_inv [of obs "ops (cli y)" env]
  by (fastforce simp: loop_connect_def sys_inv_def fifo_inv_def Let_def split: option.splits sum.splits)

lemma stream_side_inv:
  assumes "sys_inv y" "\<exists>b s'. r = Some (b, s') \<and> stream_inv s'"
    and "\<And>b y. sys_inv y \<Longrightarrow> sys_inv (upd b y)"
  shows "sys_inv (stream_side r y upd)"
proof -
  obtain b s' where r: "r = Some (b, s')" "stream_inv s'" using assms(2) by blast
  then have "sys_inv (y\<lparr>strm := Some s'\<rparr>)" using assms(1) by (simp add: sys_inv_def fifo_inv_def)
  with r assms(3) show ?thesis by (simp add: stream_side_def)
qed

lemma recv_flag_inv: "sys_inv y \<Longrightarrow> sys_inv (y\<lparr>recvAlive := b\<rparr>)" "sys_inv y \<Longrightarrow> sys_inv (y\<lparr>pingAlive := b\<rparr>)"
  by (simp_all add: sys_inv_def fifo_inv_def)

lemma send_curr_inv:
  assumes "sys_inv y" "client_step obs y (EvSendCurr r) = Some y'"
  shows "sys_inv y'"
proof -
  from assms(2) obtain st where st: "pc y = SendingCurr" "strm y = Some st"
    by (auto split: loop_pc.splits option.splits)
  with assms(1) have inv: "stream_inv st" "fifo_inv y" by (simp_all add: sys_inv_def)
  show ?thesis
  proof (cases "curr y")
    case None
    with st assms show ?thesis by (auto simp: sys_inv_def fifo_inv_def)
  next
    case (Some pkt)
    with st assms inv show ?thesis by (auto simp: fifo_inv_def intro!: sending_packet_inv)
  qed
qed

lemma send_cache_inv:
  assumes "sys_inv y" "client_step obs y (EvSendCache r) = Some y'"
  shows "sys_inv y'"
proof -
  from assms(2) obtain st pkt ch where st: "pc y = SendingLoop" "strm y = Some st"
    "chan_recv (cache (cli y)) = Some (pkt, ch)"
    by (auto split: loop_pc.splits option.splits prod.splits)
  with assms(1) have inv: "stream_inv st" "fifo_inv y" by (simp_all add: sys_inv_def)
  have "y' = sending_packet obs pkt r st (y\<lparr>cli := (cli y)\<lparr>cache := ch\<rparr>\<rparr>)"
    using assms(2) st by simp
  moreover obtain xs where "chan_buf (cache (cli y)) = pkt # xs" "ch = (cache (cli y))\<lparr>chan_buf := xs\<rparr>"
    using st(3) by (auto simp: go_chan)
  ultimately show ?thesis using inv st(1)
    by (auto simp: fifo_inv_def chan_wf_def intro!: sending_packet_inv)
qed

lemma client_step_inv:
  assumes "sys_inv y" "client_step obs y ev = Some y'"
  shows "sys_inv y'"
proof (cases ev)
  case (EvSend pick pkt)
  show ?thesis
    by (rule after_send_inv [OF assms(1)]) (use assms(2) EvSend in \<open>auto dest!: Client_Send_cases\<close>)
next
  case (EvSendOrDrop pick pkt)
  show ?thesis
    by (rule after_send_inv [OF assms(1)])
      (use assms(2) EvSendOrDrop in \<open>auto simp: SendOrDrop_def dest!: Client_Send_cases split: option.splits\<close>)
next
  case (EvPublish pick qos topic payload pid retain dup)
  obtain pkt c' where p: "publish_packet qos topic payload pid retain dup (cli y) = (pkt, c')" by fastforce
  have c': "cache c' = cache (cli y)" using p by (auto simp: publish_packet_def Let_def split: if_splits prod.splits)
  show ?thesis
    by (rule after_send_inv [OF assms(1)])
      (use assms(2) EvPublish p c' in \<open>auto simp: Client_Publish_def dest!: Client_Send_cases\<close>)
next
  case (EvTop e)
  then show ?thesis using assms
    by (auto simp: loop_top_def sys_inv_def fifo_inv_def Let_def split: if_splits option.splits)
next
  case (EvConnect env)
  then show ?thesis using assms loop_connect_inv by (auto split: if_splits)
next
  case (EvSendCurr r)
  then show ?thesis using assms send_curr_inv by blast
next
  case (EvSendCache r)
  then show ?thesis using assms send_cache_inv by blast
next
  case (EvReceive a x)
  then show ?thesis using assms
    by (auto intro!: stream_side_inv receiving_step_inv recv_flag_inv
        split: option.splits if_splits) (simp add: sys_inv_def)
next
  case (EvPing w p r)
  then show ?thesis using assms
    by (auto intro!: stream_side_inv pinging_step_inv recv_flag_inv
        split: option.splits if_splits) (simp add: sys_inv_def)
qed (use assms in \<open>auto simp: sys_inv_def fifo_inv_def Client_Kill_def split: if_splits loop_pc.splits option.splits\<close>)

interpretation client_events: partial_event_system "client_step obs" sys_inv for obs
  by unfold_locales (rule client_step_inv)

lemma client_run_inv: "sys_inv y \<Longrightarrow> client_run obs y evs = Some y' \<Longrightarrow> sys_inv y'"
  by (induction evs arbitrary: y) (auto intro: client_events.try_inv split: option.splits)

lemma start_sys_inv: "NewClient o' = Some c \<Longrightarrow> sys_inv (start_sys c)"
  by (auto simp: NewClient_def start_sys_def sys_inv_def fifo_inv_def chan_wf_def split: if_splits)

text \<open>
  C1. First in, first out, nothing lost: over any run of a new client (callers sending while the
  client connects, loses streams, reconnects and is closed), the packets accepted from the callers
  are, in order, those handed to some connection, then the one a failed send left for the next stream, then
  those still in the channel. No packet is skipped, reordered or handed over twice, and the
  channel never exceeds its capacity.
\<close>

theorem client_fifo:
  assumes "NewClient o' = Some c" and "client_run obs (start_sys c) evs = Some y"
  shows "accepted y = handed y @ opt_list (curr y) @ chan_buf (cache (cli y)) \<and>
     length (chan_buf (cache (cli y))) \<le> chan_cap (cache (cli y))"
  using client_run_inv [OF start_sys_inv [OF assms(1)] assms(2)]
  by (simp add: sys_inv_def fifo_inv_def chan_wf_def)


text \<open>A run for the witnesses: one packet fails on the first stream and is taken by the second.\<close>

definition demo_env :: connect_env where
  "demo_env = \<lparr>dialErr = None, connectErr = None, upToConnack = [(None, Inr (Connack 0))],
     subscribeErr = None, upToSuback = []\<rparr>"

definition demo_publish :: "ID \<Rightarrow> Packet" where
  "demo_publish pid = Publish pid False \<lparr>Topic = ''t'', Payload = [], MQOS = 1, Retain = False\<rparr>"

definition demo_run :: "client_event list" where
  "demo_run =
     [EvPublish False 1 ''t'' [] 0 False False, EvTop None, EvConnect demo_env, EvSendCurr None,
      EvSendCache (Some (ConnError ''reset'')), EvPublish False 1 ''t'' [] 0 False False, EvTop None,
      EvConnect demo_env, EvSendCurr None]"

definition demo_client :: "unit Client" where
  "demo_client = the (NewClient NewClientOptions)"

lemma demo_client: "NewClient NewClientOptions = Some demo_client"
  by (simp add: demo_client_def NewClient_def NewClientOptions_def)

lemma demo_run:
  "map_option (\<lambda>y. (handed y, curr y, chan_buf (cache (cli y)), map_option tombReason (strm y)))
     (client_run None (start_sys demo_client) demo_run) =
   Some ([demo_publish 1], None, [demo_publish 2], Some None)"
  by code_simp

theorem client_fifo_witness:
  "\<exists>y. client_run None (start_sys demo_client) demo_run = Some y \<and>
     accepted y = [demo_publish 1] @ opt_list None @ [demo_publish 2]"
proof -
  obtain y where y: "client_run None (start_sys demo_client) demo_run = Some y"
    "handed y = [demo_publish 1]" "curr y = None" "chan_buf (cache (cli y)) = [demo_publish 2]"
    using demo_run by auto
  then show ?thesis using client_fifo [OF demo_client y(1)] by auto
qed


text \<open>
  Closing. With the stream alive and the client killed, the connecting goroutine leaves
  \<^verbatim>\<open>sending\<close>, closes the stream with a disconnect packet and returns, if the connection takes
  that packet. If the connection refuses it, \<^verbatim>\<open>send\<close> calls \<^verbatim>\<open>die\<close> from within \<^verbatim>\<open>once.Do\<close>.
\<close>

lemma stream_close_ok:
  "once st = OnceFresh \<Longrightarrow> \<exists>st'. stream_close obs None st = Some st' \<and> wire st' = wire st @ [Disconnect] \<and> connClosed st'"
  by (simp add: stream_close_def die_def once_Do_def send_core_def Let_def)

lemma stream_close_dead: "once st = OnceDone \<Longrightarrow> stream_close obs r st = Some st"
  by (simp add: stream_close_def die_def once_Do_Done)

lemma stream_close_hangs: "once st = OnceFresh \<Longrightarrow> stream_close obs (Some e) st = None"
  by (simp add: stream_close_def die_def once_Do_def send_core_def)



end
