(* ===== verification/Mqtt_Packets.thy ===== *)
theory Mqtt_Packets
  imports Mqtt_Client
begin

text \<open>
  The constructors of \<^verbatim>\<open>mqtt/gomqtt.go\<close>: packets whose fields have their zero values, and the options of the dialer and the launcher. Packets
  that no code of the repository builds or reads (those of unsubscribing) are left out, like the aliases of types and the trie, tracker and
  future of the packet library.
\<close>

definition Version311 :: "8 word" where "Version311 = 4"
definition Version31 :: "8 word" where "Version31 = 3"

definition zero_message :: Message where
  "zero_message = \<lparr>Topic = [], Payload = [], MQOS = 0, Retain = False\<rparr>"

definition NewPublish :: Packet where "NewPublish = Publish 0 False zero_message"
definition NewPuback :: Packet where "NewPuback = Puback 0"
definition NewSubscribe :: Packet where "NewSubscribe = Subscribe 0 []"
definition NewSuback :: Packet where "NewSuback = Suback 0 []"
definition NewPingreq :: Packet where "NewPingreq = Pingreq"
definition NewPingresp :: Packet where "NewPingresp = Pingresp"
definition NewConnack :: Packet where "NewConnack = Connack ConnectionAccepted"
definition NewDisconnect :: Packet where "NewDisconnect = Disconnect"

record 'tls DialConfig =
  dial_TLSConfig :: "'tls option"
  dial_Timeout :: int

definition NewDialer :: "('tls DialConfig \<Rightarrow> 'dialer) \<Rightarrow> 'tls option \<Rightarrow> int \<Rightarrow> 'dialer" where
  "NewDialer transport_NewDialer tc td = transport_NewDialer \<lparr>dial_TLSConfig = tc, dial_Timeout = td\<rparr>"

definition NewLauncher :: "('tls option \<Rightarrow> 'launcher) \<Rightarrow> 'tls option \<Rightarrow> 'launcher" where
  "NewLauncher transport_NewLauncher tc = transport_NewLauncher tc"

text \<open>A new publish packet is the one a client sends for an empty message of the lowest quality of service; a new connect packet has the version 3.1.1.\<close>

lemma NewPublish_empty: "fst (publish_packet 0 [] [] 0 False False c) = NewPublish"
  by (simp add: publish_packet_def NewPublish_def zero_message_def)

lemma NewConnect_version: "con_Version NewConnect = Version311"
  by (simp add: NewConnect_def Version311_def)

end
