(* ===== verification/Pki.thy ===== *)
theory Pki
  imports Baetyl_Prelude
begin

text \<open>
  The certificate authority: \<^verbatim>\<open>pki/utils.go\<close> and \<^verbatim>\<open>pki/pki.go\<close>. Key generation, the DER and PEM codecs
  and X.509 signing belong to the crypto packages; they are the fields of \<open>pki_env\<close>, and what
  the code relies on is stated as the predicates \<open>pem_laws\<close>, \<open>key_laws\<close> and \<open>x509_laws\<close>. The dispatch on key types,
  the loop over PEM blocks, the choice of the signature algorithm and the templates are the code's own.
\<close>

section \<open>Keys\<close>

record rsa_PrivateKey =
  rsa_N :: nat
  rsa_E :: nat
  rsa_D :: nat

record ecdsa_PrivateKey =
  ec_Curve :: string
  ec_D :: nat

text \<open>The dynamic type of the \<^verbatim>\<open>interface{}\<close> that holds a key.\<close>

datatype go_key = RsaKey rsa_PrivateKey | EcKey ecdsa_PrivateKey

record PrivateKey =
  KeyType :: string
  KeyVal :: go_key

text \<open>
  \<open>Panic\<close> is a failed type assertion, an index out of range or a nil dereference, \<open>Diverge\<close> a call that
  does not return.
\<close>

datatype pki_error = Panic | Diverge | PkiErr string

type_synonym 'a pki_result = "(pki_error, 'a) result"

definition lift_err :: "(string, 'a) result \<Rightarrow> 'a pki_result" where
  "lift_err r = (case r of Inl e \<Rightarrow> Inl (PkiErr e) | Inr x \<Rightarrow> Inr x)"

definition RsaPrivateKeyBlockType :: string where
  "RsaPrivateKeyBlockType = ''RSA PRIVATE KEY''"

definition EcPrivateKeyBlockType :: string where
  "EcPrivateKeyBlockType = ''EC PRIVATE KEY''"

definition CertificateBlockType :: string where
  "CertificateBlockType = ''CERTIFICATE''"

definition CertificateRequestBlockType :: string where
  "CertificateRequestBlockType = ''CERTIFICATE REQUEST''"

definition DefaultDSA :: string where
  "DefaultDSA = ''P256''"

definition DefaultRSABits :: int where
  "DefaultRSABits = 2048"

lemmas pki_consts [simp] = RsaPrivateKeyBlockType_def EcPrivateKeyBlockType_def CertificateBlockType_def
  CertificateRequestBlockType_def DefaultDSA_def DefaultRSABits_def

section \<open>Certificates and the crypto packages\<close>

record pkix_Name =
  Country :: "string list"
  Organization :: "string list"
  OrganizationalUnit :: "string list"
  Locality :: "string list"
  Province :: "string list"
  StreetAddress :: "string list"
  PostalCode :: "string list"
  CommonName :: string

definition zero_Name :: pkix_Name where
  "zero_Name = \<lparr>Country = [], Organization = [], OrganizationalUnit = [], Locality = [], Province = [],
     StreetAddress = [], PostalCode = [], CommonName = []\<rparr>"

datatype SignatureAlgorithm =
    UnknownSignatureAlgorithm | SHA256WithRSA | SHA384WithRSA | SHA512WithRSA
  | ECDSAWithSHA256 | ECDSAWithSHA384 | ECDSAWithSHA512

datatype KeyUsage = KeyUsageDigitalSignature | KeyUsageKeyEncipherment | KeyUsageCertSign | KeyUsageCRLSign

datatype ExtKeyUsage = ExtKeyUsageServerAuth | ExtKeyUsageClientAuth

record 'pub CertificateRequest =
  csr_Raw :: string
  csr_Subject :: pkix_Name
  csr_EmailAddresses :: "string list"
  csr_IPAddresses :: "string list"
  csr_URIs :: "string list"
  csr_DNSNames :: "string list"
  csr_PublicKey :: 'pub

text \<open>The fields of a certificate that a template sets; times and serial numbers are in nanoseconds.\<close>

record cert_body =
  IsCA :: bool
  SerialNumber :: int
  Subject :: pkix_Name
  NotBefore :: int
  NotAfter :: int
  EmailAddresses :: "string list"
  IPAddresses :: "string list"
  URIs :: "string list"
  DNSNames :: "string list"
  BasicConstraintsValid :: bool
  SignatureAlgorithm :: SignatureAlgorithm
  KeyUsage :: "KeyUsage list"
  ExtKeyUsage :: "ExtKeyUsage list"

record 'pub x509_Certificate =
  Raw :: string
  Body :: cert_body
  Issuer :: pkix_Name
  PublicKey :: "'pub option"

record pem_Block =
  BlockType :: string
  Headers :: "(string \<times> string) list"
  Bytes :: string

text \<open>The first argument of the four randomised functions stands for what \<^verbatim>\<open>rand.Reader\<close> delivers.\<close>

record 'pub pki_env =
  rsa_GenerateKey :: "nat \<Rightarrow> int \<Rightarrow> (string, rsa_PrivateKey) result"
  ecdsa_GenerateKey :: "nat \<Rightarrow> string \<Rightarrow> (string, ecdsa_PrivateKey) result"
  MarshalPKCS1PrivateKey :: "rsa_PrivateKey \<Rightarrow> string"
  MarshalECPrivateKey :: "ecdsa_PrivateKey \<Rightarrow> (string, string) result"
  ParsePKCS1PrivateKey :: "string \<Rightarrow> (string, rsa_PrivateKey) result"
  ParseECPrivateKey :: "string \<Rightarrow> (string, ecdsa_PrivateKey) result"
  pem_Encode :: "pem_Block \<Rightarrow> string"
  pem_Decode :: "string \<Rightarrow> pem_Block option \<times> string"
  x509_ParseCertificate :: "string \<Rightarrow> (string, 'pub x509_Certificate) result"
  CreateCertificateRequest :: "nat \<Rightarrow> 'pub CertificateRequest \<Rightarrow> go_key \<Rightarrow> (string, string) result"
  ParseCertificateRequest :: "string \<Rightarrow> (string, 'pub CertificateRequest) result"
  CreateCertificate ::
    "nat \<Rightarrow> 'pub x509_Certificate \<Rightarrow> 'pub x509_Certificate \<Rightarrow> 'pub \<Rightarrow> go_key \<Rightarrow> (string, string) result"
  AddDays :: "int \<Rightarrow> int \<Rightarrow> int"

section \<open>Key files\<close>

definition ec_key :: "ecdsa_PrivateKey \<Rightarrow> PrivateKey" where
  "ec_key k = \<lparr>KeyType = EcPrivateKeyBlockType, KeyVal = EcKey k\<rparr>"

definition rsa_key :: "rsa_PrivateKey \<Rightarrow> PrivateKey" where
  "rsa_key k = \<lparr>KeyType = RsaPrivateKeyBlockType, KeyVal = RsaKey k\<rparr>"

definition GenCertPrivateKey :: "'pub pki_env \<Rightarrow> nat \<Rightarrow> string \<Rightarrow> int \<Rightarrow> PrivateKey pki_result" where
  "GenCertPrivateKey env seed dsa bits =
     (if dsa = ''rsa'' then rbind (lift_err (rsa_GenerateKey env seed bits)) (Inr \<circ> rsa_key)
      else if dsa \<in> {''P224'', ''P256'', ''P384'', ''P521''}
      then rbind (lift_err (ecdsa_GenerateKey env seed dsa)) (Inr \<circ> ec_key)
      else Inl (PkiErr (''unRecognized digital signature algorithm: '' @ dsa)))"

definition EncodeCertPrivateKey :: "'pub pki_env \<Rightarrow> PrivateKey \<Rightarrow> string pki_result" where
  "EncodeCertPrivateKey env priv =
     (if KeyType priv = RsaPrivateKeyBlockType
      then case KeyVal priv of
             RsaKey k \<Rightarrow> Inr (pem_Encode env \<lparr>BlockType = RsaPrivateKeyBlockType, Headers = [],
               Bytes = MarshalPKCS1PrivateKey env k\<rparr>)
           | EcKey _ \<Rightarrow> Inl Panic
      else if KeyType priv = EcPrivateKeyBlockType
      then case KeyVal priv of
             EcKey k \<Rightarrow>
               (case MarshalECPrivateKey env k of
                  Inl e \<Rightarrow> Inl (PkiErr (''error mashaling ECPrivateKey: '' @ e))
                | Inr b \<Rightarrow> Inr (pem_Encode env \<lparr>BlockType = EcPrivateKeyBlockType, Headers = [], Bytes = b\<rparr>))
           | RsaKey _ \<Rightarrow> Inl Panic
      else Inl (PkiErr ''unRecognized type of PrivateKey''))"

definition ParseCertPrivateKey :: "'pub pki_env \<Rightarrow> string \<Rightarrow> PrivateKey pki_result" where
  "ParseCertPrivateKey env key =
     (case fst (pem_Decode env key) of
        None \<Rightarrow> Inl (PkiErr ''key is not PEM encoded'')
      | Some block \<Rightarrow>
          if BlockType block = EcPrivateKeyBlockType
          then rbind (lift_err (ParseECPrivateKey env (Bytes block))) (Inr \<circ> ec_key)
          else if BlockType block = RsaPrivateKeyBlockType
          then rbind (lift_err (ParsePKCS1PrivateKey env (Bytes block))) (Inr \<circ> rsa_key)
          else Inl (PkiErr (''unsupported block type: '' @ BlockType block)))"

text \<open>\<^verbatim>\<open>big.Int.BitLen\<close> of a natural number.\<close>

fun BitLen :: "nat \<Rightarrow> nat" where
  "BitLen n = (if n = 0 then 0 else Suc (BitLen (n div 2)))"

declare BitLen.simps [simp del]

definition SigAlgorithmType :: "PrivateKey \<Rightarrow> SignatureAlgorithm pki_result" where
  "SigAlgorithmType priv =
     (if KeyType priv = RsaPrivateKeyBlockType
      then case KeyVal priv of
             EcKey _ \<Rightarrow> Inl Panic
           | RsaKey k \<Rightarrow>
               let keySize = BitLen (rsa_N k)
               in Inr (if keySize \<ge> 4096 then SHA512WithRSA
                       else if keySize \<ge> 3072 then SHA384WithRSA else SHA256WithRSA)
      else if KeyType priv = EcPrivateKeyBlockType
      then case KeyVal priv of
             RsaKey _ \<Rightarrow> Inl Panic
           | EcKey k \<Rightarrow>
               let keySize = BitLen (ec_D k) div 8 + 8
               in Inr (if keySize \<ge> 72 then ECDSAWithSHA512
                       else if keySize \<ge> 54 then ECDSAWithSHA384 else ECDSAWithSHA256)
      else Inr UnknownSignatureAlgorithm)"

section \<open>Certificate files\<close>

text \<open>
  \<^verbatim>\<open>ParseCertificates\<close> returns its certificates beside the error. The loop takes the next PEM block
  until none is left; \<open>fuel\<close> bounds the iterations, and a decoder that consumes what it decodes needs no more than
  one per byte.
\<close>

fun ParseCertificates_loop ::
  "'pub pki_env \<Rightarrow> nat \<Rightarrow> string \<Rightarrow> 'pub x509_Certificate list \<Rightarrow> bool \<Rightarrow>
     ('pub x509_Certificate list \<times> string option) option" where
  "ParseCertificates_loop env 0 pemCerts certs ok = None"
| "ParseCertificates_loop env (Suc fuel) pemCerts certs ok =
     (let stop = Some (certs, if ok then None
            else Some ''data does not contain any valid RSA or ECDSA certificates'')
      in if pemCerts = [] then stop
         else case pem_Decode env pemCerts of
                (None, rest) \<Rightarrow> stop
              | (Some block, rest) \<Rightarrow>
                  if BlockType block \<noteq> CertificateBlockType \<or> Headers block \<noteq> []
                  then ParseCertificates_loop env fuel rest certs ok
                  else (case x509_ParseCertificate env (Bytes block) of
                          Inl e \<Rightarrow> Some (certs, Some e)
                        | Inr cert \<Rightarrow> ParseCertificates_loop env fuel rest (certs @ [cert]) True))"

definition ParseCertificates :: "'pub pki_env \<Rightarrow> string \<Rightarrow> ('pub x509_Certificate list \<times> string option) option" where
  "ParseCertificates env pemCerts = ParseCertificates_loop env (Suc (length pemCerts)) pemCerts [] False"

definition certs_result ::
  "('pub x509_Certificate list \<times> string option) option \<Rightarrow> ('pub x509_Certificate list) pki_result" where
  "certs_result r =
     (case r of Some (certs, None) \<Rightarrow> Inr certs | Some (_, Some e) \<Rightarrow> Inl (PkiErr e) | None \<Rightarrow> Inl Diverge)"

definition EncodeCertificates :: "'pub pki_env \<Rightarrow> 'pub x509_Certificate list \<Rightarrow> string" where
  "EncodeCertificates env certs =
     concat (map (\<lambda>c. pem_Encode env \<lparr>BlockType = CertificateBlockType, Headers = [], Bytes = Raw c\<rparr>) certs)"

definition EncodeCertificatesRequest :: "'pub pki_env \<Rightarrow> 'pub CertificateRequest list \<Rightarrow> string" where
  "EncodeCertificatesRequest env csrs =
     concat (map (\<lambda>c. pem_Encode env \<lparr>BlockType = CertificateRequestBlockType, Headers = [], Bytes = csr_Raw c\<rparr>) csrs)"

section \<open>Issuing certificates\<close>

record CertPem =
  Crt :: string
  KeyPem :: string

text \<open>
  \<open>begin\<close> and \<open>now\<close> are the two readings of the clock in each function, \<open>seed\<close> the randomness of its
  three calls. A parent is a pointer that may be nil.
\<close>

definition sub_template ::
  "'pub pki_env \<Rightarrow> 'pub CertificateRequest \<Rightarrow> int \<Rightarrow> int \<Rightarrow> int \<Rightarrow> SignatureAlgorithm \<Rightarrow> 'pub x509_Certificate" where
  "sub_template env csrInfo durationDay begin now alg =
     \<lparr>Raw = [],
      Body = \<lparr>IsCA = False, SerialNumber = now, Subject = csr_Subject csrInfo, NotBefore = begin,
        NotAfter = AddDays env begin durationDay, EmailAddresses = csr_EmailAddresses csrInfo,
        IPAddresses = csr_IPAddresses csrInfo, URIs = csr_URIs csrInfo, DNSNames = csr_DNSNames csrInfo,
        BasicConstraintsValid = True, SignatureAlgorithm = alg,
        KeyUsage = [KeyUsageDigitalSignature, KeyUsageKeyEncipherment],
        ExtKeyUsage = [ExtKeyUsageClientAuth, ExtKeyUsageServerAuth]\<rparr>,
      Issuer = zero_Name, PublicKey = None\<rparr>"

definition CreateSubCert ::
  "'pub pki_env \<Rightarrow> nat \<Rightarrow> int \<Rightarrow> int \<Rightarrow> string \<Rightarrow> int \<Rightarrow> CertPem option \<Rightarrow> string pki_result" where
  "CreateSubCert env seed begin now csr durationDay parent =
     (case parent of
        None \<Rightarrow> Inl Panic
      | Some parent \<Rightarrow>
          rbind (ParseCertPrivateKey env (KeyPem parent)) (\<lambda>caKey.
          rbind (certs_result (ParseCertificates env (Crt parent))) (\<lambda>caCert.
          rbind (lift_err (ParseCertificateRequest env csr)) (\<lambda>csrInfo.
          rbind (SigAlgorithmType caKey) (\<lambda>alg.
          (let certInfo = sub_template env csrInfo durationDay begin now alg
           in case caCert of
                [] \<Rightarrow> Inl Panic
              | ca # _ \<Rightarrow>
                  rbind (lift_err (CreateCertificate env seed certInfo ca (csr_PublicKey csrInfo) (KeyVal caKey)))
                    (\<lambda>cert. Inr (EncodeCertificates env [certInfo\<lparr>Raw := cert\<rparr>]))))))))"

definition CreateSubCertWithKey ::
  "'pub pki_env \<Rightarrow> nat \<Rightarrow> int \<Rightarrow> int \<Rightarrow> 'pub CertificateRequest \<Rightarrow> int \<Rightarrow> CertPem option \<Rightarrow> CertPem pki_result" where
  "CreateSubCertWithKey env seed begin now info durationDay parent =
     rbind (GenCertPrivateKey env seed DefaultDSA DefaultRSABits) (\<lambda>priv.
     rbind (EncodeCertPrivateKey env priv) (\<lambda>privByte.
     rbind (lift_err (CreateCertificateRequest env seed info (KeyVal priv))) (\<lambda>csr.
     rbind (CreateSubCert env seed begin now csr durationDay parent) (\<lambda>crt.
     Inr \<lparr>Crt = crt, KeyPem = privByte\<rparr>))))"

definition root_template ::
  "'pub pki_env \<Rightarrow> 'pub CertificateRequest \<Rightarrow> int \<Rightarrow> int \<Rightarrow> int \<Rightarrow> SignatureAlgorithm \<Rightarrow> 'pub x509_Certificate" where
  "root_template env info durationDay begin now alg =
     \<lparr>Raw = [],
      Body = \<lparr>IsCA = True, SerialNumber = now, Subject = csr_Subject info, NotBefore = begin,
        NotAfter = AddDays env begin durationDay, EmailAddresses = csr_EmailAddresses info,
        IPAddresses = csr_IPAddresses info, URIs = csr_URIs info, DNSNames = csr_DNSNames info,
        BasicConstraintsValid = True, SignatureAlgorithm = alg,
        KeyUsage = [KeyUsageDigitalSignature, KeyUsageCertSign, KeyUsageCRLSign], ExtKeyUsage = []\<rparr>,
      Issuer = zero_Name, PublicKey = None\<rparr>"

text \<open>The key that signs and the certificate it signs for: the new key itself, or the parent's.\<close>

definition root_signer ::
  "'pub pki_env \<Rightarrow> bool \<Rightarrow> PrivateKey \<Rightarrow> CertPem option \<Rightarrow> (SignatureAlgorithm \<Rightarrow> 'pub x509_Certificate) \<Rightarrow>
     (PrivateKey \<times> 'pub x509_Certificate \<times> 'pub x509_Certificate) pki_result" where
  "root_signer env isSelfSigned priv parent template =
     (if isSelfSigned
      then rbind (SigAlgorithmType priv) (\<lambda>alg. Inr (priv, template alg, template alg))
      else case parent of
             None \<Rightarrow> Inl Panic
           | Some parent \<Rightarrow>
               rbind (ParseCertPrivateKey env (KeyPem parent)) (\<lambda>caKey.
               rbind (SigAlgorithmType caKey) (\<lambda>alg.
               rbind (certs_result (ParseCertificates env (Crt parent))) (\<lambda>caCerts.
               case caCerts of [] \<Rightarrow> Inl Panic | ca # _ \<Rightarrow> Inr (caKey, template alg, ca)))))"

definition createRootCert ::
  "'pub pki_env \<Rightarrow> nat \<Rightarrow> int \<Rightarrow> int \<Rightarrow> bool \<Rightarrow> 'pub CertificateRequest \<Rightarrow> int \<Rightarrow> CertPem option \<Rightarrow>
     CertPem pki_result" where
  "createRootCert env seed begin now isSelfSigned info durationDay parent =
     rbind (GenCertPrivateKey env seed DefaultDSA DefaultRSABits) (\<lambda>priv.
     rbind (EncodeCertPrivateKey env priv) (\<lambda>privByte.
     rbind (lift_err (CreateCertificateRequest env seed info (KeyVal priv))) (\<lambda>csr.
     rbind (lift_err (ParseCertificateRequest env csr)) (\<lambda>csrInfo.
     rbind (root_signer env isSelfSigned priv parent (root_template env info durationDay begin now))
       (\<lambda>(caKey, certInfo, caCert).
     rbind (lift_err (CreateCertificate env seed certInfo caCert (csr_PublicKey csrInfo) (KeyVal caKey)))
       (\<lambda>cert. Inr \<lparr>Crt = EncodeCertificates env [certInfo\<lparr>Raw := cert\<rparr>], KeyPem = privByte\<rparr>))))))"

definition CreateSelfSignedRootCert ::
  "'pub pki_env \<Rightarrow> nat \<Rightarrow> int \<Rightarrow> int \<Rightarrow> 'pub CertificateRequest \<Rightarrow> int \<Rightarrow> CertPem pki_result" where
  "CreateSelfSignedRootCert env seed begin now info durationDay =
     createRootCert env seed begin now True info durationDay None"

definition CreateRootCert ::
  "'pub pki_env \<Rightarrow> nat \<Rightarrow> int \<Rightarrow> int \<Rightarrow> 'pub CertificateRequest \<Rightarrow> int \<Rightarrow> CertPem option \<Rightarrow> CertPem pki_result" where
  "CreateRootCert env seed begin now info durationDay parent =
     createRootCert env seed begin now False info durationDay parent"

section \<open>What the code relies on\<close>

text \<open>
  \<open>pem_laws\<close>: decoding an encoded block of one of the four types used here gives the block and what follows it, and
  a decoded block is consumed. \<open>key_laws\<close>: the key codecs invert each other. \<open>x509_laws\<close>, for a function
  \<open>Public\<close> that gives the public half of a key and a signature check: a certificate request
  carries the names asked for and the key of its author; a certificate that could be created parses to the
  template (times cut to seconds) with the given public key and its issuer's name, and is signed by the given key.
\<close>

definition block_types :: "string list" where
  "block_types = [RsaPrivateKeyBlockType, EcPrivateKeyBlockType, CertificateBlockType, CertificateRequestBlockType]"

definition pem_laws :: "'pub pki_env \<Rightarrow> bool" where
  "pem_laws env \<longleftrightarrow>
     (\<forall>b rest. BlockType b \<in> set block_types \<and> Headers b = [] \<longrightarrow>
        pem_Decode env (pem_Encode env b @ rest) = (Some b, rest)) \<and>
     (\<forall>s b rest. pem_Decode env s = (Some b, rest) \<longrightarrow> length rest < length s)"

definition key_laws :: "'pub pki_env \<Rightarrow> bool" where
  "key_laws env \<longleftrightarrow>
     (\<forall>k. ParsePKCS1PrivateKey env (MarshalPKCS1PrivateKey env k) = Inr k) \<and>
     (\<forall>k b. MarshalECPrivateKey env k = Inr b \<longrightarrow> ParseECPrivateKey env b = Inr k)"

definition cut_times :: "cert_body \<Rightarrow> cert_body" where
  "cut_times b = b\<lparr>NotBefore := NotBefore b div 1000000000 * 1000000000,
     NotAfter := NotAfter b div 1000000000 * 1000000000\<rparr>"

definition same_names :: "'pub CertificateRequest \<Rightarrow> 'pub CertificateRequest \<Rightarrow> bool" where
  "same_names a b \<longleftrightarrow> csr_Subject a = csr_Subject b \<and> csr_EmailAddresses a = csr_EmailAddresses b \<and>
     csr_IPAddresses a = csr_IPAddresses b \<and> csr_URIs a = csr_URIs b \<and> csr_DNSNames a = csr_DNSNames b"

definition x509_laws ::
  "'pub pki_env \<Rightarrow> (go_key \<Rightarrow> 'pub) \<Rightarrow> ('pub x509_Certificate \<Rightarrow> 'pub \<Rightarrow> bool) \<Rightarrow> bool" where
  "x509_laws env Public signed_by \<longleftrightarrow>
     (\<forall>seed info k der. CreateCertificateRequest env seed info k = Inr der \<longrightarrow>
        (\<exists>csr. ParseCertificateRequest env der = Inr csr \<and> same_names csr info \<and> csr_PublicKey csr = Public k)) \<and>
     (\<forall>seed t p pub k der. CreateCertificate env seed t p pub k = Inr der \<longrightarrow>
        (\<exists>c. x509_ParseCertificate env der = Inr c \<and> Raw c = der \<and> Body c = cut_times (Body t) \<and>
             Issuer c = Subject (Body p) \<and> PublicKey c = Some pub \<and> signed_by c (Public k)))"

lemma pem_decode:
  "pem_laws env \<Longrightarrow> BlockType b \<in> set block_types \<Longrightarrow> Headers b = [] \<Longrightarrow>
     pem_Decode env (pem_Encode env b @ rest) = (Some b, rest)"
  by (simp add: pem_laws_def)

lemma pem_decode_single:
  "pem_laws env \<Longrightarrow> BlockType b \<in> set block_types \<Longrightarrow> Headers b = [] \<Longrightarrow>
     pem_Decode env (pem_Encode env b) = (Some b, [])"
  using pem_decode [of env b "[]"] by simp

lemma pem_shrinks: "pem_laws env \<Longrightarrow> pem_Decode env s = (Some b, rest) \<Longrightarrow> length rest < length s"
  by (auto simp: pem_laws_def)

lemma lift_err_Inr [simp]: "lift_err r = Inr x \<longleftrightarrow> r = Inr x"
  by (cases r) (simp_all add: lift_err_def)

lemma block_types_mem [simp]:
  "''RSA PRIVATE KEY'' \<in> set block_types" "''EC PRIVATE KEY'' \<in> set block_types"
  "''CERTIFICATE'' \<in> set block_types" "''CERTIFICATE REQUEST'' \<in> set block_types"
  by (simp_all add: block_types_def)

section \<open>The loop over PEM blocks\<close>

lemma ParseCertificates_loop_returns:
  assumes "pem_laws env"
  shows "length s < fuel \<Longrightarrow> \<exists>r. ParseCertificates_loop env fuel s certs ok = Some r"
proof (induction fuel arbitrary: s certs ok)
  case (Suc fuel)
  have "length rest < fuel" if "pem_Decode env s = (Some b, rest)" for b rest
    using pem_shrinks [OF assms that] Suc.prems by simp
  then show ?case
    using Suc.IH by (auto simp: Let_def split: prod.splits option.splits sum.splits)
qed simp

text \<open>Without an error there is at least one certificate, so \<^verbatim>\<open>caCert[0]\<close> is in range.\<close>

lemma ParseCertificates_loop_nonempty:
  "ParseCertificates_loop env fuel s certs ok = Some (cs, None) \<Longrightarrow> (ok \<Longrightarrow> certs \<noteq> []) \<Longrightarrow> cs \<noteq> []"
proof (induction fuel arbitrary: s certs ok)
  case (Suc fuel)
  then show ?case
    by (auto simp: Let_def split: if_splits prod.splits option.splits sum.splits)
qed simp

lemma certs_result_nonempty: "certs_result (ParseCertificates env s) = Inr cs \<Longrightarrow> cs \<noteq> []"
  using ParseCertificates_loop_nonempty [of env _ s "[]" False cs]
  by (auto simp: ParseCertificates_def certs_result_def
      simp del: ParseCertificates_loop.simps split: option.splits)

lemma ParseCertificates_loop_encoded:
  assumes "pem_laws env"
  shows "\<forall>c \<in> set certs. x509_ParseCertificate env (Raw c) = Inr c \<Longrightarrow>
    length (EncodeCertificates env certs) < fuel \<Longrightarrow> ok \<or> certs \<noteq> [] \<Longrightarrow>
    ParseCertificates_loop env fuel (EncodeCertificates env certs) acc ok = Some (acc @ certs, None)"
proof (induction certs arbitrary: acc ok fuel)
  case Nil
  then show ?case by (cases fuel) (auto simp: EncodeCertificates_def)
next
  case (Cons c certs)
  obtain f where fuel: "fuel = Suc f" using Cons.prems(2) by (cases fuel) auto
  let ?b = "\<lparr>BlockType = ''CERTIFICATE'', Headers = [], Bytes = Raw c\<rparr>"
  have enc: "EncodeCertificates env (c # certs) = pem_Encode env ?b @ EncodeCertificates env certs"
    by (simp add: EncodeCertificates_def)
  have dec: "pem_Decode env (EncodeCertificates env (c # certs)) = (Some ?b, EncodeCertificates env certs)"
    unfolding enc by (rule pem_decode [OF assms]) simp_all
  have len: "length (EncodeCertificates env certs) < length (EncodeCertificates env (c # certs))"
    by (rule pem_shrinks [OF assms dec])
  then have "EncodeCertificates env (c # certs) \<noteq> []" by auto
  with dec len Cons.prems Cons.IH [of f True "acc @ [c]"] show ?case
    by (simp add: fuel)
qed

text \<open>
  Certificate files round trip. Writing any non-empty list of certificates as PEM and parsing the text gives
  back exactly these certificates in order, without an error.
\<close>

theorem certificates_roundtrip:
  assumes "pem_laws env" and "certs \<noteq> []"
    and "\<forall>c \<in> set certs. x509_ParseCertificate env (Raw c) = Inr c"
  shows "ParseCertificates env (EncodeCertificates env certs) = Some (certs, None)"
  unfolding ParseCertificates_def
  using ParseCertificates_loop_encoded [OF assms(1,3), of _ False "[]"] assms(2)
  by (simp del: ParseCertificates_loop.simps)

text \<open>Key files round trip, for both kinds of keys.\<close>

lemma key_roundtrip:
  assumes "pem_laws env" "key_laws env" "EncodeCertPrivateKey env k = Inr s"
  shows "ParseCertPrivateKey env s = Inr k"
  using assms(2,3)
  by (cases k)
    (auto simp: EncodeCertPrivateKey_def ParseCertPrivateKey_def key_laws_def lift_err_def ec_key_def
      rsa_key_def pem_decode_single [OF assms(1)] split: if_splits go_key.splits sum.splits)

section \<open>The chain of a certificate authority\<close>

lemma parse_issued:
  assumes "pem_laws env" "x509_ParseCertificate env der = Inr c" "Raw c = der"
  shows "ParseCertificates env (EncodeCertificates env [t\<lparr>Raw := der\<rparr>]) = Some ([c], None)"
proof -
  have "EncodeCertificates env [t\<lparr>Raw := der\<rparr>] = EncodeCertificates env [c]"
    using assms(3) by (simp add: EncodeCertificates_def)
  then show ?thesis
    using ParseCertificates_loop_encoded [OF assms(1), of "[c]" _ False "[]"] assms(2,3)
    by (simp add: ParseCertificates_def del: ParseCertificates_loop.simps)
qed

text \<open>
  \<open>issued env Public pem c k\<close>: the pair of files parses to the certificate \<open>c\<close> and the key \<open>k\<close>, and they
  belong together.
\<close>

definition issued ::
  "'pub pki_env \<Rightarrow> (go_key \<Rightarrow> 'pub) \<Rightarrow> CertPem \<Rightarrow> 'pub x509_Certificate \<Rightarrow> PrivateKey \<Rightarrow> bool" where
  "issued env Public pem c k \<longleftrightarrow>
     ParseCertificates env (Crt pem) = Some ([c], None) \<and> ParseCertPrivateKey env (KeyPem pem) = Inr k \<and>
     PublicKey c = Some (Public (KeyVal k))"

lemma self_signed_issued:
  assumes laws: "pem_laws env" "key_laws env" "x509_laws env Public signed_by"
    and root: "CreateSelfSignedRootCert env seed begin now info days = Inr pem"
  shows "\<exists>c k alg. issued env Public pem c k \<and> SigAlgorithmType k = Inr alg \<and>
     Body c = cut_times (Body (root_template env info days begin now alg)) \<and>
     Issuer c = csr_Subject info \<and> signed_by c (Public (KeyVal k))"
proof -
  obtain k s csr csrInfo alg der where
    k: "EncodeCertPrivateKey env k = Inr s" and
    csr: "CreateCertificateRequest env seed info (KeyVal k) = Inr csr" "ParseCertificateRequest env csr = Inr csrInfo" and
    alg: "SigAlgorithmType k = Inr alg" and
    der: "CreateCertificate env seed (root_template env info days begin now alg)
            (root_template env info days begin now alg) (csr_PublicKey csrInfo) (KeyVal k) = Inr der" and
    pem: "pem = \<lparr>Crt = EncodeCertificates env [(root_template env info days begin now alg)\<lparr>Raw := der\<rparr>], KeyPem = s\<rparr>"
    using root by (auto simp: CreateSelfSignedRootCert_def createRootCert_def root_signer_def rbind_eq_Inr)
  have pub: "csr_PublicKey csrInfo = Public (KeyVal k)"
    using laws(3) csr by (fastforce simp: x509_laws_def)
  obtain c where c: "x509_ParseCertificate env der = Inr c" "Raw c = der"
    "Body c = cut_times (Body (root_template env info days begin now alg))" "Issuer c = csr_Subject info"
    "PublicKey c = Some (Public (KeyVal k))" "signed_by c (Public (KeyVal k))"
    using laws(3) der by (fastforce simp: x509_laws_def pub root_template_def)
  have "issued env Public pem c k"
    using parse_issued [OF laws(1) c(1,2)] key_roundtrip [OF laws(1,2) k] c(5)
    by (simp add: issued_def pem)
  with c alg show ?thesis by blast
qed

lemma sub_cert_issued:
  assumes laws: "pem_laws env" "key_laws env" "x509_laws env Public signed_by"
    and sub: "CreateSubCertWithKey env seed begin now info days (Some parent) = Inr pem"
    and parent: "issued env Public parent ca caKey"
  shows "\<exists>c k alg csr. issued env Public pem c k \<and> same_names csr info \<and>
     Body c = cut_times (Body (sub_template env csr days begin now alg)) \<and> SigAlgorithmType caKey = Inr alg \<and>
     Issuer c = Subject (Body ca) \<and> signed_by c (Public (KeyVal caKey))"
proof -
  have ca: "certs_result (ParseCertificates env (Crt parent)) = Inr [ca]"
    "ParseCertPrivateKey env (KeyPem parent) = Inr caKey"
    using parent by (simp_all add: issued_def certs_result_def)
  obtain k s csr csrInfo alg der where
    k: "EncodeCertPrivateKey env k = Inr s" and
    csr: "CreateCertificateRequest env seed info (KeyVal k) = Inr csr" "ParseCertificateRequest env csr = Inr csrInfo" and
    alg: "SigAlgorithmType caKey = Inr alg" and
    der: "CreateCertificate env seed (sub_template env csrInfo days begin now alg) ca
            (csr_PublicKey csrInfo) (KeyVal caKey) = Inr der" and
    pem: "pem = \<lparr>Crt = EncodeCertificates env [(sub_template env csrInfo days begin now alg)\<lparr>Raw := der\<rparr>], KeyPem = s\<rparr>"
    using sub by (auto simp: CreateSubCertWithKey_def CreateSubCert_def rbind_eq_Inr ca Let_def)
  have pub: "csr_PublicKey csrInfo = Public (KeyVal k)" "same_names csrInfo info"
    using laws(3) csr by (fastforce simp: x509_laws_def)+
  obtain c where c: "x509_ParseCertificate env der = Inr c" "Raw c = der"
    "Body c = cut_times (Body (sub_template env csrInfo days begin now alg))" "Issuer c = Subject (Body ca)"
    "PublicKey c = Some (Public (KeyVal k))" "signed_by c (Public (KeyVal caKey))"
    using laws(3) der by (fastforce simp: x509_laws_def pub)
  have "issued env Public pem c k"
    using parse_issued [OF laws(1) c(1,2)] key_roundtrip [OF laws(1,2) k] c(5)
    by (simp add: issued_def pem)
  with c alg pub show ?thesis by blast
qed


section \<open>The signature algorithm\<close>

lemma BitLen_ge: "m < BitLen n \<longleftrightarrow> 2 ^ m \<le> n"
proof (induction m arbitrary: n)
  case 0
  show ?case by (simp add: BitLen.simps [of n])
next
  case (Suc m)
  show ?case using Suc [of "n div 2"] by (auto simp: BitLen.simps [of n] less_eq_div_iff_mult_less_eq)
qed

text \<open>
  The signature algorithm of an elliptic curve key is chosen by the size of its secret number and not
  by its curve: a key below \<open>2 ^ 511\<close> is never given SHA-512, also when it was generated on P-521, where one key in 1,024 or so is
  that small, and a P-384 key below \<open>2 ^ 367\<close> is given SHA-256.
\<close>

theorem ec_algorithm_by_scalar:
  "SigAlgorithmType (ec_key k) =
     Inr (if 2 ^ 511 \<le> ec_D k then ECDSAWithSHA512
          else if 2 ^ 367 \<le> ec_D k then ECDSAWithSHA384 else ECDSAWithSHA256)"
proof -
  have "72 \<le> BitLen (ec_D k) div 8 + 8 \<longleftrightarrow> 511 < BitLen (ec_D k)"
    "54 \<le> BitLen (ec_D k) div 8 + 8 \<longleftrightarrow> 367 < BitLen (ec_D k)" by linarith+
  then show ?thesis unfolding BitLen_ge by (simp add: SigAlgorithmType_def ec_key_def)
qed

section \<open>An instance of the crypto packages\<close>

text \<open>
  A small instance for the witnesses: blocks are a tag, a length in unary and the bytes; keys are
  numbers; two certificates can be created.
\<close>

definition toy_encode :: "pem_Block \<Rightarrow> string" where
  "toy_encode b =
     (if BlockType b = RsaPrivateKeyBlockType then CHR ''A'' else if BlockType b = EcPrivateKeyBlockType then CHR ''B''
      else if BlockType b = CertificateBlockType then CHR ''C'' else CHR ''D'') #
     replicate (length (Bytes b)) CHR ''x'' @ CHR ''y'' # Bytes b"

definition toy_decode :: "string \<Rightarrow> pem_Block option \<times> string" where
  "toy_decode s =
     (case s of
        [] \<Rightarrow> (None, [])
      | t # r \<Rightarrow>
          let n = length (takeWhile ((=) CHR ''x'') r); r' = drop (Suc n) r
          in (Some \<lparr>BlockType = if t = CHR ''A'' then RsaPrivateKeyBlockType
                else if t = CHR ''B'' then EcPrivateKeyBlockType
                else if t = CHR ''C'' then CertificateBlockType else CertificateRequestBlockType,
              Headers = [], Bytes = take n r'\<rparr>, drop n r'))"

definition toy_pub :: "go_key \<Rightarrow> nat" where
  "toy_pub k = (case k of RsaKey r \<Rightarrow> 0 | EcKey e \<Rightarrow> Suc (ec_D e))"

definition toy_info :: "nat CertificateRequest" where
  "toy_info = \<lparr>csr_Raw = [], csr_Subject = zero_Name\<lparr>OrganizationalUnit := [''BAETYL''], CommonName := ''ca''\<rparr>,
     csr_EmailAddresses = [], csr_IPAddresses = [], csr_URIs = [], csr_DNSNames = [''host''], csr_PublicKey = 0\<rparr>"

definition toy_base :: "nat pki_env" where
  "toy_base =
     \<lparr>rsa_GenerateKey = (\<lambda>_ _. Inl ''none''),
      ecdsa_GenerateKey = (\<lambda>seed c. Inr \<lparr>ec_Curve = c, ec_D = seed\<rparr>),
      MarshalPKCS1PrivateKey = (\<lambda>k. strings_Join [replicate (rsa_N k) CHR ''a'', replicate (rsa_E k) CHR ''a'',
        replicate (rsa_D k) CHR ''a''] ''b''),
      MarshalECPrivateKey = (\<lambda>k. if ec_Curve k = ''P256'' then Inr (replicate (ec_D k) CHR ''a'') else Inl ''curve''),
      ParsePKCS1PrivateKey = (\<lambda>s. case map length (strings_Split CHR ''b'' s) of
        [n, e, d] \<Rightarrow> Inr \<lparr>rsa_N = n, rsa_E = e, rsa_D = d\<rparr> | _ \<Rightarrow> Inl ''malformed''),
      ParseECPrivateKey = (\<lambda>s. Inr \<lparr>ec_Curve = ''P256'', ec_D = length s\<rparr>),
      pem_Encode = toy_encode, pem_Decode = toy_decode,
      x509_ParseCertificate = (\<lambda>s. Inl ''malformed''),
      CreateCertificateRequest = (\<lambda>seed info k. if info = toy_info \<and> k = EcKey \<lparr>ec_Curve = ''P256'', ec_D = seed\<rparr>
        then Inr (replicate seed CHR ''c'') else Inl ''unsupported''),
      ParseCertificateRequest = (\<lambda>s. Inr (toy_info\<lparr>csr_PublicKey := Suc (length s)\<rparr>)),
      CreateCertificate = (\<lambda>_ _ _ _ _. Inl ''unsupported''),
      AddDays = (\<lambda>t d. t + d * 86400000000000)\<rparr>"

definition toy_root :: "nat x509_Certificate" where
  "toy_root = root_template toy_base toy_info 10 0 0 ECDSAWithSHA256"

definition toy_sub :: "nat x509_Certificate" where
  "toy_sub = sub_template toy_base toy_info 5 0 0 ECDSAWithSHA256"

definition toy_cert :: "string \<Rightarrow> nat x509_Certificate \<Rightarrow> nat \<Rightarrow> nat x509_Certificate" where
  "toy_cert raw t p = \<lparr>Raw = raw, Body = cut_times (Body t), Issuer = csr_Subject toy_info, PublicKey = Some p\<rparr>"

definition toy :: "nat pki_env" where
  "toy = toy_base\<lparr>
     x509_ParseCertificate := (\<lambda>s. if s = ''R'' then Inr (toy_cert ''R'' toy_root 2)
       else if s = ''S'' then Inr (toy_cert ''S'' toy_sub 3) else Inl ''malformed''),
     CreateCertificate := (\<lambda>seed t p pub k.
       if k = EcKey \<lparr>ec_Curve = ''P256'', ec_D = 1\<rparr> \<and> Subject (Body p) = csr_Subject toy_info
       then if t = toy_root \<and> pub = 2 then Inr ''R'' else if t = toy_sub \<and> pub = 3 then Inr ''S'' else Inl ''unsupported''
       else Inl ''unsupported'')\<rparr>"

lemma toy_laws:
  "pem_laws toy" "key_laws toy" "x509_laws toy toy_pub (\<lambda>c p. p = 2)"
proof -
  have dec: "toy_decode (toy_encode b @ rest) = (Some b, rest)"
    if "BlockType b \<in> set block_types" "Headers b = []" for b rest
  proof -
    have "takeWhile ((=) CHR ''x'') (replicate (length (Bytes b)) CHR ''x'' @ CHR ''y'' # Bytes b @ rest) =
        replicate (length (Bytes b)) CHR ''x''"
      by (subst takeWhile_append2) auto
    then show ?thesis using that by (cases b) (auto simp: toy_decode_def toy_encode_def block_types_def)
  qed
  have "length rest < length s" if "toy_decode s = (Some b, rest)" for s b rest
    using that by (auto simp: toy_decode_def Let_def split: list.splits)
  with dec show "pem_laws toy"
    by (simp add: pem_laws_def toy_def toy_base_def)
  have "map length (strings_Split CHR ''b'' (strings_Join [replicate n CHR ''a'', replicate e CHR ''a'', replicate d CHR ''a''] ''b''))
      = [n, e, d]" for n e d
    by (subst Split_Join) auto
  then show "key_laws toy" by (auto simp: key_laws_def toy_def toy_base_def split: if_splits)
  show "x509_laws toy toy_pub (\<lambda>c p. p = 2)"
    by (auto simp: x509_laws_def toy_def toy_base_def toy_pub_def toy_cert_def same_names_def split: if_splits)
qed

lemma toy_issues:
  "CreateSelfSignedRootCert toy 1 0 0 toy_info 10 =
     Inr \<lparr>Crt = toy_encode \<lparr>BlockType = CertificateBlockType, Headers = [], Bytes = ''R''\<rparr>, KeyPem = ''Bxya''\<rparr>"
  "is_ok (CreateSubCertWithKey toy 2 0 0 toy_info 5
     (Some \<lparr>Crt = toy_encode \<lparr>BlockType = CertificateBlockType, Headers = [], Bytes = ''R''\<rparr>, KeyPem = ''Bxya''\<rparr>))"
  by code_simp+

theorem certificates_roundtrip_witness:
  "ParseCertificates toy (EncodeCertificates toy [toy_cert ''R'' toy_root 2, toy_cert ''S'' toy_sub 3]) =
     Some ([toy_cert ''R'' toy_root 2, toy_cert ''S'' toy_sub 3], None)"
  by (rule certificates_roundtrip [OF toy_laws(1)]) (simp_all add: toy_def toy_cert_def)


end
