(* ===== verification/Mqtt_Tls.thy ===== *)
theory Mqtt_Tls
  imports Pki
begin

text \<open>
  The common name of the peer of a broker connection (\<^verbatim>\<open>GetTLSCommonName\<close> of \<^verbatim>\<open>mqtt/gomqtt.go\<close>). The connection types of the transport
  package and of the TLS package are data here: which connection lies underneath, and for TLS whether the handshake is complete
  and the certificates the peer sent, its own first.
\<close>

datatype 'pub net_Conn = TlsConn bool "'pub x509_Certificate list" | PlainConn

datatype 'pub Connection = NetConn "'pub net_Conn" | WebSocketConn "'pub net_Conn" | OtherConn

definition inner_conn :: "'pub Connection \<Rightarrow> 'pub net_Conn option" where
  "inner_conn conn = (case conn of NetConn c \<Rightarrow> Some c | WebSocketConn c \<Rightarrow> Some c | OtherConn \<Rightarrow> None)"

definition GetTLSCommonName :: "'pub Connection \<Rightarrow> string \<times> bool" where
  "GetTLSCommonName conn =
     (case inner_conn conn of
        Some (TlsConn handshakeComplete peerCertificates) \<Rightarrow>
          if \<not> handshakeComplete then ([], False)
          else if length peerCertificates = 0 then ([], False)
          else (CommonName (Subject (Body (peerCertificates ! (length peerCertificates - 1)))), True)
      | _ \<Rightarrow> ([], False))"

text \<open>
  The name of the peer. A name is returned exactly for a TLS connection, plain or below a web socket, whose handshake is complete and whose
  peer sent a certificate. For a peer that sent only its own certificate it is the name of that certificate; for a peer
  that sent a chain it is the name in the last certificate, which is that of an issuer and not of the peer.
\<close>

theorem GetTLSCommonName_name:
  "(snd (GetTLSCommonName conn) \<longleftrightarrow> (\<exists>certs. inner_conn conn = Some (TlsConn True certs) \<and> certs \<noteq> [])) \<and>
   GetTLSCommonName (NetConn (TlsConn True [leaf])) = (CommonName (Subject (Body leaf)), True) \<and>
   GetTLSCommonName (NetConn (TlsConn True (leaf # chain @ [ca]))) = (CommonName (Subject (Body ca)), True) \<and>
   GetTLSCommonName (WebSocketConn c) = GetTLSCommonName (NetConn c)"
  by (auto simp: GetTLSCommonName_def inner_conn_def nth_append split: option.splits net_Conn.splits)

end
