(* ===== verification/Native_Ports.thy ===== *)
theory Native_Ports
  imports Baetyl_Prelude
begin

text \<open>
  Port allocation and the service mapping of the native run mode: \<^verbatim>\<open>native/port.go\<close> and
  \<^verbatim>\<open>native/mapping.go\<close>. The allocator probes the ports of its range in a ring; the mapping
  hands out the ports of a service round robin and keeps them in a YAML file.
  What the code takes from its environment is an argument of the model: the probe
  \<^verbatim>\<open>utils.CheckPortAvailable\<close> (indexed by the iteration, since a port may come free between two
  probes), the outcome of \<^verbatim>\<open>context.HostPathLib\<close>, the file system, and the YAML codec.
\<close>

section \<open>PortAllocator\<close>

datatype port_error = InvalidRange int int | NoAvailablePorts int int

record PortAllocator =
  base :: int
  alloc_size :: int
  alloc_offset :: int

definition NewPortAllocator :: "int \<Rightarrow> int \<Rightarrow> (port_error, PortAllocator) result" where
  "NewPortAllocator start end_port =
     (if start < 1024 \<or> 65535 < end_port \<or> end_port \<le> start then Inl (InvalidRange start end_port)
      else Inr \<lparr>base = start, alloc_size = end_port - start + 1, alloc_offset = 0\<rparr>)"

text \<open>
  The loop of \<^verbatim>\<open>Allocate\<close>. The first argument is the number of iterations left,
  \<^verbatim>\<open>p.size - times\<close>; the probe is told the iteration (the source's \<^verbatim>\<open>times\<close>).
\<close>

fun Allocate_loop ::
  "nat \<Rightarrow> nat \<Rightarrow> (nat \<Rightarrow> int \<Rightarrow> bool) \<Rightarrow> PortAllocator \<Rightarrow> (port_error, int) result \<times> PortAllocator"
where
  "Allocate_loop 0 tries avail p =
     (Inl (NoAvailablePorts (base p) (base p + alloc_size p - 1)), p)"
| "Allocate_loop (Suc n) tries avail p =
     (let port = base p + alloc_offset p;
          p' = p\<lparr>alloc_offset := (alloc_offset p + 1) mod alloc_size p\<rparr>
      in if avail tries port then (Inr port, p') else Allocate_loop n (Suc tries) avail p')"

definition Allocate ::
  "(nat \<Rightarrow> int \<Rightarrow> bool) \<Rightarrow> PortAllocator \<Rightarrow> (port_error, int) result \<times> PortAllocator" where
  "Allocate avail p = Allocate_loop (nat (alloc_size p)) 0 avail p"

text \<open>What the constructor establishes and every allocation keeps.\<close>

definition alloc_inv :: "PortAllocator \<Rightarrow> bool" where
  "alloc_inv p \<longleftrightarrow> 1024 \<le> base p \<and> 2 \<le> alloc_size p \<and> base p + alloc_size p - 1 \<le> 65535 \<and>
     0 \<le> alloc_offset p \<and> alloc_offset p < alloc_size p"

lemma NewPortAllocator_inv: "NewPortAllocator s e = Inr p \<Longrightarrow> alloc_inv p"
  by (auto simp: NewPortAllocator_def alloc_inv_def split: if_splits)

definition probed :: "PortAllocator \<Rightarrow> nat \<Rightarrow> int" where
  "probed p k = base p + (alloc_offset p + int k) mod alloc_size p"

lemma probed_step:
  "alloc_inv p \<Longrightarrow> probed (p\<lparr>alloc_offset := (alloc_offset p + 1) mod alloc_size p\<rparr>) k = probed p (Suc k)"
  by (simp add: probed_def mod_simps algebra_simps)

lemma probed_0: "alloc_inv p \<Longrightarrow> probed p 0 = base p + alloc_offset p"
  by (simp add: probed_def alloc_inv_def)

lemma offset_step_inv:
  "alloc_inv p \<Longrightarrow> alloc_inv (p\<lparr>alloc_offset := (alloc_offset p + m) mod alloc_size p\<rparr>)"
  by (auto simp: alloc_inv_def)

text \<open>The loop returns the first probe that succeeds, and the ring offset moves past it.\<close>

lemma Allocate_loop_spec:
  assumes "alloc_inv p"
  shows "Allocate_loop n t avail p =
     (case find (\<lambda>k. avail (t + k) (probed p k)) [0..<n] of
        None \<Rightarrow> (Inl (NoAvailablePorts (base p) (base p + alloc_size p - 1)),
                 p\<lparr>alloc_offset := (alloc_offset p + int n) mod alloc_size p\<rparr>)
      | Some k \<Rightarrow> (Inr (probed p k),
                 p\<lparr>alloc_offset := (alloc_offset p + int (Suc k)) mod alloc_size p\<rparr>))"
  using assms
proof (induction n arbitrary: t p)
  case 0
  then show ?case by (simp add: alloc_inv_def)
next
  case (Suc n)
  let ?p = "p\<lparr>alloc_offset := (alloc_offset p + 1) mod alloc_size p\<rparr>"
  have inv': "alloc_inv ?p" using offset_step_inv [OF Suc.prems] by simp
  have upt: "[0..<Suc n] = 0 # map Suc [0..<n]"
    by (simp add: upt_conv_Cons map_Suc_upt del: upt_Suc)
  have step: "alloc_size ?p = alloc_size p" "base ?p = base p"
    "\<And>m. (alloc_offset ?p + int m) mod alloc_size p = (alloc_offset p + int (Suc m)) mod alloc_size p"
    by (simp_all add: mod_simps algebra_simps)
  note IH = Suc.IH [OF inv', of "Suc t", unfolded probed_step [OF Suc.prems] step]
  show ?case
    unfolding upt Allocate_loop.simps(2) Let_def
    by (cases "find (\<lambda>k. avail (Suc t + k) (probed p (Suc k))) [0..<n]")
      (simp_all add: IH find_map_comp comp_def probed_0 [OF Suc.prems])
qed


lemma in_range_probed:
  assumes "alloc_inv p" and "base p \<le> q" and "q < base p + alloc_size p"
  shows "\<exists>k < nat (alloc_size p). probed p k = q"
proof -
  let ?k = "(q - base p - alloc_offset p) mod alloc_size p"
  have pos: "0 < alloc_size p" using assms(1) by (simp add: alloc_inv_def)
  then have k: "0 \<le> ?k" "?k < alloc_size p" by simp_all
  have "(alloc_offset p + ?k) mod alloc_size p = (q - base p) mod alloc_size p"
    by (simp add: mod_simps)
  also have "\<dots> = q - base p" using assms by simp
  finally have "probed p (nat ?k) = q" using k by (simp add: probed_def)
  moreover have "nat ?k < nat (alloc_size p)" using k by simp
  ultimately show ?thesis by blast
qed

lemma probed_in_range: "alloc_inv p \<Longrightarrow> base p \<le> probed p k \<and> probed p k < base p + alloc_size p"
  by (simp add: probed_def alloc_inv_def)

text \<open>With a probe that does not change, a port is found exactly when the range has one.\<close>

lemma Allocate_stable:
  assumes "alloc_inv p"
  shows "(case Allocate (\<lambda>_. ok) p of
      (Inr port, p') \<Rightarrow> base p \<le> port \<and> port < base p + alloc_size p \<and> ok port \<and> alloc_inv p' \<and>
        base p' = base p \<and> alloc_size p' = alloc_size p
    | (Inl e, p') \<Rightarrow> p' = p \<and> (\<forall>port. base p \<le> port \<and> port < base p + alloc_size p \<longrightarrow> \<not> ok port))"
proof (cases "find (\<lambda>k. ok (probed p k)) [0..<nat (alloc_size p)]")
  case None
  then have "\<not> ok port" if "base p \<le> port" "port < base p + alloc_size p" for port
    using in_range_probed [OF assms that] by (auto simp: find_None_iff)
  moreover have "Allocate (\<lambda>_. ok) p = (Inl (NoAvailablePorts (base p) (base p + alloc_size p - 1)), p)"
    using assms None by (simp add: Allocate_def Allocate_loop_spec alloc_inv_def)
  ultimately show ?thesis by simp
next
  case (Some k)
  then have "ok (probed p k)" by (auto simp: find_Some_iff)
  moreover have "Allocate (\<lambda>_. ok) p = (Inr (probed p k), p\<lparr>alloc_offset := (alloc_offset p + int (Suc k)) mod alloc_size p\<rparr>)"
    using assms Some by (simp add: Allocate_def Allocate_loop_spec)
  ultimately show ?thesis
    using probed_in_range [OF assms] offset_step_inv [OF assms, of "int (Suc k)"] by simp
qed

text \<open>
  C8. \<open>Allocate\<close> on a well-formed allocator: a returned port lies in the configured range and
  its probe succeeded, the ring moves to the port after it; an error is returned exactly when
  every probe failed, each port of the range having been probed once, and then the ring offset
  is where it was. The invariant is kept either way.
\<close>

theorem Allocate_correct:
  assumes "alloc_inv p"
  shows "case Allocate avail p of
      (Inr port, p') \<Rightarrow>
        base p \<le> port \<and> port < base p + alloc_size p \<and>
        (\<exists>k < nat (alloc_size p). port = probed p k \<and> avail k port \<and> (\<forall>j < k. \<not> avail j (probed p j))) \<and>
        alloc_offset p' = (port - base p + 1) mod alloc_size p \<and> alloc_inv p'
    | (Inl e, p') \<Rightarrow>
        e = NoAvailablePorts (base p) (base p + alloc_size p - 1) \<and> p' = p \<and>
        (\<forall>k < nat (alloc_size p). \<not> avail k (probed p k)) \<and>
        (\<forall>q. base p \<le> q \<and> q < base p + alloc_size p \<longrightarrow> (\<exists>k. probed p k = q \<and> \<not> avail k q))"
proof (cases "find (\<lambda>k. avail k (probed p k)) [0..<nat (alloc_size p)]")
  case None
  then have none: "\<forall>k < nat (alloc_size p). \<not> avail k (probed p k)"
    by (auto simp: find_None_iff)
  have "Allocate avail p = (Inl (NoAvailablePorts (base p) (base p + alloc_size p - 1)), p)"
    using assms None by (simp add: Allocate_def Allocate_loop_spec alloc_inv_def)
  moreover have "\<exists>k. probed p k = q \<and> \<not> avail k q" if "base p \<le> q" "q < base p + alloc_size p" for q
    using in_range_probed [OF assms that] none by blast
  ultimately show ?thesis using none by auto
next
  case (Some k)
  then have k: "k < nat (alloc_size p)" "avail k (probed p k)" "\<forall>j < k. \<not> avail j (probed p j)"
    by (auto simp: find_Some_iff)
  have "Allocate avail p = (Inr (probed p k),
      p\<lparr>alloc_offset := (alloc_offset p + int (Suc k)) mod alloc_size p\<rparr>)"
    using assms Some by (simp add: Allocate_def Allocate_loop_spec)
  moreover have "(alloc_offset p + int (Suc k)) mod alloc_size p = (probed p k - base p + 1) mod alloc_size p"
    by (simp add: probed_def mod_simps algebra_simps)
  ultimately show ?thesis
    using k probed_in_range [OF assms] offset_step_inv [OF assms, of "int (Suc k)"] by auto
qed

theorem Allocate_correct_witness:
  "\<exists>p. NewPortAllocator 50010 50011 = Inr p \<and> alloc_inv p \<and>
     fst (Allocate (\<lambda>k q. q = 50011) p) = Inr 50011 \<and>
     Allocate (\<lambda>k q. False) p = (Inl (NoAvailablePorts 50010 50011), p)"
proof -
  let ?p = "\<lparr>base = 50010, alloc_size = 2, alloc_offset = 0\<rparr>"
  have new: "NewPortAllocator 50010 50011 = Inr ?p" by (simp add: NewPortAllocator_def)
  then have inv: "alloc_inv ?p" by (rule NewPortAllocator_inv)
  have "fst (Allocate (\<lambda>k q. q = 50011) ?p) = Inr 50011" by code_simp
  moreover have "Allocate (\<lambda>k q. False) ?p = (Inl (NoAvailablePorts 50010 50011), ?p)"
    using Allocate_correct [OF inv, of "\<lambda>k q. False"] by (auto split: prod.splits sum.splits)
  ultimately show ?thesis using new inv by blast
qed

section \<open>Ports of a service, round robin\<close>

datatype mapping_error =
    PortsEmpty | NoSuchService | NoPortsInfo | IndexPanic | NilPanic
  | HostPathError string | FileMissing string | IOError string | YamlError string | WatchError string

record portsInfo =
  Ports :: "int list"
  offset :: nat

definition portsInfo_Next :: "portsInfo \<Rightarrow> (mapping_error, int) result \<times> portsInfo" where
  "portsInfo_Next i =
     (if Ports i = [] then (Inl PortsEmpty, i)
      else if offset i < length (Ports i) then
        (Inr (Ports i ! offset i), i\<lparr>offset := Suc (offset i) mod length (Ports i)\<rparr>)
      else (Inl IndexPanic, i))"

definition ports_wf :: "portsInfo \<Rightarrow> bool" where
  "ports_wf i \<longleftrightarrow> (Ports i \<noteq> [] \<longrightarrow> offset i < length (Ports i))"

fun ports_run :: "nat \<Rightarrow> portsInfo \<Rightarrow> (mapping_error, int) result list" where
  "ports_run 0 i = []"
| "ports_run (Suc n) i = (let (r, i') = portsInfo_Next i in r # ports_run n i')"

lemma portsInfo_Next_ok:
  "Ports i \<noteq> [] \<Longrightarrow> ports_wf i \<Longrightarrow>
     portsInfo_Next i = (Inr (Ports i ! offset i), i\<lparr>offset := Suc (offset i) mod length (Ports i)\<rparr>)"
  by (simp add: portsInfo_Next_def ports_wf_def)

lemma portsInfo_Next_wf: "ports_wf i \<Longrightarrow> ports_wf (snd (portsInfo_Next i))"
  by (auto simp: portsInfo_Next_def ports_wf_def)

lemma ports_run_round_robin:
  assumes "Ports i \<noteq> []" and "offset i < length (Ports i)"
  shows "ports_run n i =
     map (\<lambda>k. Inr (Ports i ! ((offset i + k) mod length (Ports i)))) [0..<n]"
  using assms
proof (induction n arbitrary: i)
  case (Suc n)
  let ?i = "i\<lparr>offset := Suc (offset i) mod length (Ports i)\<rparr>"
  have "ports_run (Suc n) i = Inr (Ports i ! offset i) # ports_run n ?i"
    using Suc.prems by (simp add: portsInfo_Next_def)
  also have "ports_run n ?i =
      map (\<lambda>k. Inr (Ports i ! ((offset i + Suc k) mod length (Ports i)))) [0..<n]"
    using Suc.IH [of ?i] Suc.prems by (simp add: mod_simps)
  finally show ?case using Suc.prems
    by (simp add: upt_conv_Cons map_Suc_upt [symmetric] comp_def del: upt_Suc)
qed simp

section \<open>ServiceMapping\<close>

text \<open>
  The source's map has pointers as values, and YAML's null decodes to a nil pointer: an entry is
  \<open>Some None\<close> then. \<open>NilPanic\<close> and \<open>IndexPanic\<close> stand for the run-time panics of a nil
  dereference and of an index out of range.
\<close>

type_synonym services = "string \<rightharpoonup> portsInfo option"

record ServiceMapping =
  services :: services
  sm_error :: "mapping_error option"

text \<open>
  The world the mapping reads and writes: the outcome of \<^verbatim>\<open>context.HostPathLib\<close>, the files (a
  path to bytes of type \<open>'b\<close>), and the errors the system calls would return, if any.
\<close>

record 'b world =
  hostPathLib :: "(string, string) result"
  files :: "string \<rightharpoonup> 'b"
  dirExists :: bool
  readErr :: "string option"
  mkdirErr :: "string option"
  writeErr :: "string option"

text \<open>
  The YAML codec is a parameter. \<^verbatim>\<open>Unmarshal\<close> writes into the map it is given, and may have
  done so in part when it returns an error.
\<close>

record 'b yaml_codec =
  yamlMarshal :: "services \<Rightarrow> (string, 'b) result"
  yamlUnmarshal :: "'b \<Rightarrow> services \<Rightarrow> string option \<times> services"

definition ServiceMappingFile :: string where
  "ServiceMappingFile = ''run/services.yml''"

definition mapping_path :: "string \<Rightarrow> string" where
  "mapping_path hostPath = hostPath @ ''/'' @ ServiceMappingFile"

definition ServiceMapping_save ::
  "'b yaml_codec \<Rightarrow> ServiceMapping \<Rightarrow> 'b world \<Rightarrow> (mapping_error, unit) result \<times> 'b world" where
  "ServiceMapping_save Y s w =
     (case hostPathLib w of
        Inl e \<Rightarrow> (Inl (HostPathError e), w)
      | Inr hostPath \<Rightarrow>
          (case yamlMarshal Y (services s) of
             Inl e \<Rightarrow> (Inl (YamlError e), w)
           | Inr data \<Rightarrow>
               (case (if dirExists w then None else mkdirErr w) of
                  Some e \<Rightarrow> (Inl (IOError e), w)
                | None \<Rightarrow>
                    (case writeErr w of
                       Some e \<Rightarrow> (Inl (IOError e), w\<lparr>dirExists := True\<rparr>)
                     | None \<Rightarrow> (Inr (), w\<lparr>dirExists := True, files := (files w)(mapping_path hostPath \<mapsto> data)\<rparr>)))))"

definition ServiceMapping_load ::
  "'b yaml_codec \<Rightarrow> 'b world \<Rightarrow> ServiceMapping \<Rightarrow> (mapping_error, unit) result \<times> ServiceMapping" where
  "ServiceMapping_load Y w s =
     (case hostPathLib w of
        Inl e \<Rightarrow> (Inl (HostPathError e), s)
      | Inr hostPath \<Rightarrow>
          (case files w (mapping_path hostPath) of
             None \<Rightarrow> (Inl (FileMissing (mapping_path hostPath)), s)
           | Some data \<Rightarrow>
               (case readErr w of
                  Some e \<Rightarrow> (Inl (IOError e), s)
                | None \<Rightarrow>
                    (case yamlUnmarshal Y data (services s) of
                       (Some e, svcs) \<Rightarrow> (Inl (YamlError e), s\<lparr>services := svcs\<rparr>)
                     | (None, svcs) \<Rightarrow> (Inr (), s\<lparr>services := svcs\<rparr>)))))"

definition NewServiceMapping ::
  "'b yaml_codec \<Rightarrow> 'b world \<Rightarrow> (mapping_error, ServiceMapping) result \<times> 'b world" where
  "NewServiceMapping Y w =
     (let m = \<lparr>services = Map.empty, sm_error = None\<rparr> in
      case hostPathLib w of
        Inl e \<Rightarrow> (Inl (HostPathError e), w)
      | Inr hostPath \<Rightarrow>
          (if files w (mapping_path hostPath) = None then
             (case ServiceMapping_save Y m w of
                (Inl e, w') \<Rightarrow> (Inl e, w')
              | (Inr _, w') \<Rightarrow> (Inr m, w'))
           else (Inr m, w)))"

definition SetServicePorts ::
  "'b yaml_codec \<Rightarrow> string \<Rightarrow> int list \<Rightarrow> ServiceMapping \<Rightarrow> 'b world \<Rightarrow>
     (mapping_error, unit) result \<times> ServiceMapping \<times> 'b world" where
  "SetServicePorts Y name ports s w =
     (let s' = s\<lparr>services := (services s)(name \<mapsto> Some \<lparr>Ports = ports, offset = 0\<rparr>)\<rparr>;
          (r, w') = ServiceMapping_save Y s' w
      in (r, s', w'))"

definition DeleteServicePorts ::
  "'b yaml_codec \<Rightarrow> string \<Rightarrow> ServiceMapping \<Rightarrow> 'b world \<Rightarrow>
     (mapping_error, unit) result \<times> ServiceMapping \<times> 'b world" where
  "DeleteServicePorts Y name s w =
     (case services s name of
        None \<Rightarrow> (Inr (), s, w)
      | Some _ \<Rightarrow>
          (let s' = s\<lparr>services := (services s)(name := None)\<rparr>;
               (r, w') = ServiceMapping_save Y s' w
           in (r, s', w')))"

definition GetServiceNextPort ::
  "string \<Rightarrow> ServiceMapping \<Rightarrow> (mapping_error, int) result \<times> ServiceMapping" where
  "GetServiceNextPort name s =
     (case sm_error s of
        Some e \<Rightarrow> (Inl e, s)
      | None \<Rightarrow>
          (case services s name of
             None \<Rightarrow> (Inl NoSuchService, s)
           | Some None \<Rightarrow> (Inl NilPanic, s)
           | Some (Some info) \<Rightarrow>
               (if Ports info = [] then (Inl NoPortsInfo, s)
                else (let (r, info') = portsInfo_Next info
                      in (r, s\<lparr>services := (services s)(name \<mapsto> Some info')\<rparr>)))))"

text \<open>
  \<^verbatim>\<open>WatchFile\<close>: the goroutine's reaction to one event of the watcher. A write reloads the file
  under the lock, keeping the error of a failed reload; any other operation is ignored; an
  error of the watcher is kept and ends the goroutine (\<open>False\<close>), as does a closed channel or
  the death of the tomb.
\<close>

datatype watch_event = FileWritten | OtherFileOp | WatcherError string | WatcherClosed | TombDying

fun watch_step ::
  "'b yaml_codec \<Rightarrow> 'b world \<Rightarrow> watch_event \<Rightarrow> ServiceMapping \<Rightarrow> bool \<times> ServiceMapping" where
  "watch_step Y w FileWritten s =
     (case ServiceMapping_load Y w s of
        (Inl e, s') \<Rightarrow> (True, s'\<lparr>sm_error := Some e\<rparr>)
      | (Inr _, s') \<Rightarrow> (True, s'))"
| "watch_step Y w OtherFileOp s = (True, s)"
| "watch_step Y w (WatcherError e) s = (False, s\<lparr>sm_error := Some (WatchError e)\<rparr>)"
| "watch_step Y w WatcherClosed s = (False, s)"
| "watch_step Y w TombDying s = (False, s)"

text \<open>The synchronous tail of \<^verbatim>\<open>WatchFile\<close>: the initial load once the watcher is installed.\<close>

definition WatchFile ::
  "'b yaml_codec \<Rightarrow> 'b world \<Rightarrow> string option \<Rightarrow> string option \<Rightarrow> ServiceMapping \<Rightarrow>
     (mapping_error, unit) result \<times> ServiceMapping" where
  "WatchFile Y w newWatcherErr addErr s =
     (case hostPathLib w of
        Inl e \<Rightarrow> (Inl (HostPathError e), s)
      | Inr _ \<Rightarrow>
          (case newWatcherErr of
             Some e \<Rightarrow> (Inl (WatchError e), s)
           | None \<Rightarrow>
               (case addErr of
                  Some e \<Rightarrow> (Inl (WatchError e), s)
                | None \<Rightarrow> ServiceMapping_load Y w s)))"

text \<open>
  The operations as labelled steps, each one atomic under the mapping's lock. Between them the
  rest of the system may do anything to the files (\<open>OpExternal\<close>).
\<close>

datatype mapping_op =
    OpSet string "int list" | OpDelete string | OpGet string | OpWatch watch_event | OpExternal

inductive mapping_step ::
  "'b yaml_codec \<Rightarrow> ServiceMapping \<times> 'b world \<Rightarrow> mapping_op \<Rightarrow> ServiceMapping \<times> 'b world \<Rightarrow> bool"
  for Y :: "'b yaml_codec"
where
  set_ports: "SetServicePorts Y n ps s w = (r, s', w') \<Longrightarrow> mapping_step Y (s, w) (OpSet n ps) (s', w')"
| delete_ports: "DeleteServicePorts Y n s w = (r, s', w') \<Longrightarrow> mapping_step Y (s, w) (OpDelete n) (s', w')"
| get_port: "GetServiceNextPort n s = (r, s') \<Longrightarrow> mapping_step Y (s, w) (OpGet n) (s', w)"
| watch: "watch_step Y w ev s = (b, s') \<Longrightarrow> mapping_step Y (s, w) (OpWatch ev) (s', w)"
| external: "mapping_step Y (s, w) OpExternal (s, w')"

inductive_cases mapping_stepE: "mapping_step Y sw op sw'"

inductive mapping_steps ::
  "'b yaml_codec \<Rightarrow> ServiceMapping \<times> 'b world \<Rightarrow> ServiceMapping \<times> 'b world \<Rightarrow> bool"
  for Y :: "'b yaml_codec"
where
  steps_refl: "mapping_steps Y sw sw"
| steps_step: "mapping_steps Y sw sw' \<Longrightarrow> mapping_step Y sw' op sw'' \<Longrightarrow> mapping_steps Y sw sw''"

section \<open>Properties of the service mapping\<close>

definition mapping_inv :: "ServiceMapping \<Rightarrow> bool" where
  "mapping_inv s \<longleftrightarrow> (\<forall>n i. services s n = Some (Some i) \<longrightarrow> ports_wf i) \<and> sm_error s \<noteq> Some IndexPanic"

text \<open>
  The one law of the decoder the invariant needs: an entry it leaves behind is the old one, a
  nil pointer, or a fresh struct, whose unexported \<^verbatim>\<open>offset\<close> is zero.
\<close>

definition yaml_fresh :: "'b yaml_codec \<Rightarrow> bool" where
  "yaml_fresh Y \<longleftrightarrow> (\<forall>d old n i. snd (yamlUnmarshal Y d old) n = Some (Some i) \<longrightarrow>
     old n = Some (Some i) \<or> offset i = 0)"

lemma ports_wf_offset_0: "offset i = 0 \<Longrightarrow> ports_wf i"
  by (simp add: ports_wf_def)

lemma load_inv: "yaml_fresh Y \<Longrightarrow> mapping_inv s \<Longrightarrow> mapping_inv (snd (ServiceMapping_load Y w s))"
proof -
  assume Y: "yaml_fresh Y" and s: "mapping_inv s"
  have "mapping_inv (s\<lparr>services := snd (yamlUnmarshal Y d (services s))\<rparr>)" for d
    using Y s ports_wf_offset_0 unfolding mapping_inv_def yaml_fresh_def by simp blast
  then show ?thesis using s
    by (auto simp: ServiceMapping_load_def split: sum.splits option.splits prod.splits)
      (metis snd_conv)+
qed

lemma load_error: "fst (ServiceMapping_load Y w s) \<noteq> Inl IndexPanic"
  by (auto simp: ServiceMapping_load_def split: sum.splits option.splits prod.splits)

lemma Get_inv: "mapping_inv s \<Longrightarrow> mapping_inv (snd (GetServiceNextPort n s))"
  using portsInfo_Next_wf
  by (fastforce simp: GetServiceNextPort_def mapping_inv_def split: option.splits prod.splits)

lemma Set_inv:
  "mapping_inv s \<Longrightarrow> SetServicePorts Y n ps s w = (r, s', w') \<Longrightarrow> mapping_inv s'"
  by (auto simp: SetServicePorts_def mapping_inv_def ports_wf_def Let_def split: prod.splits if_splits)

lemma Delete_inv:
  "mapping_inv s \<Longrightarrow> DeleteServicePorts Y n s w = (r, s', w') \<Longrightarrow> mapping_inv s'"
  by (auto simp: DeleteServicePorts_def mapping_inv_def Let_def split: prod.splits if_splits option.splits)

lemma watch_inv:
  "yaml_fresh Y \<Longrightarrow> mapping_inv s \<Longrightarrow> mapping_inv (snd (watch_step Y w ev s))"
  using load_inv [of Y s w] load_error [of Y w s]
  by (cases ev) (auto simp: mapping_inv_def split: prod.splits sum.splits)

lemma mapping_step_inv:
  assumes "mapping_step Y sw op sw'" "yaml_fresh Y" "mapping_inv (fst sw)"
  shows "mapping_inv (fst sw')"
  using assms
  by (cases rule: mapping_step.cases)
    (auto dest: Set_inv Delete_inv, (metis Get_inv snd_conv, metis watch_inv snd_conv)?)

lemma mapping_steps_inv:
  "mapping_steps Y sw sw' \<Longrightarrow> yaml_fresh Y \<Longrightarrow> mapping_inv (fst sw) \<Longrightarrow> mapping_inv (fst sw')"
  by (induction rule: mapping_steps.induct) (auto intro: mapping_step_inv)

lemma Get_no_index_panic: "mapping_inv s \<Longrightarrow> fst (GetServiceNextPort n s) \<noteq> Inl IndexPanic"
  by (auto simp: GetServiceNextPort_def mapping_inv_def portsInfo_Next_def ports_wf_def
      split: option.splits prod.splits if_splits)

text \<open>
  C22. From a mapping made by \<open>NewServiceMapping\<close>, through any interleaving of sets, deletes,
  gets, watcher events and outside changes to the files, the round-robin offset of every
  service stays inside its port list: \<open>GetServiceNextPort\<close> never indexes out of range. The
  hypothesis on the YAML decoder is that a struct it allocates has a zero unexported field.
\<close>

theorem mapping_never_out_of_range:
  assumes "yaml_fresh Y" and "NewServiceMapping Y w = (Inr m, w')" and "mapping_steps Y (m, w') (s, w'')"
  shows "mapping_inv s \<and> fst (GetServiceNextPort n s) \<noteq> Inl IndexPanic"
proof -
  have "mapping_inv m" using assms(2)
    by (auto simp: NewServiceMapping_def mapping_inv_def Let_def split: sum.splits if_splits prod.splits)
  with assms have "mapping_inv s" using mapping_steps_inv by fastforce
  then show ?thesis by (simp add: Get_no_index_panic)
qed

text \<open>
  A codec that satisfies the laws, for the witnesses: the file holds the port lists of the map
  itself, decoding overlays them on the target.
\<close>

definition demo_codec :: "(string \<rightharpoonup> int list option) yaml_codec" where
  "demo_codec = \<lparr>yamlMarshal = (\<lambda>m. Inr (\<lambda>n. map_option (map_option Ports) (m n))),
     yamlUnmarshal = (\<lambda>d old. (None, old ++ (\<lambda>n. map_option (map_option (\<lambda>p. \<lparr>Ports = p, offset = 0\<rparr>)) (d n))))\<rparr>"

definition demo_world :: "(string \<rightharpoonup> int list option) world" where
  "demo_world = \<lparr>hostPathLib = Inr ''/var/lib/baetyl'', files = Map.empty, dirExists = False,
     readErr = None, mkdirErr = None, writeErr = None\<rparr>"

lemma demo_codec_fresh: "yaml_fresh demo_codec"
  by (auto simp: yaml_fresh_def demo_codec_def map_add_def split: option.splits)

theorem mapping_never_out_of_range_witness:
  "\<exists>m w' s w''. NewServiceMapping demo_codec demo_world = (Inr m, w') \<and>
     mapping_steps demo_codec (m, w') (s, w'') \<and> dom (services s) = {''core''} \<and>
     fst (GetServiceNextPort ''core'' s) \<noteq> Inl IndexPanic"
proof -
  let ?m = "\<lparr>services = Map.empty, sm_error = None\<rparr>"
  obtain w' where new: "NewServiceMapping demo_codec demo_world = (Inr ?m, w')"
    by (simp add: NewServiceMapping_def demo_world_def demo_codec_def ServiceMapping_save_def)
  obtain r s w'' where set: "SetServicePorts demo_codec ''core'' [50010, 50011] ?m w' = (r, s, w'')"
    by (metis prod_cases3)
  then have dom: "dom (services s) = {''core''}"
    by (auto simp: SetServicePorts_def Let_def split: prod.splits if_splits)
  have steps: "mapping_steps demo_codec (?m, w') (s, w'')"
    using set by (meson set_ports steps_refl steps_step)
  show ?thesis
    using mapping_never_out_of_range [OF demo_codec_fresh new steps, of "''core''"] new steps dom by blast
qed

text \<open>\<open>n\<close> calls of \<open>GetServiceNextPort\<close> in a row.\<close>

fun get_run :: "nat \<Rightarrow> string \<Rightarrow> ServiceMapping \<Rightarrow> (mapping_error, int) result list" where
  "get_run 0 name s = []"
| "get_run (Suc n) name s = (let (r, s') = GetServiceNextPort name s in r # get_run n name s')"

lemma get_run_ports_run:
  assumes "sm_error s = None" "services s name = Some (Some i)" "Ports i \<noteq> []" "ports_wf i"
  shows "get_run n name s = ports_run n i"
  using assms
proof (induction n arbitrary: s i)
  case (Suc n)
  let ?i = "i\<lparr>offset := Suc (offset i) mod length (Ports i)\<rparr>"
  have "ports_wf ?i" using Suc.prems by (simp add: ports_wf_def)
  with Suc show ?case by (simp add: GetServiceNextPort_def portsInfo_Next_ok)
qed simp

text \<open>
  After \<open>SetServicePorts\<close> with a non-empty list, and with no watcher error recorded, successive
  calls of \<open>GetServiceNextPort\<close> return the ports in order, wrapping around for ever, whatever
  the outcome of writing the file; every other service is untouched.
\<close>

theorem Set_then_round_robin:
  assumes "sm_error s = None" and "ports \<noteq> []" and "SetServicePorts Y name ports s w = (r, s', w')"
  shows "get_run n name s' = map (\<lambda>k. Inr (ports ! (k mod length ports))) [0..<n] \<and>
     (\<forall>m. m \<noteq> name \<longrightarrow> services s' m = services s m)"
proof -
  have s': "sm_error s' = None" "services s' = (services s)(name \<mapsto> Some \<lparr>Ports = ports, offset = 0\<rparr>)"
    using assms by (auto simp: SetServicePorts_def Let_def split: prod.splits)
  let ?i = "\<lparr>Ports = ports, offset = 0\<rparr>"
  have "get_run n name s' = ports_run n ?i"
    using s' assms(2) by (intro get_run_ports_run) (simp_all add: ports_wf_def)
  then show ?thesis using s' assms(2) ports_run_round_robin [of ?i n] by simp
qed

theorem Set_then_round_robin_witness:
  "\<exists>r s' w'. SetServicePorts demo_codec ''core'' [50010, 50011] \<lparr>services = Map.empty, sm_error = None\<rparr>
      demo_world = (r, s', w') \<and> get_run 3 ''core'' s' = [Inr 50010, Inr 50011, Inr 50010]"
proof -
  obtain r s' w' where set: "SetServicePorts demo_codec ''core'' [50010, 50011]
      \<lparr>services = Map.empty, sm_error = None\<rparr> demo_world = (r, s', w')" by (metis prod_cases3)
  show ?thesis using Set_then_round_robin [OF _ _ set, of 3] set by (simp add: upt_rec)
qed

text \<open>
  The laws of the codec for two processes that share the file: every map can be written, and
  decoding it overlays the port lists, with the offset of a fresh struct, on the target map
  (\<^verbatim>\<open>yaml.Unmarshal\<close> into a non-nil map keeps the entries the document does not mention).
\<close>

definition fresh_entry :: "portsInfo option \<Rightarrow> portsInfo option" where
  "fresh_entry e = map_option (\<lambda>i. \<lparr>Ports = Ports i, offset = 0\<rparr>) e"

definition yaml_overlays :: "'b yaml_codec \<Rightarrow> bool" where
  "yaml_overlays Y \<longleftrightarrow> (\<forall>m. \<exists>d. yamlMarshal Y m = Inr d \<and>
     (\<forall>old. yamlUnmarshal Y d old = (None, old ++ (\<lambda>n. map_option fresh_entry (m n)))))"

lemma save_load:
  assumes "yaml_overlays Y" and "ServiceMapping_save Y s w = (Inr (), w')" and "readErr w' = None"
  shows "ServiceMapping_load Y w' t =
     (Inr (), t\<lparr>services := services t ++ (\<lambda>n. map_option fresh_entry (services s n))\<rparr>)"
proof -
  obtain d where d: "yamlMarshal Y (services s) = Inr d"
    "\<And>old. yamlUnmarshal Y d old = (None, old ++ (\<lambda>n. map_option fresh_entry (services s n)))"
    using assms(1) unfolding yaml_overlays_def by metis
  from assms(2,3) d show ?thesis
    by (auto simp: ServiceMapping_save_def ServiceMapping_load_def split: sum.splits option.splits if_splits)
qed


lemma demo_codec_overlays: "yaml_overlays demo_codec"
  by (auto simp: yaml_overlays_def demo_codec_def fresh_entry_def [abs_def] option.map_comp comp_def)


text \<open>
  A deletion is not published: the reader's reload overlays the file on its own map, so
  a service that was deleted by another process is still served, at the same ports and offset.
\<close>

theorem Delete_is_not_published:
  assumes "yaml_overlays Y" and "services s name \<noteq> None"
    and "DeleteServicePorts Y name s w = (Inr (), s', w')"
    and "readErr w' = None" and "watch_step Y w' FileWritten t = (b, t')"
  shows "services s' name = None \<and> services t' name = services t name"
proof -
  let ?s = "s\<lparr>services := (services s)(name := None)\<rparr>"
  have s': "s' = ?s" and save: "ServiceMapping_save Y ?s w = (Inr (), w')"
    using assms(2,3) by (auto simp: DeleteServicePorts_def Let_def split: prod.splits option.splits)
  show ?thesis using assms(5)
    by (auto simp: s' save_load [OF assms(1) save assms(4)] map_add_def)
qed

theorem Delete_is_not_published_witness:
  "\<exists>s s' w' b t'. services s ''core'' \<noteq> None \<and>
     DeleteServicePorts demo_codec ''core'' s demo_world = (Inr (), s', w') \<and>
     watch_step demo_codec w' FileWritten s = (b, t') \<and>
     services s' ''core'' = None \<and> services t' ''core'' = Some (Some \<lparr>Ports = [50010], offset = 0\<rparr>)"
proof -
  let ?s = "\<lparr>services = [''core'' \<mapsto> Some \<lparr>Ports = [50010], offset = 0\<rparr>], sm_error = None\<rparr>"
  obtain s' w' where del: "DeleteServicePorts demo_codec ''core'' ?s demo_world = (Inr (), s', w')"
    and re: "readErr w' = None"
    by (simp add: DeleteServicePorts_def ServiceMapping_save_def demo_codec_def demo_world_def)
  obtain b t' where watch: "watch_step demo_codec w' FileWritten ?s = (b, t')" by fastforce
  have "services ?s ''core'' \<noteq> None" by simp
  from Delete_is_not_published [OF demo_codec_overlays this del re watch] this del watch show ?thesis
    by (intro exI [of _ ?s] exI [of _ s'] exI [of _ w'] exI [of _ b] exI [of _ t']) simp
qed

lemma step_sticky:
  "mapping_step Y sw op sw' \<Longrightarrow> sm_error (fst sw) \<noteq> None \<Longrightarrow> sm_error (fst sw') \<noteq> None"
  by (cases rule: mapping_step.cases, assumption)
    (auto simp: SetServicePorts_def DeleteServicePorts_def GetServiceNextPort_def Let_def
      ServiceMapping_load_def
      elim!: watch_step.elims split: prod.splits option.splits sum.splits if_splits)

text \<open>
  An error of the watcher is final: once a failed reload has recorded an error, no later
  step clears it, not even a successful reload or \<open>SetServicePorts\<close>, so
  \<open>GetServiceNextPort\<close> fails for every service from then on.
\<close>

theorem watcher_error_is_sticky:
  assumes "mapping_steps Y (s, w) (s', w')" and "sm_error s \<noteq> None"
  shows "\<exists>e. GetServiceNextPort n s' = (Inl e, s')"
proof -
  have "sm_error (fst sw') \<noteq> None"
    if "mapping_steps Y sw sw'" "sm_error (fst sw) \<noteq> None" for sw sw' :: "ServiceMapping \<times> 'a world"
    using that by (induction rule: mapping_steps.induct) (auto dest: step_sticky)
  from this [OF assms(1)] assms(2) show ?thesis by (auto simp: GetServiceNextPort_def)
qed

theorem watcher_error_is_sticky_witness:
  "\<exists>s w s' w'. sm_error s = Some (FileMissing ''services.yml'') \<and>
     SetServicePorts demo_codec ''core'' [50010] s w = (Inr (), s', w') \<and>
     fst (GetServiceNextPort ''core'' s') \<noteq> Inr 50010"
proof -
  let ?s = "\<lparr>services = Map.empty, sm_error = Some (FileMissing ''services.yml'')\<rparr>"
  obtain s' w' where set: "SetServicePorts demo_codec ''core'' [50010] ?s demo_world = (Inr (), s', w')"
    by (simp add: SetServicePorts_def ServiceMapping_save_def demo_codec_def demo_world_def)
  then have "mapping_steps demo_codec (?s, demo_world) (s', w')" by (meson set_ports steps_refl steps_step)
  from watcher_error_is_sticky [OF this, of "''core''"] set show ?thesis
    by (intro exI [of _ ?s] exI [of _ demo_world] exI [of _ s'] exI [of _ w']) auto
qed

end
