(* ===== verification/Native_Watch.thy ===== *)
theory Native_Watch
  imports Native_Ports
begin

text \<open>
  The watching goroutines of the service mapping under its tomb (\<^verbatim>\<open>WatchFile\<close> and \<^verbatim>\<open>Close\<close> of \<^verbatim>\<open>native/mapping.go\<close>, \<^verbatim>\<open>utils/tomb.go\<close>): each call of
  \<^verbatim>\<open>WatchFile\<close> opens a watcher and starts a goroutine that closes it when it returns; \<^verbatim>\<open>Close\<close> kills the tomb and waits for the goroutines.
\<close>

section \<open>The mapping with its goroutines\<close>

text \<open>
  \<open>running\<close> counts the goroutines, \<open>open_watchers\<close> the watchers that are open. The tomb is \<open>dead\<close> when its last goroutine has returned, and starts none afterwards: its
  panic is turned into an error by the wrapper, which \<^verbatim>\<open>WatchFile\<close> does not look at. \<open>started\<close> is the state of the wrapper, \<open>closed\<close> says that a call of \<^verbatim>\<open>Close\<close> has returned.
\<close>

record watched =
  wmap :: ServiceMapping
  running :: nat
  open_watchers :: nat
  started :: bool
  killed :: bool
  dead :: bool
  closed :: bool

definition new_watched :: "ServiceMapping \<Rightarrow> watched" where
  "new_watched m = \<lparr>wmap = m, running = 0, open_watchers = 0, started = False, killed = False, dead = False, closed = False\<rparr>"

text \<open>\<^verbatim>\<open>s.tomb.Go\<close> with the goroutine of the watcher.\<close>

definition tomb_Go :: "watched \<Rightarrow> watched" where
  "tomb_Go s = (if dead s then s\<lparr>started := True\<rparr> else s\<lparr>started := True, running := Suc (running s)\<rparr>)"

definition WatchFile_call ::
  "'b yaml_codec \<Rightarrow> 'b world \<Rightarrow> string option \<Rightarrow> string option \<Rightarrow> watched \<Rightarrow> (mapping_error, unit) result \<times> watched" where
  "WatchFile_call Y w newWatcherErr addErr s =
     (let (r, m) = WatchFile Y w newWatcherErr addErr (wmap s)
      in case (hostPathLib w, newWatcherErr) of
           (Inr _, None) \<Rightarrow> (r, tomb_Go (s\<lparr>wmap := m, open_watchers := Suc (open_watchers s)\<rparr>))
         | _ \<Rightarrow> (r, s\<lparr>wmap := m\<rparr>))"

text \<open>One event in one of the goroutines; when it returns, its watcher is closed. \<open>None\<close>: not possible.\<close>

definition goroutine_step :: "'b yaml_codec \<Rightarrow> 'b world \<Rightarrow> watch_event \<Rightarrow> watched \<Rightarrow> watched option" where
  "goroutine_step Y w ev s =
     (if running s = 0 \<or> ev = TombDying \<and> \<not> killed s then None
      else case watch_step Y w ev (wmap s) of
             (True, m) \<Rightarrow> Some (s\<lparr>wmap := m\<rparr>)
           | (False, m) \<Rightarrow>
               Some (s\<lparr>wmap := m, running := running s - 1, open_watchers := open_watchers s - 1, dead := (running s = 1)\<rparr>))"

definition mapping_Kill :: "watched \<Rightarrow> watched" where
  "mapping_Kill s = s\<lparr>killed := True\<rparr>"

text \<open>\<^verbatim>\<open>s.tomb.Wait()\<close> returns when nothing was started or the tomb is dead; otherwise it is not possible yet.\<close>

definition mapping_Wait :: "watched \<Rightarrow> watched option" where
  "mapping_Wait s = (if \<not> started s \<or> dead s then Some (s\<lparr>closed := True\<rparr>) else None)"

datatype watched_event = WWatch "string option" "string option" | WGoroutine watch_event | WKill | WWait

fun watched_step :: "'b yaml_codec \<Rightarrow> 'b world \<Rightarrow> watched \<Rightarrow> watched_event \<Rightarrow> watched option" where
  "watched_step Y w s (WWatch newErr addErr) = Some (snd (WatchFile_call Y w newErr addErr s))"
| "watched_step Y w s (WGoroutine ev) = goroutine_step Y w ev s"
| "watched_step Y w s WKill = Some (mapping_Kill s)"
| "watched_step Y w s WWait = (if killed s then mapping_Wait s else None)"

text \<open>\<^verbatim>\<open>Close\<close>, with the events of the goroutines while it waits.\<close>

fun mapping_Close :: "'b yaml_codec \<Rightarrow> 'b world \<Rightarrow> watch_event list \<Rightarrow> watched \<Rightarrow> watched option" where
  "mapping_Close Y w [] s = mapping_Wait (mapping_Kill s)"
| "mapping_Close Y w (ev # evs) s = (case goroutine_step Y w ev (mapping_Kill s) of None \<Rightarrow> None | Some s' \<Rightarrow> mapping_Close Y w evs s')"

section \<open>Invariant\<close>

text \<open>
  Until the tomb is dead every goroutine has its watcher, and there is one once something was started; a dead tomb has no goroutine. \<^verbatim>\<open>Close\<close> has returned only if the tomb was killed.
\<close>

definition watched_inv :: "watched \<Rightarrow> bool" where
  "watched_inv s \<longleftrightarrow> (dead s \<longrightarrow> running s = 0 \<and> started s) \<and>
     (\<not> dead s \<longrightarrow> open_watchers s = running s \<and> (started s \<longleftrightarrow> 0 < running s)) \<and> (closed s \<longrightarrow> killed s)"

lemma goroutine_cases:
  assumes "goroutine_step Y w ev s = Some s'"
  obtains m where "0 < running s" "s' = s\<lparr>wmap := m\<rparr>"
  | m where "0 < running s"
      "s' = s\<lparr>wmap := m, running := running s - 1, open_watchers := open_watchers s - 1, dead := (running s = 1)\<rparr>"
proof -
  obtain b m where "watch_step Y w ev (wmap s) = (b, m)" by fastforce
  with assms that show ?thesis by (cases b) (auto simp: goroutine_step_def split: if_splits)
qed

lemma goroutine_inv:
  assumes "watched_inv s" "goroutine_step Y w ev s = Some s'"
  shows "watched_inv s'"
  using assms(2) by (cases rule: goroutine_cases) (use assms(1) in \<open>cases "running s = 1"; force simp: watched_inv_def\<close>)+

lemma watch_call_inv:
  assumes "watched_inv s"
  shows "watched_inv (snd (WatchFile_call Y w newErr addErr s))"
proof -
  obtain r m where r: "WatchFile Y w newErr addErr (wmap s) = (r, m)" by fastforce
  have "watched_inv (tomb_Go (s\<lparr>wmap := m, open_watchers := Suc (open_watchers s)\<rparr>))" "watched_inv (s\<lparr>wmap := m\<rparr>)"
    using assms by (cases "dead s"; simp add: watched_inv_def tomb_Go_def)+
  then show ?thesis by (simp add: WatchFile_call_def r split: sum.splits option.splits)
qed

interpretation watched_events: partial_event_system "watched_step Y w" watched_inv for Y w
proof (unfold_locales, goal_cases)
  case (1 s e s')
  then show ?case
  proof (cases e)
    case WWait
    with 1 show ?thesis by (auto simp: watched_inv_def mapping_Wait_def split: if_splits)
  next
    case WKill
    with 1 show ?thesis by (auto simp: watched_inv_def mapping_Kill_def)
  qed (auto intro: goroutine_inv watch_call_inv)
qed

lemma new_watched_inv: "watched_inv (new_watched m)"
  by (simp add: watched_inv_def new_watched_def)

section \<open>Properties\<close>

lemma goroutine_returns:
  assumes "0 < running s" "killed s"
  shows "goroutine_step Y w TombDying s =
    Some (s\<lparr>running := running s - 1, open_watchers := open_watchers s - 1, dead := (running s = 1)\<rparr>)"
  using assms by (simp add: goroutine_step_def)

text \<open>
  \<^verbatim>\<open>Close\<close> returns once the goroutines have seen that the tomb is dying, and not before: with as many such events as goroutines run it returns, all watchers
  of live goroutines are closed, and no event of the file changes the mapping any more.
\<close>

theorem Close_stops_watching:
  assumes "watched_inv s" "\<not> dead s"
  shows "\<exists>s'. mapping_Close Y w (replicate (running s) TombDying) s = Some s' \<and> closed s' \<and> running s' = 0 \<and> open_watchers s' = 0 \<and>
    wmap s' = wmap s \<and> (\<forall>ev w'. goroutine_step Y w' ev s' = None)"
  using assms
proof (induction "running s" arbitrary: s)
  case 0
  then show ?case
    by (auto simp: watched_inv_def mapping_Kill_def mapping_Wait_def goroutine_step_def)
next
  case (Suc n)
  let ?s = "mapping_Kill s"
  let ?t = "?s\<lparr>running := running s - 1, open_watchers := open_watchers s - 1, dead := (running s = 1)\<rparr>"
  have step: "goroutine_step Y w TombDying ?s = Some ?t"
    using goroutine_returns [of ?s Y w] Suc.hyps(2) by (simp add: mapping_Kill_def)
  have n: "running s = Suc n" using Suc.hyps(2) by simp
  show ?case
  proof (cases n)
    case 0
    with Suc.prems n have "mapping_Wait (mapping_Kill ?t) = Some (?t\<lparr>killed := True, closed := True\<rparr>)" "open_watchers s = 1"
      by (simp_all add: watched_inv_def mapping_Kill_def mapping_Wait_def)
    then show ?thesis using step n 0 by (simp add: mapping_Kill_def goroutine_step_def)
  next
    case (Suc k)
    have "watched_inv (mapping_Kill s)" using Suc.prems by (auto simp: watched_inv_def mapping_Kill_def)
    then have "watched_inv ?t" using goroutine_inv step by blast
    moreover have "n = running ?t" "\<not> dead ?t" using n \<open>n = Suc k\<close> by simp_all
    ultimately obtain s' where "mapping_Close Y w (replicate n TombDying) ?t = Some s' \<and> closed s' \<and> running s' = 0 \<and> open_watchers s' = 0 \<and>
        wmap s' = wmap ?t \<and> (\<forall>ev w'. goroutine_step Y w' ev s' = None)"
      using Suc.hyps(1) [of ?t] by metis
    then show ?thesis using step n by (simp add: mapping_Kill_def)
  qed
qed

text \<open>While a goroutine runs \<^verbatim>\<open>Close\<close> does not return.\<close>

lemma Close_waits: "watched_inv s \<Longrightarrow> 0 < running s \<Longrightarrow> mapping_Close Y w [] s = None"
  by (auto simp: watched_inv_def mapping_Wait_def mapping_Kill_def)

text \<open>A call that fails to add the file leaves its goroutine and its watcher behind, and a call after \<^verbatim>\<open>Close\<close> a watcher that nothing closes.\<close>

lemma failed_watch_leaks:
  assumes "hostPathLib w = Inr p" "\<not> dead s"
  shows "fst (WatchFile_call Y w None (Some e) s) = Inl (WatchError e)"
    and "running (snd (WatchFile_call Y w None (Some e) s)) = Suc (running s)"
  using assms by (simp_all add: WatchFile_call_def WatchFile_def tomb_Go_def)

lemma watch_after_close_leaks:
  assumes "hostPathLib w = Inr p" "dead s"
  shows "open_watchers (snd (WatchFile_call Y w None addErr s)) = Suc (open_watchers s)"
    and "running (snd (WatchFile_call Y w None addErr s)) = running s"
  using assms by (simp_all add: WatchFile_call_def tomb_Go_def split_beta)

end
