(* ===== verification/Go_Strconv.thy ===== *)
theory Go_Strconv
  imports Baetyl_Prelude
begin

text \<open>
  Conversions of the standard library that several components use: decimal integers of \<^verbatim>\<open>strconv\<close> and \<^verbatim>\<open>fmt\<close>, and
  the standard encoding of \<^verbatim>\<open>encoding/base64\<close>, each with its round trip.
\<close>

section \<open>Decimal text\<close>

text \<open>The decimal text of an integer, as \<^verbatim>\<open>%d\<close> and the JSON encoders write it.\<close>

function nat_digits :: "nat \<Rightarrow> string" where
  "nat_digits n = (if n < 10 then [char_of (48 + n)] else nat_digits (n div 10) @ [char_of (48 + n mod 10)])"
  by auto
termination by (relation "measure (\<lambda>n. n)") auto

declare nat_digits.simps [simp del]

definition int_text :: "int \<Rightarrow> string" where
  "int_text i = (if i < 0 then CHR ''-'' # nat_digits (nat (- i)) else nat_digits (nat i))"

section \<open>Decimal integers\<close>

datatype num_error = ErrSyntax string | ErrRange string

definition is_digit :: "char \<Rightarrow> bool" where
  "is_digit c \<longleftrightarrow> (48::nat) \<le> of_char c \<and> of_char c \<le> (57::nat)"

definition digit_val :: "char \<Rightarrow> nat" where
  "digit_val c = of_char c - 48"

definition digits_val :: "string \<Rightarrow> nat" where
  "digits_val s = foldl (\<lambda>n c. n * 10 + digit_val c) 0 s"

text \<open>\<^verbatim>\<open>strconv.ParseInt(s, 10, bits)\<close>: an optional sign, then at least one digit, then the range check.\<close>

definition parse_unsigned :: "string \<Rightarrow> nat option" where
  "parse_unsigned s = (if s \<noteq> [] \<and> list_all is_digit s then Some (digits_val s) else None)"

definition ParseInt :: "string \<Rightarrow> nat \<Rightarrow> (num_error, int) result" where
  "ParseInt s bits =
     (let neg = (s \<noteq> [] \<and> hd s = CHR ''-'');
          body = (if s \<noteq> [] \<and> (hd s = CHR ''-'' \<or> hd s = CHR ''+'') then tl s else s)
      in case parse_unsigned body of
           None \<Rightarrow> Inl (ErrSyntax s)
         | Some n \<Rightarrow>
             (if neg then (if 2 ^ (bits - 1) < n then Inl (ErrRange s) else Inr (- int n))
              else (if 2 ^ (bits - 1) \<le> n then Inl (ErrRange s) else Inr (int n))))"

section \<open>Decimal round trip\<close>

lemma digit_char:
  assumes "d < (10::nat)"
  shows "is_digit (char_of (48 + d))" "digit_val (char_of (48 + d)) = d"
  using assms by (simp_all add: is_digit_def digit_val_def)

lemma digits_val_snoc: "digits_val (s @ [c]) = digits_val s * 10 + digit_val c"
  by (simp add: digits_val_def)

lemma nat_digits_ok: "nat_digits n \<noteq> [] \<and> list_all is_digit (nat_digits n) \<and> digits_val (nat_digits n) = n"
proof (induction n rule: nat_digits.induct)
  case (1 n)
  show ?case
  proof (cases "n < 10")
    case True
    then have "nat_digits n = [char_of (48 + n)]" by (simp add: nat_digits.simps [of n])
    with digit_char [OF True] show ?thesis by (simp add: digits_val_def)
  next
    case False
    then have "nat_digits n = nat_digits (n div 10) @ [char_of (48 + n mod 10)]" by (subst nat_digits.simps) simp
    with 1 False digit_char [of "n mod 10"] show ?thesis by (simp add: digits_val_snoc)
  qed
qed

lemma digit_no_sign: "is_digit c \<Longrightarrow> c \<noteq> CHR ''-'' \<and> c \<noteq> CHR ''+''"
  by (auto simp: is_digit_def)

lemma parse_unsigned_digits [simp]: "parse_unsigned (nat_digits n) = Some n"
  using nat_digits_ok [of n] by (simp add: parse_unsigned_def)

lemma nat_digits_hd: "hd (nat_digits n) \<noteq> CHR ''-''" "hd (nat_digits n) \<noteq> CHR ''+''"
  using nat_digits_ok [of n] digit_no_sign by (cases "nat_digits n"; auto)+

text \<open>\<open>ParseInt\<close> reads a decimal text back and rejects it exactly when it does not fit the width.\<close>

lemma ParseInt_int_text:
  assumes "0 < bits"
  shows "ParseInt (int_text i) bits =
     (if - (2 ^ (bits - 1)) \<le> i \<and> i < 2 ^ (bits - 1) then Inr i else Inl (ErrRange (int_text i)))"
proof (cases "i < 0")
  case True
  have "(2 ^ (bits - 1) < nat (- i)) \<longleftrightarrow> \<not> - (2 ^ (bits - 1)) \<le> i"
    using True by (auto simp: zless_nat_eq_int_zless nat_less_iff)
  with True show ?thesis by (auto simp: ParseInt_def int_text_def Let_def)
next
  case False
  have "nat_digits (nat i) \<noteq> []" using nat_digits_ok by blast
  moreover have "(2 ^ (bits - 1) \<le> nat i) \<longleftrightarrow> \<not> i < 2 ^ (bits - 1)"
    using False by (auto simp: le_nat_iff nat_le_iff)
  moreover have "- (2 ^ (bits - 1)) \<le> (0::int)" by simp
  then have "- (2 ^ (bits - 1)) \<le> i" using False by linarith
  ultimately show ?thesis using False nat_digits_hd [of "nat i"] by (auto simp: ParseInt_def int_text_def Let_def)
qed

section \<open>Base64, standard encoding\<close>

definition b64_alphabet :: string where
  "b64_alphabet = ''ABCDEFGHIJKLMNOPQRSTUVWXYZabcdefghijklmnopqrstuvwxyz0123456789+/''"

definition b64_char :: "nat \<Rightarrow> char" where
  "b64_char n = b64_alphabet ! n"

fun index_from :: "nat \<Rightarrow> char \<Rightarrow> string \<Rightarrow> nat option" where
  "index_from i c [] = None"
| "index_from i c (x # xs) = (if x = c then Some i else index_from (Suc i) c xs)"

definition b64_val :: "char \<Rightarrow> nat option" where
  "b64_val c = index_from 0 c b64_alphabet"

abbreviation pad :: char where "pad \<equiv> CHR ''=''"

fun b64_encode :: "nat list \<Rightarrow> string" where
  "b64_encode [] = []"
| "b64_encode [a] = [b64_char (a div 4), b64_char (a mod 4 * 16), pad, pad]"
| "b64_encode [a, b] =
     [b64_char (a div 4), b64_char (a mod 4 * 16 + b div 16), b64_char (b mod 16 * 4), pad]"
| "b64_encode (a # b # c # xs) =
     [b64_char (a div 4), b64_char (a mod 4 * 16 + b div 16), b64_char (b mod 16 * 4 + c div 64),
      b64_char (c mod 64)] @ b64_encode xs"

text \<open>
  Decoding in quanta of four; padding is allowed only at the end. Like Go's non-strict decoder
  the unused low bits of a padded quantum are ignored.
\<close>

fun b64_decode :: "string \<Rightarrow> nat list option" where
  "b64_decode [] = Some []"
| "b64_decode (w # x # y # z # r) =
     (case (b64_val w, b64_val x) of
        (Some i, Some j) \<Rightarrow>
          (if y = pad then (if z = pad \<and> r = [] then Some [i * 4 + j div 16] else None)
           else
             (case b64_val y of
                None \<Rightarrow> None
              | Some k \<Rightarrow>
                  (if z = pad then (if r = [] then Some [i * 4 + j div 16, j mod 16 * 16 + k div 4] else None)
                   else
                     (case (b64_val z, b64_decode r) of
                        (Some l, Some ys) \<Rightarrow>
                          Some ([i * 4 + j div 16, j mod 16 * 16 + k div 4, k mod 4 * 64 + l] @ ys)
                      | _ \<Rightarrow> None))))
      | _ \<Rightarrow> None)"
| "b64_decode xs = None"

definition EncodeToString :: "string \<Rightarrow> string" where
  "EncodeToString s = b64_encode (map of_char s)"

definition DecodeString :: "string \<Rightarrow> string option" where
  "DecodeString s = map_option (map char_of)
     (b64_decode (filter (\<lambda>c. c \<noteq> CHR 0x0A \<and> c \<noteq> CHR 0x0D) s))"

lemma b64_table:
  "list_all (\<lambda>n. b64_val (b64_char n) = Some n \<and> b64_char n \<noteq> pad \<and> b64_char n \<noteq> CHR 0x0A \<and>
     b64_char n \<noteq> CHR 0x0D) [0..<64]"
  by code_simp

lemma b64_char_ok:
  assumes "n < 64"
  shows "b64_val (b64_char n) = Some n" "b64_char n \<noteq> pad" "b64_char n \<noteq> CHR 0x0A" "b64_char n \<noteq> CHR 0x0D"
  using b64_table assms by (simp_all add: list_all_iff del: upt_conv_Nil)

lemma sextets_below:
  fixes a b c :: nat
  assumes "a < 256" "b < 256" "c < 256"
  shows "a div 4 < 64" "a mod 4 * 16 < 64" "a mod 4 * 16 + b div 16 < 64" "b mod 16 * 4 < 64"
    "b mod 16 * 4 + c div 64 < 64" "c mod 64 < 64"
  using assms by linarith+

lemma unpack:
  fixes p q k :: nat
  assumes "q < k"
  shows "(p * k + q) div k = p" "(p * k + q) mod k = q"
  using assms by simp_all

lemma octets:
  fixes a b c :: nat
  assumes "b < 256" "c < 256"
  shows "(a div 4) * 4 + (a mod 4 * 16 + b div 16) div 16 = a"
    "(a mod 4 * 16 + b div 16) mod 16 * 16 + (b mod 16 * 4) div 4 = b"
    "(a mod 4 * 16 + b div 16) mod 16 * 16 + (b mod 16 * 4 + c div 64) div 4 = b"
    "(b mod 16 * 4 + c div 64) mod 4 * 64 + c mod 64 = c"
proof -
  have "b div 16 < 16" "c div 64 < 4" using assms by simp_all
  note u = unpack [OF this(1), of "a mod 4"] unpack [OF this(2), of "b mod 16"]
  show "(a div 4) * 4 + (a mod 4 * 16 + b div 16) div 16 = a" unfolding u by (rule div_mult_mod_eq)
  show "(a mod 4 * 16 + b div 16) mod 16 * 16 + (b mod 16 * 4) div 4 = b"
    unfolding u using div_mult_mod_eq [of b 16] by simp
  show "(a mod 4 * 16 + b div 16) mod 16 * 16 + (b mod 16 * 4 + c div 64) div 4 = b"
    unfolding u by (rule div_mult_mod_eq)
  show "(b mod 16 * 4 + c div 64) mod 4 * 64 + c mod 64 = c" unfolding u by (rule div_mult_mod_eq)
qed

lemma b64_decode_encode:
  "list_all (\<lambda>n. n < 256) xs \<Longrightarrow> b64_decode (b64_encode xs) = Some xs \<and>
     list_all (\<lambda>c. c \<noteq> CHR 0x0A \<and> c \<noteq> CHR 0x0D) (b64_encode xs)"
proof (induction xs rule: b64_encode.induct)
  case (2 a)
  then have a: "a < 256" by simp
  note s = sextets_below [OF a a a]
  have "(a div 4) * 4 + (a mod 4 * 16) div 16 = a" by simp
  then show ?case using b64_char_ok [OF s(1)] b64_char_ok [OF s(2)] by simp
next
  case (3 a b)
  then have ab: "a < 256" "b < 256" by simp_all
  note s = sextets_below [OF ab ab(2)]
  from octets(1,2) [OF ab(2,2)] show ?case
    using b64_char_ok [OF s(1)] b64_char_ok [OF s(3)] b64_char_ok [OF s(4)] by simp
next
  case (4 a b c xs)
  then have abc: "a < 256" "b < 256" "c < 256" "list_all (\<lambda>n. n < 256) xs" by simp_all
  note s = sextets_below [OF abc(1-3)]
  from octets(1,3,4) [OF abc(2,3)] show ?case
    using b64_char_ok [OF s(1)] b64_char_ok [OF s(3)] b64_char_ok [OF s(5)] b64_char_ok [OF s(6)] 4(1) abc(4)
    by simp
qed simp

text \<open>The envelope is transparent: every byte string survives it.\<close>

lemma DecodeString_EncodeToString [simp]: "DecodeString (EncodeToString s) = Some s"
proof -
  have "list_all (\<lambda>n. n < 256) (map of_char s :: nat list)" by (simp add: list_all_iff)
  from b64_decode_encode [OF this] show ?thesis
    by (simp add: DecodeString_def EncodeToString_def list_all_iff filter_id_conv map_idI)
qed

interpretation std_base64: text_codec EncodeToString DecodeString
  by unfold_locales simp

end
