(* ===== verification/Utils_Net.thy ===== *)
theory Utils_Net
  imports Go_Strconv Native_Ports
begin

text \<open>
  The probes for free ports and the small helpers of package \<^verbatim>\<open>utils\<close>: \<^verbatim>\<open>utils/port.go\<close>, \<^verbatim>\<open>utils/matcher.go\<close>,
  \<^verbatim>\<open>utils/version.go\<close> and \<^verbatim>\<open>utils/trace.go\<close>. The address syntax of package \<^verbatim>\<open>net\<close> is modelled; the network of the host is a
  record of three functions: the resolver, the ports the kernel accepts a listener on, and its choice of an ephemeral port.
  The state is the list of open listeners.
\<close>

section \<open>Addresses\<close>

datatype addr_error = ErrMissingPort | ErrTooManyColons | ErrBracket

text \<open>The text before and after the last colon.\<close>

definition last_colon :: "string \<Rightarrow> (string \<times> string) option" where
  "last_colon s =
     (case dropWhile (\<lambda>c. c \<noteq> CHR '':'') (rev s) of
        [] \<Rightarrow> None
      | _ # r \<Rightarrow> Some (rev r, rev (takeWhile (\<lambda>c. c \<noteq> CHR '':'') (rev s))))"

text \<open>\<^verbatim>\<open>net.SplitHostPort\<close>; a host with colons has to stand in brackets.\<close>

definition SplitHostPort :: "string \<Rightarrow> (addr_error, string \<times> string) result" where
  "SplitHostPort hostport =
     (case last_colon hostport of
        None \<Rightarrow> Inl ErrMissingPort
      | Some (before, port) \<Rightarrow>
          if hd hostport = CHR ''[''
          then (case dropWhile (\<lambda>c. c \<noteq> CHR '']'') hostport of
                  [] \<Rightarrow> Inl ErrBracket
                | _ # after \<Rightarrow>
                    if after = [] \<or> hd after \<noteq> CHR '':'' then Inl ErrMissingPort
                    else if CHR '':'' \<in> set (tl after) then Inl ErrTooManyColons
                    else if CHR ''['' \<in> set (tl hostport) \<or> CHR '']'' \<in> set after then Inl ErrBracket
                    else Inr (takeWhile (\<lambda>c. c \<noteq> CHR '']'') (tl hostport), port))
          else if CHR '':'' \<in> set before then Inl ErrTooManyColons
          else if CHR ''['' \<in> set hostport \<or> CHR '']'' \<in> set hostport then Inl ErrBracket
          else Inr (before, port))"

text \<open>The port of an address as a number; the source writes numbers only, so names of services are refused here.\<close>

definition LookupPort :: "string \<Rightarrow> int option" where
  "LookupPort s = (case ParseInt s 64 of Inl _ \<Rightarrow> None | Inr n \<Rightarrow> if 0 \<le> n \<and> n \<le> 65535 then Some n else None)"

section \<open>The network\<close>

type_synonym listener = "string \<times> int"

record network =
  resolve :: "string \<Rightarrow> string option"
  accepts :: "listener list \<Rightarrow> string \<Rightarrow> int \<Rightarrow> bool"
  ephemeral :: "listener list \<Rightarrow> string \<Rightarrow> int option"

datatype listen_error = ErrAddr addr_error | ErrInvalidPort string | ErrNoHost string | ErrAddrInUse

definition ResolveTCPAddr :: "network \<Rightarrow> string \<Rightarrow> (listen_error, string \<times> int) result" where
  "ResolveTCPAddr nw address =
     (case SplitHostPort address of
        Inl e \<Rightarrow> Inl (ErrAddr e)
      | Inr (host, port) \<Rightarrow>
          (case LookupPort port of
             None \<Rightarrow> Inl (ErrInvalidPort port)
           | Some n \<Rightarrow> (case resolve nw host of None \<Rightarrow> Inl (ErrNoHost host) | Some ip \<Rightarrow> Inr (ip, n))))"

definition ListenTCP :: "network \<Rightarrow> listener list \<Rightarrow> string \<times> int \<Rightarrow> (listen_error, listener \<times> listener list) result" where
  "ListenTCP nw ls addr =
     (case addr of (ip, n) \<Rightarrow>
        if n = 0 then (case ephemeral nw ls ip of None \<Rightarrow> Inl ErrAddrInUse | Some p \<Rightarrow> Inr ((ip, p), (ip, p) # ls))
        else if accepts nw ls ip n then Inr ((ip, n), (ip, n) # ls) else Inl ErrAddrInUse)"

definition net_Listen :: "network \<Rightarrow> listener list \<Rightarrow> string \<Rightarrow> (listen_error, listener \<times> listener list) result" where
  "net_Listen nw ls address = rbind (ResolveTCPAddr nw address) (ListenTCP nw ls)"

definition listener_Close :: "listener \<Rightarrow> listener list \<Rightarrow> listener list" where
  "listener_Close l ls = remove1 l ls"

section \<open>Probes\<close>

definition GetAvailablePort :: "network \<Rightarrow> listener list \<Rightarrow> string \<Rightarrow> (listen_error, int) result \<times> listener list" where
  "GetAvailablePort nw ls host =
     (case ResolveTCPAddr nw (host @ '':0'') of
        Inl e \<Rightarrow> (Inl e, ls)
      | Inr address \<Rightarrow>
          (case ListenTCP nw ls address of
             Inl e \<Rightarrow> (Inl e, ls)
           | Inr (l, ls') \<Rightarrow> (Inr (snd l), listener_Close l ls')))"

definition CheckPortAvailable :: "network \<Rightarrow> listener list \<Rightarrow> string \<Rightarrow> int \<Rightarrow> bool \<times> listener list" where
  "CheckPortAvailable nw ls ip port =
     (case net_Listen nw ls (ip @ '':'' @ int_text port) of
        Inl _ \<Rightarrow> (False, ls)
      | Inr (l, ls') \<Rightarrow> (True, listener_Close l ls'))"

section \<open>Label matching, version and trace\<close>

text \<open>The selector parser of the Kubernetes library and the copier are arguments; a selector is the predicate it decides.\<close>

definition IsLabelMatch ::
  "(string \<Rightarrow> ('e, (string \<rightharpoonup> string) \<Rightarrow> bool) result) \<Rightarrow> ((string \<rightharpoonup> string) \<Rightarrow> (string \<rightharpoonup> string) \<Rightarrow> string \<rightharpoonup> string) \<Rightarrow>
     string \<Rightarrow> (string \<rightharpoonup> string) \<Rightarrow> ('e, bool) result" where
  "IsLabelMatch kl_Parse copier_Copy labelSelector labels =
     rbind (kl_Parse labelSelector) (\<lambda>selector. Inr (selector (copier_Copy Map.empty labels)))"

definition VERSION :: string where
  "VERSION = ''unknown''"

definition REVISION :: string where
  "REVISION = ''unknown''"

definition utils_Version :: "string \<Rightarrow> string \<Rightarrow> string" where
  "utils_Version vers revision = '' Version: '' @ vers @ [char_of (10 :: nat)] @ ''Revision: '' @ revision"

text \<open>What \<^verbatim>\<open>PrintVersion\<close> adds to the standard output.\<close>

definition PrintVersion :: "string \<Rightarrow> string \<Rightarrow> string \<Rightarrow> string" where
  "PrintVersion vers revision out = out @ utils_Version vers revision @ [char_of (10 :: nat)]"

text \<open>\<open>Trace\<close> reads the clock when it is called; the function it returns reads it again and logs the difference.\<close>

definition Trace ::
  "(string \<Rightarrow> (string \<times> 'v) list \<Rightarrow> 'log \<Rightarrow> 'log) \<Rightarrow> (int \<Rightarrow> 'v) \<Rightarrow> string \<Rightarrow> (string \<times> 'v) list \<Rightarrow> int \<Rightarrow> int \<Rightarrow> 'log \<Rightarrow> 'log" where
  "Trace f duration msg fs start now = f msg (fs @ [(''cost'', duration (now - start))])"

section \<open>Addresses, lemmas\<close>

text \<open>A host without the characters that the address syntax treats specially.\<close>

definition plain_host :: "string \<Rightarrow> bool" where
  "plain_host h \<longleftrightarrow> CHR '':'' \<notin> set h \<and> CHR ''['' \<notin> set h \<and> CHR '']'' \<notin> set h"

lemma last_colon_append:
  assumes "CHR '':'' \<notin> set p"
  shows "last_colon (h @ '':'' @ p) = Some (h, p)"
proof -
  have "takeWhile (\<lambda>c. c \<noteq> CHR '':'') (rev p @ CHR '':'' # rev h) = rev p"
    using assms by (subst takeWhile_append2) auto
  moreover have "dropWhile (\<lambda>c. c \<noteq> CHR '':'') (rev p @ CHR '':'' # rev h) = CHR '':'' # rev h"
    using assms by (subst dropWhile_append2) auto
  ultimately show ?thesis by (simp add: last_colon_def)
qed

lemma int_text_chars: "c \<in> set (int_text i) \<Longrightarrow> is_digit c \<or> c = CHR ''-''"
  using nat_digits_ok [of "nat i"] nat_digits_ok [of "nat (- i)"] by (auto simp: int_text_def list_all_iff split: if_splits)

lemma int_text_plain: "plain_host (int_text i)"
proof -
  have "\<not> is_digit c \<and> c \<noteq> CHR ''-''" if "c \<in> {CHR '':'', CHR ''['', CHR '']''}" for c
    using that by (auto simp: is_digit_def)
  then show ?thesis unfolding plain_host_def using int_text_chars [of _ i] by (meson insertCI)
qed

lemma SplitHostPort_plain:
  assumes "plain_host h"
  shows "SplitHostPort (h @ '':'' @ int_text p) = Inr (h, int_text p)"
proof -
  have p: "CHR '':'' \<notin> set (int_text p)" "CHR ''['' \<notin> set (int_text p)" "CHR '']'' \<notin> set (int_text p)"
    using int_text_plain [of p] by (simp_all add: plain_host_def)
  have "hd (h @ '':'' @ int_text p) \<noteq> CHR ''[''" using assms by (cases h) (auto simp: plain_host_def)
  with assms p show ?thesis
    unfolding SplitHostPort_def last_colon_append [OF p(1)] by (simp add: plain_host_def)
qed

lemma SplitHostPort_colon:
  assumes "CHR '':'' \<in> set h" "hd h \<noteq> CHR ''[''"
  shows "SplitHostPort (h @ '':'' @ int_text p) = Inl ErrTooManyColons"
proof -
  have p: "CHR '':'' \<notin> set (int_text p)" using int_text_plain [of p] by (simp add: plain_host_def)
  have "hd (h @ '':'' @ int_text p) \<noteq> CHR ''[''" using assms by (cases h) auto
  with assms show ?thesis unfolding SplitHostPort_def last_colon_append [OF p] by simp
qed

lemma LookupPort_int_text: "LookupPort (int_text n) = (if 0 \<le> n \<and> n \<le> 65535 then Some n else None)"
  using ParseInt_int_text [of 64 n] by (auto simp: LookupPort_def)

lemma ResolveTCPAddr_plain:
  "plain_host h \<Longrightarrow> resolve nw h = Some a \<Longrightarrow> 0 \<le> n \<Longrightarrow> n \<le> 65535 \<Longrightarrow>
     ResolveTCPAddr nw (h @ '':'' @ int_text n) = Inr (a, n)"
  by (simp add: ResolveTCPAddr_def SplitHostPort_plain LookupPort_int_text del: append_Cons append_assoc)

lemma int_text_0: "int_text 0 = ''0''"
  by (simp add: int_text_def nat_digits.simps) code_simp

section \<open>Probes, properties\<close>

definition can_listen :: "network \<Rightarrow> listener list \<Rightarrow> string \<Rightarrow> int \<Rightarrow> bool" where
  "can_listen nw ls ip port \<longleftrightarrow> is_ok (net_Listen nw ls (ip @ '':'' @ int_text port))"

lemma ListenTCP_Close: "ListenTCP nw ls a = Inr (l, ls') \<Longrightarrow> listener_Close l ls' = ls"
  by (auto simp: ListenTCP_def listener_Close_def split: prod.splits if_splits option.splits)

text \<open>A probe leaves no listener behind, and answers whether listening would succeed.\<close>

lemma CheckPortAvailable_eq: "CheckPortAvailable nw ls ip port = (can_listen nw ls ip port, ls)"
proof (cases "net_Listen nw ls (ip @ '':'' @ int_text port)")
  case (Inr r)
  then show ?thesis
    by (cases r) (auto simp: CheckPortAvailable_def can_listen_def net_Listen_def go_result dest: ListenTCP_Close)
qed (simp add: CheckPortAvailable_def can_listen_def)

lemma can_listen_iff:
  assumes "plain_host ip" "resolve nw ip = Some a"
  shows "can_listen nw ls ip port \<longleftrightarrow>
     0 \<le> port \<and> port \<le> 65535 \<and> (if port = 0 then ephemeral nw ls a \<noteq> None else accepts nw ls a port)"
proof (cases "0 \<le> port \<and> port \<le> 65535")
  case True
  with ResolveTCPAddr_plain [OF assms] show ?thesis
    by (auto simp: can_listen_def net_Listen_def ListenTCP_def split: option.splits)
next
  case False
  then have "ResolveTCPAddr nw (ip @ '':'' @ int_text port) = Inl (ErrInvalidPort (int_text port))"
    using assms by (simp add: ResolveTCPAddr_def SplitHostPort_plain LookupPort_int_text del: append_Cons append_assoc)
  then have "\<not> can_listen nw ls ip port" by (simp add: can_listen_def net_Listen_def)
  with False show ?thesis by blast
qed

lemma GetAvailablePort_plain:
  assumes "plain_host host"
  shows "GetAvailablePort nw ls host =
     (case resolve nw host of
        None \<Rightarrow> (Inl (ErrNoHost host), ls)
      | Some ip \<Rightarrow> (case ephemeral nw ls ip of None \<Rightarrow> (Inl ErrAddrInUse, ls) | Some p \<Rightarrow> (Inr p, ls)))"
proof -
  have "SplitHostPort (host @ '':0'') = Inr (host, ''0'')"
    using SplitHostPort_plain [OF assms(1), of 0] by (simp add: int_text_0)
  moreover have "LookupPort ''0'' = Some 0" using LookupPort_int_text [of 0] by (simp add: int_text_0)
  ultimately show ?thesis
    by (simp add: GetAvailablePort_def ResolveTCPAddr_def ListenTCP_def listener_Close_def split: option.split)
qed

text \<open>
  The two probes agree, and neither leaves a listener open. When \<^verbatim>\<open>GetAvailablePort\<close> returns a port of a host that is
  written without colons or brackets, the port is a proper one and \<^verbatim>\<open>CheckPortAvailable\<close> answers yes for it in the same
  state, provided that the system hands out as ephemeral only ports that it would also accept by number.
\<close>

theorem available_port_checked:
  assumes "plain_host host" and "GetAvailablePort nw ls host = (Inr port, ls')"
    and ephemeral_free: "\<And>ip p. ephemeral nw ls ip = Some p \<Longrightarrow> 0 < p \<and> p \<le> 65535 \<and> accepts nw ls ip p"
  shows "ls' = ls \<and> 0 < port \<and> port \<le> 65535 \<and> CheckPortAvailable nw ls host port = (True, ls)"
proof -
  note get = assms(2) [unfolded GetAvailablePort_plain [OF assms(1)]]
  obtain ip where ip: "resolve nw host = Some ip" using get by (cases "resolve nw host") simp_all
  obtain p where p: "ephemeral nw ls ip = Some p" using get ip by (cases "ephemeral nw ls ip") simp_all
  have r: "port = p" "ls' = ls" using get ip p by simp_all
  from ephemeral_free [OF p] have "can_listen nw ls host p"
    using can_listen_iff [OF assms(1) ip] by simp
  with r ephemeral_free [OF p] show ?thesis by (simp add: CheckPortAvailable_eq)
qed

lemma plain_localhost: "plain_host ''127.0.0.1''"
  by (simp add: plain_host_def)

definition demo_network :: network where
  "demo_network = \<lparr>resolve = Some, accepts = (\<lambda>ls ip p. (ip, p) \<notin> set ls), ephemeral = (\<lambda>ls ip. find (\<lambda>p. (ip, p) \<notin> set ls) [40000, 40001])\<rparr>"

lemma demo_ephemeral: "ephemeral demo_network ls ip = Some p \<Longrightarrow> 0 < p \<and> p \<le> 65535 \<and> accepts demo_network ls ip p"
  by (auto simp: demo_network_def split: if_splits)

theorem available_port_checked_witness:
  "CheckPortAvailable demo_network [(''127.0.0.1'', 40000)] ''127.0.0.1'' 40001 = (True, [(''127.0.0.1'', 40000)])"
proof -
  have "GetAvailablePort demo_network [(''127.0.0.1'', 40000)] ''127.0.0.1'' = (Inr 40001, [(''127.0.0.1'', 40000)])"
    by (simp add: GetAvailablePort_plain [OF plain_localhost] demo_network_def)
  from available_port_checked [OF _ this demo_ephemeral] show ?thesis by (simp add: plain_host_def)
qed

text \<open>A host with colons that is not in brackets is never found available, and has no available port.\<close>

lemma bare_colons_refused:
  assumes "CHR '':'' \<in> set h" "hd h \<noteq> CHR ''[''"
  shows "CheckPortAvailable nw ls h port = (False, ls)"
    and "GetAvailablePort nw ls h = (Inl (ErrAddr ErrTooManyColons), ls)"
  using SplitHostPort_colon [OF assms, of port] SplitHostPort_colon [OF assms, of 0]
  by (simp_all add: CheckPortAvailable_def GetAvailablePort_def net_Listen_def ResolveTCPAddr_def int_text_0)

section \<open>Allocated ports\<close>

text \<open>What a client of the allocator does: ask for a port, listen on it, ask for the next. It stops at the first error.\<close>

fun reserve :: "nat \<Rightarrow> network \<Rightarrow> PortAllocator \<Rightarrow> listener list \<Rightarrow> int list \<times> PortAllocator \<times> listener list" where
  "reserve 0 nw p ls = ([], p, ls)"
| "reserve (Suc n) nw p ls =
     (case Allocate (\<lambda>_ port. fst (CheckPortAvailable nw ls ''127.0.0.1'' port)) p of
        (Inl _, p') \<Rightarrow> ([], p', ls)
      | (Inr port, p') \<Rightarrow>
          (case net_Listen nw ls (''127.0.0.1:'' @ int_text port) of
             Inl _ \<Rightarrow> ([], p', ls)
           | Inr (l, ls') \<Rightarrow> (case reserve n nw p' ls' of (ports, q) \<Rightarrow> (port # ports, q))))"

lemma local_probe:
  assumes "resolve nw ''127.0.0.1'' = Some lo" "1024 \<le> port" "port \<le> 65535"
  shows "fst (CheckPortAvailable nw ls ''127.0.0.1'' port) = accepts nw ls lo port"
    and "accepts nw ls lo port \<Longrightarrow> net_Listen nw ls (''127.0.0.1:'' @ int_text port) = Inr ((lo, port), (lo, port) # ls)"
  using assms ResolveTCPAddr_plain [OF plain_localhost assms(1), of port]
  by (simp_all add: CheckPortAvailable_eq can_listen_iff [OF plain_localhost] net_Listen_def ListenTCP_def)

definition in_range :: "PortAllocator \<Rightarrow> int \<Rightarrow> bool" where
  "in_range p port \<longleftrightarrow> base p \<le> port \<and> port < base p + alloc_size p"

lemma in_range_bounds: "alloc_inv p \<Longrightarrow> in_range p port \<Longrightarrow> 1024 \<le> port \<and> port \<le> 65535"
  by (auto simp: alloc_inv_def in_range_def)

text \<open>One round: a port is found exactly when the system accepts one of the range, and listening on it succeeds.\<close>

lemma reserve_round:
  fixes ls :: "listener list"
  assumes "alloc_inv p" "resolve nw ''127.0.0.1'' = Some lo"
  defines "probe \<equiv> \<lambda>_ port. fst (CheckPortAvailable nw ls ''127.0.0.1'' port)"
  obtains e where "Allocate probe p = (Inl e, p)" "\<And>port. in_range p port \<Longrightarrow> \<not> accepts nw ls lo port"
  | port p' where "Allocate probe p = (Inr port, p')" "in_range p port" "accepts nw ls lo port" "alloc_inv p'"
      "in_range p' = in_range p" "net_Listen nw ls (''127.0.0.1:'' @ int_text port) = Inr ((lo, port), (lo, port) # ls)"
proof (cases "Allocate probe p")
  case (Pair r p')
  note spec = Allocate_stable [OF assms(1), of "\<lambda>port. fst (CheckPortAvailable nw ls ''127.0.0.1'' port)"]
  note probe = local_probe [OF assms(2)]
  show ?thesis
  proof (cases r)
    case (Inl e)
    with Pair spec have none: "\<not> fst (CheckPortAvailable nw ls ''127.0.0.1'' port)" if "in_range p port" for port
      using that by (simp add: probe_def in_range_def)
    have "\<not> accepts nw ls lo port" if "in_range p port" for port
      using none [OF that] probe(1) [of port] in_range_bounds [OF assms(1) that] by simp
    moreover have "p' = p" using Pair Inl spec by (simp add: probe_def)
    ultimately show ?thesis using that(1) Pair Inl by blast
  next
    case (Inr port)
    with Pair spec have ok: "in_range p port" "fst (CheckPortAvailable nw ls ''127.0.0.1'' port)" "alloc_inv p'"
      and same: "base p' = base p" "alloc_size p' = alloc_size p"
      by (simp_all add: probe_def in_range_def)
    have "in_range p' = in_range p" using same by (simp add: in_range_def fun_eq_iff)
    then show ?thesis
      using that(2) Pair Inr ok probe [of port] in_range_bounds [OF assms(1) ok(1)] by simp
  qed
qed

text \<open>
  C6. The allocator and the network together. Asking for a port and listening on it, again and again, gives ports of the range
  that differ from each other and on which no listener was open before; each listener is really opened. When fewer ports come
  than were asked for, the system accepts no port of the range any more. The system is taken to refuse a port that has a listener.
\<close>

theorem reserved_ports:
  assumes "alloc_inv p" and "resolve nw ''127.0.0.1'' = Some lo"
    and exclusive: "\<And>ls port. (lo, port) \<in> set ls \<Longrightarrow> \<not> accepts nw ls lo port"
    and "reserve n nw p ls = (ports, p', ls')"
  shows "distinct ports \<and> ls' = map (Pair lo) (rev ports) @ ls \<and>
     (\<forall>port \<in> set ports. base p \<le> port \<and> port < base p + alloc_size p \<and> (lo, port) \<notin> set ls) \<and>
     (length ports < n \<longrightarrow> (\<forall>port. base p \<le> port \<and> port < base p + alloc_size p \<longrightarrow> \<not> accepts nw ls' lo port))"
proof -
  have "distinct ports \<and> ls' = map (Pair lo) (rev ports) @ ls \<and>
      (\<forall>port \<in> set ports. in_range p port \<and> (lo, port) \<notin> set ls) \<and>
      (length ports < n \<longrightarrow> (\<forall>port. in_range p port \<longrightarrow> \<not> accepts nw ls' lo port))"
    using assms(1,4)
  proof (induction n arbitrary: p ls ports)
    case (Suc n)
    show ?case
    proof (rule reserve_round [OF Suc.prems(1) assms(2), of ls], goal_cases)
      case (1 e)
      with Suc.prems(2) show ?case by simp
    next
      case (2 port q)
      then obtain rest where rest: "ports = port # rest" "reserve n nw q ((lo, port) # ls) = (rest, p', ls')"
        using Suc.prems(2) by (auto split: prod.splits)
      from Suc.IH [OF 2(4) rest(2)] 2 rest(1) exclusive show ?case by auto
    qed
  qed simp
  then show ?thesis unfolding in_range_def by blast
qed

lemma demo_probe:
  assumes "1024 \<le> port" "port \<le> 65535"
  shows "fst (CheckPortAvailable demo_network ls ''127.0.0.1'' port) \<longleftrightarrow> (''127.0.0.1'', port) \<notin> set ls"
    and "(''127.0.0.1'', port) \<notin> set ls \<Longrightarrow> net_Listen demo_network ls (''127.0.0.1:'' @ int_text port) =
      Inr ((''127.0.0.1'', port), (''127.0.0.1'', port) # ls)"
  using local_probe [OF _ assms, of demo_network "''127.0.0.1''" ls] by (simp_all add: demo_network_def)

theorem reserved_ports_witness:
  "\<exists>p. alloc_inv p \<and> reserve 3 demo_network p [(''127.0.0.1'', 50010)] =
     ([50011], p, [(''127.0.0.1'', 50011), (''127.0.0.1'', 50010)]) \<and>
     \<not> accepts demo_network [(''127.0.0.1'', 50011), (''127.0.0.1'', 50010)] ''127.0.0.1'' 50011"
proof -
  let ?p = "\<lparr>base = 50010, alloc_size = 2, alloc_offset = 0\<rparr>"
  have inv: "alloc_inv ?p" by (simp add: alloc_inv_def)
  have run: "reserve 3 demo_network ?p [(''127.0.0.1'', 50010)] =
      ([50011], ?p, [(''127.0.0.1'', 50011), (''127.0.0.1'', 50010)])"
    by (simp add: Allocate_def eval_nat_numeral demo_probe(1) demo_probe(2) [simplified])
  have "\<not> accepts demo_network [(''127.0.0.1'', 50011), (''127.0.0.1'', 50010)] ''127.0.0.1'' 50011"
    using reserved_ports [OF inv _ _ run] by (simp add: demo_network_def)
  with inv run show ?thesis by blast
qed

end
