(* ===== verification/Pubsub_Memory.thy ===== *)
theory Pubsub_Memory
  imports Baetyl_Prelude
begin

text \<open>
  In-memory publish and subscribe: \<^verbatim>\<open>pubsub/pubsub.go\<close> and the processors that drain a subscription,
  \<^verbatim>\<open>pubsub/processor.go\<close>. A subscription is a Go channel, so channels have an identity: the model
  keeps a heap of channels and a topic's subscribers are a list of references, in the order in
  which a \<^verbatim>\<open>range\<close> over the topic's map yields them. The size is at least one (a rendezvous over
  an unbuffered channel is not modelled).
\<close>

section \<open>The broker\<close>

record 'm pubsub =
  size :: nat
  channels :: "(string \<times> nat list) list"
  heap :: "nat \<Rightarrow> 'm chan"
  next_ch :: nat

definition NewPubsub :: "nat \<Rightarrow> 'm pubsub" where
  "NewPubsub sz = \<lparr>size = sz, channels = [], heap = (\<lambda>_. make_chan 0), next_ch = 0\<rparr>"

definition getChannel :: "string \<Rightarrow> 'm pubsub \<Rightarrow> nat list option" where
  "getChannel topic m = map_of (channels m) topic"

definition Subscribe :: "string \<Rightarrow> 'm pubsub \<Rightarrow> nat \<times> 'm pubsub" where
  "Subscribe topic m =
     (let chs = (case getChannel topic m of None \<Rightarrow> [] | Some chs \<Rightarrow> chs); ch = next_ch m
      in (ch, m\<lparr>channels := alist_put topic (chs @ [ch]) (channels m),
               heap := (heap m)(ch := make_chan (size m)), next_ch := Suc ch\<rparr>))"

definition Unsubscribe :: "string \<Rightarrow> nat \<Rightarrow> 'm pubsub \<Rightarrow> 'm pubsub" where
  "Unsubscribe topic ch m =
     (case getChannel topic m of
        None \<Rightarrow> m
      | Some chs \<Rightarrow>
          (if ch \<in> set chs then m\<lparr>channels := alist_put topic (filter (\<lambda>c. c \<noteq> ch) chs) (channels m)\<rparr> else m))"

text \<open>The two nested loops of \<^verbatim>\<open>Close\<close>, each deleting what it ranges over.\<close>

fun Close_loop :: "string list \<Rightarrow> (string \<times> nat list) list \<Rightarrow> (string \<times> nat list) list" where
  "Close_loop [] chans = chans"
| "Close_loop (t # ts) chans = Close_loop ts (alist_del t chans)"

definition Close :: "'m pubsub \<Rightarrow> 'm pubsub" where
  "Close m = m\<lparr>channels := Close_loop (map fst (channels m)) (channels m)\<rparr>"

definition ErrPubsubTimeout :: string where
  "ErrPubsubTimeout = ''failed to send message to topic because of timeout''"

text \<open>
  One \<^verbatim>\<open>publish\<close>: the send if there is room before the timer fires. \<open>late\<close> says that the timer
  won although there was room, which a loaded scheduler may do.
\<close>

definition publish :: "bool \<Rightarrow> nat \<Rightarrow> 'm \<Rightarrow> 'm pubsub \<Rightarrow> string option \<times> 'm pubsub" where
  "publish late ch msg m =
     (case chan_send (heap m ch) msg of
        Some c \<Rightarrow> (if late then (Some ErrPubsubTimeout, m) else (None, m\<lparr>heap := (heap m)(ch := c)\<rparr>))
      | None \<Rightarrow> (Some ErrPubsubTimeout, m))"

fun Publish_loop ::
  "(nat \<Rightarrow> bool) \<Rightarrow> nat list \<Rightarrow> 'm \<Rightarrow> string list \<Rightarrow> 'm pubsub \<Rightarrow> string list \<times> 'm pubsub" where
  "Publish_loop late [] msg errs m = (errs, m)"
| "Publish_loop late (ch # chs) msg errs m =
     (let (err, m) = publish (late ch) ch msg m
      in Publish_loop late chs msg (case err of None \<Rightarrow> errs | Some e \<Rightarrow> errs @ [e]) m)"

definition Publish :: "(nat \<Rightarrow> bool) \<Rightarrow> string \<Rightarrow> 'm \<Rightarrow> 'm pubsub \<Rightarrow> string option \<times> 'm pubsub" where
  "Publish late topic msg m =
     (let (errs, m') = (case getChannel topic m of None \<Rightarrow> ([], m) | Some chs \<Rightarrow> Publish_loop late chs msg [] m)
      in (if length errs > 0 then Some (strings_Join errs [CHR 0x0A]) else None, m'))"

text \<open>A subscriber takes the oldest message of its channel.\<close>

definition Receive :: "nat \<Rightarrow> 'm pubsub \<Rightarrow> ('m \<times> 'm pubsub) option" where
  "Receive ch m = map_option (\<lambda>(x, c). (x, m\<lparr>heap := (heap m)(ch := c)\<rparr>)) (chan_recv (heap m ch))"

section \<open>Invariant\<close>

definition subscribers :: "string \<Rightarrow> 'm pubsub \<Rightarrow> nat list" where
  "subscribers topic m = (case getChannel topic m of None \<Rightarrow> [] | Some chs \<Rightarrow> chs)"

text \<open>
  Topics are listed once; a channel belongs to one topic and is listed once there; channels
  not handed out yet are not subscribed; no channel holds more than its capacity, and every
  one handed out has the broker's size as its capacity.
\<close>

definition pubsub_inv :: "'m pubsub \<Rightarrow> bool" where
  "pubsub_inv m \<longleftrightarrow> alist_wf (channels m) \<and>
     (\<forall>t. distinct (subscribers t m) \<and> (\<forall>ch \<in> set (subscribers t m). ch < next_ch m)) \<and>
     (\<forall>t t'. t \<noteq> t' \<longrightarrow> set (subscribers t m) \<inter> set (subscribers t' m) = {}) \<and>
     (\<forall>ch. chan_wf (heap m ch)) \<and> (\<forall>ch < next_ch m. chan_cap (heap m ch) = size m)"

lemma subscribers_put:
  "subscribers t (m\<lparr>channels := alist_put topic chs (channels m), heap := h, next_ch := n\<rparr>) =
     (if t = topic then chs else subscribers t m)"
  "subscribers t (m\<lparr>channels := alist_put topic chs (channels m)\<rparr>) =
     (if t = topic then chs else subscribers t m)"
  by (simp_all add: subscribers_def getChannel_def)

lemma subscribers_heap [simp]: "subscribers t (m\<lparr>heap := h\<rparr>) = subscribers t m"
  by (simp add: subscribers_def getChannel_def)

lemma Subscribe_unfold:
  "Subscribe topic m = (next_ch m, m\<lparr>channels := alist_put topic (subscribers topic m @ [next_ch m]) (channels m),
     heap := (heap m)(next_ch m := make_chan (size m)), next_ch := Suc (next_ch m)\<rparr>)"
  by (simp add: Subscribe_def subscribers_def Let_def)

lemma Unsubscribe_unfold:
  "Unsubscribe topic ch m =
     (if ch \<in> set (subscribers topic m)
      then m\<lparr>channels := alist_put topic (filter (\<lambda>c. c \<noteq> ch) (subscribers topic m)) (channels m)\<rparr> else m)"
  by (auto simp: Unsubscribe_def subscribers_def split: option.splits)

lemma NewPubsub_inv: "pubsub_inv (NewPubsub sz)"
  by (simp add: pubsub_inv_def NewPubsub_def subscribers_def getChannel_def chan_wf_def)

lemma Subscribe_inv: "pubsub_inv m \<Longrightarrow> pubsub_inv (snd (Subscribe topic m))"
  unfolding pubsub_inv_def Subscribe_unfold
  by (auto simp: subscribers_put chan_wf_def less_Suc_eq)

lemma Unsubscribe_inv: "pubsub_inv m \<Longrightarrow> pubsub_inv (Unsubscribe topic ch m)"
  unfolding pubsub_inv_def Unsubscribe_unfold by (auto simp: subscribers_put) blast+

lemma Close_loop_deletes:
  "map_of (Close_loop ts chans) = (\<lambda>t. if t \<in> set ts then None else map_of chans t)"
  by (induction ts chans rule: Close_loop.induct) (auto simp: fun_eq_iff)

lemma Close_loop_all: "channels (Close m) = []"
proof -
  have "map_of (Close_loop (map fst (channels m)) (channels m)) = Map.empty"
    by (auto simp: Close_loop_deletes fun_eq_iff map_of_eq_None_iff)
  then show ?thesis by (simp add: Close_def)
qed

lemma Close_inv: "pubsub_inv m \<Longrightarrow> pubsub_inv (Close m)"
  by (simp add: pubsub_inv_def subscribers_def getChannel_def Close_loop_all) (simp add: Close_def)


section \<open>Delivery\<close>

text \<open>Whether a channel takes the message of this publication.\<close>

definition takes :: "(nat \<Rightarrow> bool) \<Rightarrow> 'm pubsub \<Rightarrow> nat \<Rightarrow> bool" where
  "takes late m ch \<longleftrightarrow> \<not> late ch \<and> \<not> chan_full (heap m ch)"

lemma publish_unfold:
  "publish (late ch) ch msg m =
     (if takes late m ch
      then (None, m\<lparr>heap := (heap m)(ch := (heap m ch)\<lparr>chan_buf := chan_buf (heap m ch) @ [msg]\<rparr>)\<rparr>)
      else (Some ErrPubsubTimeout, m))"
  by (auto simp: publish_def takes_def chan_send_def)

lemma Publish_loop_spec:
  "distinct chs \<Longrightarrow> Publish_loop late chs msg errs m =
     (errs @ replicate (length (filter (\<lambda>ch. \<not> takes late m ch) chs)) ErrPubsubTimeout,
      m\<lparr>heap := (\<lambda>ch. if ch \<in> set chs \<and> takes late m ch
          then (heap m ch)\<lparr>chan_buf := chan_buf (heap m ch) @ [msg]\<rparr> else heap m ch)\<rparr>)"
proof (induction chs arbitrary: errs m)
  case (Cons ch chs)
  let ?m = "m\<lparr>heap := (heap m)(ch := (heap m ch)\<lparr>chan_buf := chan_buf (heap m ch) @ [msg]\<rparr>)\<rparr>"
  have same: "takes late ?m c = takes late m c" if "c \<noteq> ch" for c using that by (simp add: takes_def)
  have filt: "filter (\<lambda>c. \<not> takes late ?m c) chs = filter (\<lambda>c. \<not> takes late m c) chs"
    using Cons.prems by (intro filter_cong) (auto simp: takes_def)
  show ?case
  proof (cases "takes late m ch")
    case True
    have "(\<lambda>c. if c \<in> set chs \<and> takes late ?m c then (heap ?m c)\<lparr>chan_buf := chan_buf (heap ?m c) @ [msg]\<rparr> else heap ?m c)
        = (\<lambda>c. if c \<in> set (ch # chs) \<and> takes late m c then (heap m c)\<lparr>chan_buf := chan_buf (heap m c) @ [msg]\<rparr> else heap m c)"
      using Cons.prems True same by (auto simp: fun_eq_iff)
    then show ?thesis using Cons True filt by (simp add: publish_unfold)
  next
    case False
    have "(\<lambda>c. if c \<in> set chs \<and> takes late m c then (heap m c)\<lparr>chan_buf := chan_buf (heap m c) @ [msg]\<rparr> else heap m c)
        = (\<lambda>c. if c \<in> set (ch # chs) \<and> takes late m c then (heap m c)\<lparr>chan_buf := chan_buf (heap m c) @ [msg]\<rparr> else heap m c)"
      using False by (auto simp: fun_eq_iff)
    then show ?thesis using Cons False by (simp add: publish_unfold replicate_append_same)
  qed
qed simp

text \<open>What a publication is meant to do, on the channels of the topic.\<close>

lemma Publish_spec:
  assumes "pubsub_inv m"
  shows "Publish late topic msg m =
     ((let n = length (filter (\<lambda>ch. \<not> takes late m ch) (subscribers topic m))
       in if n = 0 then None else Some (strings_Join (replicate n ErrPubsubTimeout) [CHR 0x0A])),
      m\<lparr>heap := (\<lambda>ch. if ch \<in> set (subscribers topic m) \<and> takes late m ch
          then (heap m ch)\<lparr>chan_buf := chan_buf (heap m ch) @ [msg]\<rparr> else heap m ch)\<rparr>)"
proof -
  have d: "distinct (subscribers topic m)" using assms by (simp add: pubsub_inv_def)
  show ?thesis
  proof (cases "getChannel topic m")
    case None
    then show ?thesis by (simp add: Publish_def subscribers_def)
  next
    case (Some chs)
    then have "subscribers topic m = chs" by (simp add: subscribers_def)
    with d Some show ?thesis
      by (simp add: Publish_def Publish_loop_spec Let_def filter_empty_conv)
  qed
qed

lemma pubsub_inv_heap:
  "pubsub_inv m \<Longrightarrow> (\<And>ch. chan_wf (h ch) \<and> chan_cap (h ch) = chan_cap (heap m ch)) \<Longrightarrow>
     pubsub_inv (m\<lparr>heap := h\<rparr>)"
  by (simp add: pubsub_inv_def)

lemma Publish_inv:
  assumes "pubsub_inv m"
  shows "pubsub_inv (snd (Publish late topic msg m))"
proof -
  have wf: "chan_wf (heap m ch)" for ch using assms by (simp add: pubsub_inv_def)
  show ?thesis
    unfolding Publish_spec [OF assms] snd_conv
  proof (rule pubsub_inv_heap [OF assms])
    fix ch
    show "chan_wf (if ch \<in> set (subscribers topic m) \<and> takes late m ch
          then (heap m ch)\<lparr>chan_buf := chan_buf (heap m ch) @ [msg]\<rparr> else heap m ch) \<and>
        chan_cap (if ch \<in> set (subscribers topic m) \<and> takes late m ch
          then (heap m ch)\<lparr>chan_buf := chan_buf (heap m ch) @ [msg]\<rparr> else heap m ch) = chan_cap (heap m ch)"
      using wf [of ch] by (auto simp: takes_def chan_wf_def chan_full_def)
  qed
qed

lemma Receive_inv:
  assumes "pubsub_inv m" "Receive ch m = Some (x, m')"
  shows "pubsub_inv m'"
proof -
  obtain c where c: "chan_recv (heap m ch) = Some (x, c)" "m' = m\<lparr>heap := (heap m)(ch := c)\<rparr>"
    using assms(2) by (auto simp: Receive_def)
  have wf: "chan_wf (heap m d)" for d using assms(1) by (simp add: pubsub_inv_def)
  show ?thesis unfolding c(2)
    by (rule pubsub_inv_heap [OF assms(1)]) (use go_channel.recv_Some [OF wf c(1)] wf in simp)
qed

section \<open>Histories\<close>

text \<open>
  Runs of the broker: subscriptions, cancellations, publications (each with its own timer
  outcomes), receives and \<^verbatim>\<open>Close\<close>, in any order. The histories record for every channel what was
  put on it and what its subscriber took off.
\<close>

datatype 'm pubsub_op =
    OSubscribe string
  | OUnsubscribe string nat
  | OPublish "nat \<Rightarrow> bool" string 'm
  | OReceive nat
  | OClose

record 'm hist =
  broker :: "'m pubsub"
  taken :: "nat \<Rightarrow> 'm list"

fun pubsub_step :: "'m hist \<Rightarrow> 'm pubsub_op \<Rightarrow> 'm hist" where
  "pubsub_step h (OSubscribe t) = h\<lparr>broker := snd (Subscribe t (broker h))\<rparr>"
| "pubsub_step h (OUnsubscribe t ch) = h\<lparr>broker := Unsubscribe t ch (broker h)\<rparr>"
| "pubsub_step h (OPublish late t msg) = h\<lparr>broker := snd (Publish late t msg (broker h))\<rparr>"
| "pubsub_step h (OReceive ch) =
     (case Receive ch (broker h) of
        None \<Rightarrow> h
      | Some (x, m) \<Rightarrow> h\<lparr>broker := m, taken := (taken h)(ch := taken h ch @ [x])\<rparr>)"
| "pubsub_step h OClose = h\<lparr>broker := Close (broker h)\<rparr>"

definition pubsub_run :: "'m hist \<Rightarrow> 'm pubsub_op list \<Rightarrow> 'm hist" where
  "pubsub_run h os = foldl pubsub_step h os"

text \<open>The messages of a run that a channel took: those published to a topic while it subscribed there.\<close>

fun sent_to :: "nat \<Rightarrow> 'm hist \<Rightarrow> 'm pubsub_op list \<Rightarrow> 'm list" where
  "sent_to ch h [] = []"
| "sent_to ch h (x # os) =
     (case x of
        OPublish late t msg \<Rightarrow>
          (if ch \<in> set (subscribers t (broker h)) \<and> takes late (broker h) ch then [msg] else [])
      | _ \<Rightarrow> []) @ sent_to ch (pubsub_step h x) os"

lemma pubsub_step_inv: "pubsub_inv (broker h) \<Longrightarrow> pubsub_inv (broker (pubsub_step h x))"
  by (cases x) (auto simp: Subscribe_inv Unsubscribe_inv Publish_inv Close_inv Receive_inv
      split: option.splits prod.splits)

interpretation pubsub_events: event_system pubsub_step "\<lambda>h. pubsub_inv (broker h)"
  by unfold_locales (rule pubsub_step_inv)

lemma pubsub_run_inv: "pubsub_inv (broker h) \<Longrightarrow> pubsub_inv (broker (pubsub_run h os))"
  unfolding pubsub_run_def by (rule pubsub_events.run_inv)

lemma step_history:
  assumes "pubsub_inv (broker h)" "ch < next_ch (broker h)"
  shows "taken (pubsub_step h x) ch @ chan_buf (heap (broker (pubsub_step h x)) ch) =
     taken h ch @ chan_buf (heap (broker h) ch) @ sent_to ch h [x] \<and> ch < next_ch (broker (pubsub_step h x))"
proof (cases x)
  case (OReceive c)
  then show ?thesis using assms
    by (auto simp: Receive_def chan_recv_eq_Some split: option.splits prod.splits)
next
  case (OPublish late t msg)
  then show ?thesis using assms by (auto simp: Publish_spec)
qed (use assms in \<open>auto simp: Subscribe_unfold Unsubscribe_unfold Close_def\<close>)

lemma run_history:
  "pubsub_inv (broker h) \<Longrightarrow> ch < next_ch (broker h) \<Longrightarrow>
     taken (pubsub_run h os) ch @ chan_buf (heap (broker (pubsub_run h os)) ch) =
     taken h ch @ chan_buf (heap (broker h) ch) @ sent_to ch h os"
proof (induction os arbitrary: h)
  case (Cons x os)
  have "taken (pubsub_run (pubsub_step h x) os) ch @ chan_buf (heap (broker (pubsub_run (pubsub_step h x) os)) ch)
    = taken (pubsub_step h x) ch @ chan_buf (heap (broker (pubsub_step h x)) ch) @ sent_to ch (pubsub_step h x) os"
    using Cons step_history [OF Cons.prems, of x] pubsub_step_inv by blast
  also have "\<dots> = taken h ch @ chan_buf (heap (broker h) ch) @ sent_to ch h [x] @ sent_to ch (pubsub_step h x) os"
    using step_history [OF Cons.prems, of x] by (metis append.assoc)
  finally show ?case by (simp add: pubsub_run_def)
qed (simp add: pubsub_run_def)

text \<open>Channels not handed out yet are empty and nothing was taken from them.\<close>

definition fresh_above :: "'m hist \<Rightarrow> bool" where
  "fresh_above h \<longleftrightarrow> (\<forall>ch \<ge> next_ch (broker h). taken h ch = [] \<and> chan_buf (heap (broker h) ch) = [])"

definition start_hist :: "nat \<Rightarrow> 'm hist" where
  "start_hist sz = \<lparr>broker = NewPubsub sz, taken = (\<lambda>_. [])\<rparr>"

lemma fresh_step:
  assumes "pubsub_inv (broker h)" "fresh_above h"
  shows "fresh_above (pubsub_step h x)"
proof (cases x)
  case (OReceive c)
  then show ?thesis using assms(2)
    by (fastforce simp: fresh_above_def Receive_def chan_recv_eq_Some split: option.splits prod.splits)
next
  case (OPublish late t msg)
  have "ch < next_ch (broker h)" if "ch \<in> set (subscribers t (broker h))" for ch
    using that assms(1) by (auto simp: pubsub_inv_def)
  then show ?thesis using OPublish assms
    by (fastforce simp: fresh_above_def Publish_spec)
qed (use assms(2) in \<open>auto simp: fresh_above_def Subscribe_unfold Unsubscribe_unfold Close_def\<close>)

lemma fresh_run:
  "pubsub_inv (broker h) \<Longrightarrow> fresh_above h \<Longrightarrow> fresh_above (pubsub_run h os)"
  unfolding pubsub_run_def by (induction os arbitrary: h) (auto simp: fresh_step pubsub_step_inv)

lemma start_hist_ok: "pubsub_inv (broker (start_hist sz))" "fresh_above (start_hist sz)"
  by (simp_all add: start_hist_def NewPubsub_inv fresh_above_def) (simp add: NewPubsub_def)

lemma new_subscription:
  fixes before :: "'m pubsub_op list" and sz :: nat and topic :: string
  defines "h \<equiv> pubsub_run (start_hist sz) before"
  defines "h1 \<equiv> pubsub_step h (OSubscribe topic)" and "ch \<equiv> fst (Subscribe topic (broker h))"
  shows "pubsub_inv (broker h1)" "taken h1 ch = []" "chan_buf (heap (broker h1) ch) = []" "ch < next_ch (broker h1)"
proof -
  have inv: "pubsub_inv (broker h)" "fresh_above h"
    unfolding h_def using start_hist_ok pubsub_run_inv fresh_run by blast+
  show "pubsub_inv (broker h1)" unfolding h1_def by (rule pubsub_step_inv [OF inv(1)])
  show "taken h1 ch = []" "chan_buf (heap (broker h1) ch) = []" "ch < next_ch (broker h1)"
    using inv(2) unfolding h1_def ch_def by (auto simp: fresh_above_def Subscribe_unfold)
qed

text \<open>
  C2. A subscription is a faithful, ordered view of its topic. After any history of the broker, a
  new subscription's messages, those its subscriber has received followed by those still
  queued, are exactly the messages published from then on to a topic it is subscribed to and
  accepted by its channel, in the order of publication, whatever else happens: other
  subscribers, slow channels, cancellations, \<open>Close\<close>.
\<close>

theorem subscription_history:
  "let h = pubsub_run (start_hist sz) before;
       ch = fst (Subscribe topic (broker h));
       h' = pubsub_run (pubsub_step h (OSubscribe topic)) after
   in taken h' ch @ chan_buf (heap (broker h') ch) = sent_to ch (pubsub_step h (OSubscribe topic)) after \<and>
      length (chan_buf (heap (broker h') ch)) \<le> sz"
proof -
  let ?h = "pubsub_run (start_hist sz) before"
  let ?h1 = "pubsub_step ?h (OSubscribe topic)"
  let ?h' = "pubsub_run ?h1 after"
  let ?ch = "next_ch (broker ?h)"
  note inv0 = start_hist_ok(1)
  have inv1: "pubsub_inv (broker ?h1)"
    and h1: "taken ?h1 ?ch = []" "chan_buf (heap (broker ?h1) ?ch) = []" "?ch < next_ch (broker ?h1)"
    using new_subscription [where sz = sz and before = before and topic = topic] by (simp_all add: Subscribe_unfold)
  have sz: "size (broker (pubsub_run h os)) = size (broker h)" if "pubsub_inv (broker h)" for h :: "'a hist" and os
    using that unfolding pubsub_run_def
  proof (induction os arbitrary: h)
    case (Cons x os)
    have "size (broker (pubsub_step h x)) = size (broker h)" using Cons.prems
      by (cases x) (auto simp: Subscribe_unfold Unsubscribe_unfold Close_def Publish_spec Receive_def
          split: option.splits)
    with Cons pubsub_step_inv show ?case by fastforce
  qed simp
  have nxt: "next_ch (broker h) \<le> next_ch (broker (pubsub_run h os))" if "pubsub_inv (broker h)" for h :: "'a hist" and os
    using that unfolding pubsub_run_def
  proof (induction os arbitrary: h)
    case (Cons x os)
    have "next_ch (broker h) \<le> next_ch (broker (pubsub_step h x))" using Cons.prems
      by (cases x) (auto simp: Subscribe_unfold Unsubscribe_unfold Close_def Publish_spec Receive_def
          split: option.splits)
    with Cons pubsub_step_inv show ?case by (metis foldl_Cons le_trans)
  qed simp
  have "taken ?h' ?ch @ chan_buf (heap (broker ?h') ?ch) = sent_to ?ch ?h1 after"
    using run_history [OF inv1 h1(3)] h1 by simp
  moreover have "length (chan_buf (heap (broker ?h') ?ch)) \<le> sz"
  proof -
    have "pubsub_inv (broker ?h')" using inv1 by (rule pubsub_run_inv)
    moreover have "?ch < next_ch (broker ?h')" using h1(3) nxt [OF inv1, of after] by simp
    moreover have "size (broker ?h') = sz"
      using sz [OF inv1] sz [OF inv0] by (simp add: Subscribe_unfold start_hist_def NewPubsub_def)
    ultimately show ?thesis unfolding pubsub_inv_def chan_wf_def by metis
  qed
  ultimately show ?thesis by (simp add: Subscribe_unfold Let_def)
qed

text \<open>
  One publication on a well-formed broker: every subscriber of the topic whose channel has room
  (and whose timer does not fire first) gets the message once, at the end of its queue; no
  other channel changes; the result is nil exactly when nobody was missed, and otherwise
  one timeout line for each missed subscriber.
\<close>

theorem Publish_delivers:
  assumes "pubsub_inv m"
  shows "let r = Publish late topic msg m;
             missed = filter (\<lambda>ch. late ch \<or> chan_full (heap m ch)) (subscribers topic m)
         in (fst r = None \<longleftrightarrow> missed = []) \<and>
            (missed \<noteq> [] \<longrightarrow> fst r = Some (strings_Join (replicate (length missed) ErrPubsubTimeout) [CHR 0x0A])) \<and>
            (\<forall>ch. chan_buf (heap (snd r) ch) = chan_buf (heap m ch) @
               (if ch \<in> set (subscribers topic m) \<and> ch \<notin> set missed then [msg] else [])) \<and>
            channels (snd r) = channels m \<and> pubsub_inv (snd r)"
proof -
  have "filter (\<lambda>ch. \<not> takes late m ch) (subscribers topic m) =
      filter (\<lambda>ch. late ch \<or> chan_full (heap m ch)) (subscribers topic m)"
    by (rule filter_cong) (auto simp: takes_def)
  then show ?thesis
    using Publish_inv [OF assms, of late topic msg]
    by (auto simp: Publish_spec [OF assms] Let_def takes_def)
qed

theorem Publish_delivers_witness:
  "let m = snd (Subscribe ''t'' (snd (Subscribe ''t'' (NewPubsub 1))));
       r = Publish (\<lambda>ch. ch = 1) ''t'' (7::nat) m
   in fst r = Some ErrPubsubTimeout \<and> chan_buf (heap (snd r) 0) = [7] \<and> chan_buf (heap (snd r) 1) = []"
proof -
  let ?m = "snd (Subscribe ''t'' (snd (Subscribe ''t'' (NewPubsub 1)))) :: nat pubsub"
  have inv: "pubsub_inv ?m" by (intro Subscribe_inv NewPubsub_inv)
  have "subscribers ''t'' ?m = [0, 1]" "chan_buf (heap ?m 0) = []" "chan_buf (heap ?m 1) = []"
    "chan_cap (heap ?m 0) = 1" "chan_cap (heap ?m 1) = 1"
    by (simp_all add: Subscribe_unfold subscribers_put NewPubsub_def) (simp_all add: subscribers_def getChannel_def)
  then show ?thesis using Publish_delivers [OF inv, of "\<lambda>ch. ch = 1" "''t''" 7]
    by (auto simp: Let_def chan_full_def)
qed

section \<open>Processors\<close>

text \<open>
  A processor drains one channel into a handler. The events of its loop: a message, the timer
  (armed only when the timeout is positive), the death of its tomb. An error of the handler
  is only logged. The state records what the handler saw.
\<close>

datatype 'm proc_event = PMessage 'm | PTimer | PDying

record 'm processor =
  timed :: bool
  handler :: bool
  armed :: bool
  seen :: "'m list"
  timeouts :: nat
  killed :: bool
  returned :: bool

definition NewProcessor :: "int \<Rightarrow> bool \<Rightarrow> 'm processor" where
  "NewProcessor timeout h = \<lparr>timed = (0 < timeout), handler = h, armed = (0 < timeout), seen = [],
     timeouts = 0, killed = False, returned = False\<rparr>"

definition on_message :: "'m \<Rightarrow> 'm processor \<Rightarrow> 'm processor" where
  "on_message msg p = (if handler p then p\<lparr>seen := seen p @ [msg]\<rparr> else p)"

text \<open>An event that is not enabled leaves the loop blocked: \<open>None\<close>.\<close>

fun timerProcessing_step :: "'m processor \<Rightarrow> 'm proc_event \<Rightarrow> 'm processor option" where
  "timerProcessing_step p (PMessage msg) = Some ((on_message msg p)\<lparr>armed := True\<rparr>)"
| "timerProcessing_step p PTimer =
     (if armed p then
        Some ((if handler p then p\<lparr>timeouts := Suc (timeouts p)\<rparr> else p)\<lparr>armed := False, killed := True\<rparr>)
      else None)"
| "timerProcessing_step p PDying = (if killed p then Some (p\<lparr>returned := True\<rparr>) else None)"

fun processing_step :: "'m processor \<Rightarrow> 'm proc_event \<Rightarrow> 'm processor option" where
  "processing_step p (PMessage msg) = Some (on_message msg p)"
| "processing_step p PTimer = None"
| "processing_step p PDying = (if killed p then Some (p\<lparr>returned := True\<rparr>) else None)"

fun processor_run :: "'m processor \<Rightarrow> 'm proc_event list \<Rightarrow> 'm processor option" where
  "processor_run p [] = Some p"
| "processor_run p (e # es) =
     (if returned p then None
      else case (if timed p then timerProcessing_step p e else processing_step p e) of
             None \<Rightarrow> None
           | Some p' \<Rightarrow> processor_run p' es)"

definition messages :: "'m proc_event list \<Rightarrow> 'm list" where
  "messages es = concat (map (\<lambda>e. case e of PMessage m \<Rightarrow> [m] | _ \<Rightarrow> []) es)"

lemma processor_step_frame:
  assumes "(if timed p then timerProcessing_step p e else processing_step p e) = Some p'"
  shows "timed p' = timed p \<and> handler p' = handler p \<and>
     seen p' = seen p @ (if handler p then messages [e] else [])"
  using assms by (cases e) (auto simp: on_message_def messages_def split: if_splits)

text \<open>
  Whatever the interleaving with the timer and the tomb, the handler sees each message taken off the
  channel once, in order; a processor that has returned takes no more.
\<close>

lemma processor_sees_all:
  "processor_run p es = Some p' \<Longrightarrow> handler p \<Longrightarrow> seen p' = seen p @ messages es"
proof (induction es arbitrary: p)
  case (Cons e es)
  then obtain p1 where p1: "(if timed p then timerProcessing_step p e else processing_step p e) = Some p1"
    "processor_run p1 es = Some p'"
    by (auto split: if_splits option.splits)
  from processor_step_frame [OF p1(1)] Cons p1(2) show ?case by (simp add: messages_def)
qed (simp add: messages_def)

end
