(* ===== verification/Pubsub_Delivery.thy ===== *)
theory Pubsub_Delivery
  imports Pubsub_Memory
begin

text \<open>
  A processor on a subscription: the broker of \<^verbatim>\<open>pubsub/pubsub.go\<close> and the loop of \<^verbatim>\<open>pubsub/processor.go\<close> run side by side, with publishers, other
  subscribers and \<^verbatim>\<open>Close\<close> of either in between. The property says what the handler sees of what is published.
\<close>

section \<open>The composed system\<close>

record 'm delivery =
  hub :: "'m hist"
  proc :: "'m processor"

datatype 'm delivery_event =
    DOp "'m pubsub_op"
  | DTake
  | DTimer
  | DKill
  | DDying

text \<open>The processor is the only reader of its channel.\<close>

fun reads :: "nat \<Rightarrow> 'm pubsub_op \<Rightarrow> bool" where
  "reads ch (OReceive c) = (c = ch)"
| "reads ch _ = False"

definition proc_step :: "'m processor \<Rightarrow> 'm proc_event \<Rightarrow> 'm processor option" where
  "proc_step p e =
     (if returned p then None else if timed p then timerProcessing_step p e else processing_step p e)"

text \<open>\<^verbatim>\<open>Close\<close> of the processor kills its tomb and waits for the loop to return.\<close>

definition processor_Close :: "'m processor \<Rightarrow> 'm processor" where
  "processor_Close p = p\<lparr>killed := True\<rparr>"

fun delivery_step :: "nat \<Rightarrow> 'm delivery \<Rightarrow> 'm delivery_event \<Rightarrow> 'm delivery option" where
  "delivery_step ch d (DOp x) = (if reads ch x then None else Some (d\<lparr>hub := pubsub_step (hub d) x\<rparr>))"
| "delivery_step ch d DTake =
     (case Receive ch (broker (hub d)) of
        None \<Rightarrow> None
      | Some (msg, _) \<Rightarrow>
          map_option (\<lambda>p. d\<lparr>hub := pubsub_step (hub d) (OReceive ch), proc := p\<rparr>) (proc_step (proc d) (PMessage msg)))"
| "delivery_step ch d DTimer = map_option (\<lambda>p. d\<lparr>proc := p\<rparr>) (proc_step (proc d) PTimer)"
| "delivery_step ch d DKill = Some (d\<lparr>proc := processor_Close (proc d)\<rparr>)"
| "delivery_step ch d DDying = map_option (\<lambda>p. d\<lparr>proc := p\<rparr>) (proc_step (proc d) PDying)"

fun delivery_run :: "nat \<Rightarrow> 'm delivery \<Rightarrow> 'm delivery_event list \<Rightarrow> 'm delivery option" where
  "delivery_run ch d [] = Some d"
| "delivery_run ch d (e # es) = (case delivery_step ch d e of None \<Rightarrow> None | Some d' \<Rightarrow> delivery_run ch d' es)"

text \<open>What a run does to the broker.\<close>

fun broker_ops :: "nat \<Rightarrow> 'm delivery_event list \<Rightarrow> 'm pubsub_op list" where
  "broker_ops ch [] = []"
| "broker_ops ch (DOp x # es) = x # broker_ops ch es"
| "broker_ops ch (DTake # es) = OReceive ch # broker_ops ch es"
| "broker_ops ch (_ # es) = broker_ops ch es"

section \<open>The handler and the channel\<close>

definition in_step :: "nat \<Rightarrow> 'm delivery \<Rightarrow> bool" where
  "in_step ch d \<longleftrightarrow> handler (proc d) \<and> seen (proc d) = taken (hub d) ch"

lemma taken_other: "\<not> reads ch x \<Longrightarrow> taken (pubsub_step h x) ch = taken h ch"
  by (cases x) (auto split: option.splits)

lemma proc_step_frame:
  "proc_step p e = Some p' \<Longrightarrow> handler p \<Longrightarrow> handler p' \<and> seen p' = seen p @ messages [e]"
  using processor_step_frame [of p e p'] by (auto simp: proc_step_def split: if_splits)

lemma delivery_step_in_step:
  assumes "in_step ch d" "delivery_step ch d e = Some d'"
  shows "in_step ch d'"
proof (cases e)
  case DTake
  with assms(2) obtain msg m p where "Receive ch (broker (hub d)) = Some (msg, m)" "proc_step (proc d) (PMessage msg) = Some p"
    "d' = d\<lparr>hub := pubsub_step (hub d) (OReceive ch), proc := p\<rparr>"
    by (auto split: option.splits)
  with proc_step_frame assms(1) show ?thesis by (fastforce simp: in_step_def messages_def)
qed (use assms proc_step_frame taken_other in \<open>fastforce simp: in_step_def messages_def processor_Close_def split: if_splits\<close>)+

interpretation deliveries: partial_event_system "delivery_step ch" "in_step ch" for ch
  by unfold_locales (rule delivery_step_in_step)

lemma delivery_run_in_step: "in_step ch d \<Longrightarrow> delivery_run ch d es = Some d' \<Longrightarrow> in_step ch d'"
  by (induction es arbitrary: d) (auto intro: deliveries.try_inv split: option.splits)

lemma delivery_run_hub: "delivery_run ch d es = Some d' \<Longrightarrow> hub d' = pubsub_run (hub d) (broker_ops ch es)"
proof (induction es arbitrary: d)
  case (Cons e es)
  then obtain d1 where d1: "delivery_step ch d e = Some d1" "delivery_run ch d1 es = Some d'" by (auto split: option.splits)
  from Cons.IH [OF d1(2)] d1(1) show ?case
    by (cases e) (auto simp: pubsub_run_def split: option.splits if_splits)
qed (simp add: pubsub_run_def)

text \<open>
  C4. From publisher to handler. A processor is started on a new subscription, after any history of the broker. However publishers, other
  subscribers, cancellations, the timer of the processor and the closing of either side interleave with its loop: the messages its handler has
  been called with, followed by those waiting in the channel, are exactly those that were published to the topic while
  subscribed and accepted by the channel, in the order of publication; so the handler sees no message twice, out of order or after
  a later one.
\<close>

theorem handler_sees_publications:
  assumes "h = pubsub_run (start_hist sz) before" and "ch = fst (Subscribe topic (broker h))"
    and "delivery_run ch \<lparr>hub = pubsub_step h (OSubscribe topic), proc = NewProcessor timeout True\<rparr> evs = Some d"
  shows "seen (proc d) @ chan_buf (heap (broker (hub d)) ch) = sent_to ch (pubsub_step h (OSubscribe topic)) (broker_ops ch evs)"
proof -
  let ?h1 = "pubsub_step h (OSubscribe topic)"
  have new: "pubsub_inv (broker ?h1)" "taken ?h1 ch = []" "chan_buf (heap (broker ?h1) ch) = []" "ch < next_ch (broker ?h1)"
    using new_subscription [where sz = sz and before = before and topic = topic] assms(1,2) by simp_all
  have "seen (proc d) = taken (hub d) ch"
    using delivery_run_in_step [OF _ assms(3)] new(2) by (simp add: in_step_def NewProcessor_def)
  moreover have "hub d = pubsub_run ?h1 (broker_ops ch evs)" using delivery_run_hub [OF assms(3)] by simp
  ultimately show ?thesis using run_history [OF new(1,4)] new(2,3) by simp
qed

text \<open>A message that waits is taken as long as the loop has not returned, and a closed processor can always return.\<close>

lemma delivery_progress:
  "chan_buf (heap (broker (hub d)) ch) \<noteq> [] \<Longrightarrow> \<not> returned (proc d) \<Longrightarrow> delivery_step ch d DTake \<noteq> None"
  "\<not> returned (proc d) \<Longrightarrow> delivery_run ch d [DKill, DDying] \<noteq> None"
  by (auto simp: Receive_def chan_recv_def proc_step_def processor_Close_def split: list.splits option.splits)

definition demo_delivery :: "string delivery_event list" where
  "demo_delivery = [DOp (OPublish (\<lambda>_. False) ''t'' ''a''), DOp (OPublish (\<lambda>_. False) ''u'' ''x''), DTake,
     DOp (OPublish (\<lambda>_. False) ''t'' ''b''), DKill, DDying]"

theorem handler_sees_publications_witness:
  "\<exists>d. delivery_run 0 \<lparr>hub = pubsub_step (start_hist 2) (OSubscribe ''t''), proc = NewProcessor 5 True\<rparr> demo_delivery = Some d \<and>
     seen (proc d) @ [''b''] = [''a'', ''b'']"
proof -
  have "map_option (\<lambda>d. chan_buf (heap (broker (hub d)) 0))
      (delivery_run 0 \<lparr>hub = pubsub_step (start_hist 2) (OSubscribe ''t''), proc = NewProcessor 5 True\<rparr> demo_delivery) = Some [''b'']"
    by code_simp
  then obtain d where d: "delivery_run 0 \<lparr>hub = pubsub_step (start_hist 2) (OSubscribe ''t''), proc = NewProcessor 5 True\<rparr> demo_delivery = Some d"
    "chan_buf (heap (broker (hub d)) 0) = [''b'']" by auto
  have sent: "sent_to 0 (pubsub_step (start_hist 2) (OSubscribe ''t'')) (broker_ops 0 demo_delivery) = [''a'', ''b'']"
    by code_simp
  have ch: "(0 :: nat) = fst (Subscribe ''t'' (broker (start_hist 2 :: string hist)))" by code_simp
  have "(start_hist 2 :: string hist) = pubsub_run (start_hist 2) []" by (simp add: pubsub_run_def)
  from handler_sees_publications [OF this ch d(1)] d sent show ?thesis by simp
qed

end
