(* ===== verification/Task_Queue.thy ===== *)
theory Task_Queue
  imports Go_Strconv Complex_Main
begin

text \<open>
  The task queue, package \<^verbatim>\<open>task\<close>: messages and their base64 envelope (\<^verbatim>\<open>message.go\<close>), the channel
  broker, the map backend, the producer and the worker with its reflective call of the task
  function. The JSON text is a parameter of the model; base64 is that of the theory of conversions.
\<close>

section \<open>Values and messages\<close>

text \<open>
  Values of type \<^verbatim>\<open>interface{}\<close> as far as the package tells them apart. A finite float is the
  rational it denotes; \<open>fp\<close> holds the roundings to the two float types.
\<close>

datatype goval =
    GNil | GBool bool | GInt int | GInt64 int | GUint nat | GFloat32 rat | GFloat64 rat
  | GString string | GSlice "goval list" | GMap "(string \<times> goval) list" | GError string

datatype kind =
    KBool | KInt | KInt64 | KUint | KFloat32 | KFloat64 | KString | KSlice | KMap | KPtr | KInterface

record fp =
  rnd64 :: "rat \<Rightarrow> rat"
  rnd32 :: "rat \<Rightarrow> rat"

text \<open>\<^verbatim>\<open>reflect.TypeOf(v).Kind()\<close>; the type of a nil interface is nil, and its \<^verbatim>\<open>Kind\<close> panics.\<close>

fun kind_of :: "goval \<Rightarrow> kind option" where
  "kind_of GNil = None"
| "kind_of (GBool _) = Some KBool"
| "kind_of (GInt _) = Some KInt"
| "kind_of (GInt64 _) = Some KInt64"
| "kind_of (GUint _) = Some KUint"
| "kind_of (GFloat32 _) = Some KFloat32"
| "kind_of (GFloat64 _) = Some KFloat64"
| "kind_of (GString _) = Some KString"
| "kind_of (GSlice _) = Some KSlice"
| "kind_of (GMap _) = Some KMap"
| "kind_of (GError _) = Some KPtr"

text \<open>What a value has become after JSON encoding and decoding into \<^verbatim>\<open>interface{}\<close>: numbers are \<^verbatim>\<open>float64\<close>.\<close>

fun json_value :: "fp \<Rightarrow> goval \<Rightarrow> goval" where
  "json_value p (GInt n) = GFloat64 (rnd64 p (of_int n))"
| "json_value p (GInt64 n) = GFloat64 (rnd64 p (of_int n))"
| "json_value p (GUint n) = GFloat64 (rnd64 p (of_nat n))"
| "json_value p (GFloat32 r) = GFloat64 r"
| "json_value p (GSlice xs) = GSlice (map (json_value p) xs)"
| "json_value p (GMap m) = GMap (map (\<lambda>(k, v). (k, json_value p v)) m)"
| "json_value p (GError _) = GMap []"
| "json_value p v = v"

text \<open>A nil slice or map is \<open>None\<close>, and JSON keeps it (\<^verbatim>\<open>null\<close>).\<close>

record TaskMessage =
  tm_ID :: string
  tm_Name :: string
  tm_Args :: "goval list option"
  tm_Kwargs :: "(string \<times> goval) list option"
  tm_Retries :: int
  tm_Expires :: "int option"

record ResultMessage =
  rm_ID :: string
  rm_Status :: string
  rm_Traceback :: string
  rm_Result :: goval

record BrokerMessage =
  bm_ID :: string
  bm_Value :: string

definition TaskSuccess :: string where "TaskSuccess = ''success''"
definition TaskFail :: string where "TaskFail = ''fail''"

datatype task_error =
    SendMsgTimeout | GetMsgTimeout | ErrResultNotFound | ErrInvalidArgs | GetTimeout string
  | TaskExpired string | ArgsNil string | NotRegistered string
  | JsonError string | Base64Error | TaskError string

text \<open>A call that returns, returns an error, or panics.\<close>

datatype ('e, 'a) outcome = Ok 'a | Fail 'e | Panic

record json_codec =
  json_Marshal :: "TaskMessage \<Rightarrow> (string, string) result"
  json_Unmarshal :: "string \<Rightarrow> (string, TaskMessage) result"

definition json_message :: "fp \<Rightarrow> TaskMessage \<Rightarrow> TaskMessage" where
  "json_message p tm = tm\<lparr>tm_Args := map_option (map (json_value p)) (tm_Args tm),
     tm_Kwargs := map_option (map (\<lambda>(k, v). (k, json_value p v))) (tm_Kwargs tm)\<rparr>"

definition json_law :: "fp \<Rightarrow> json_codec \<Rightarrow> bool" where
  "json_law p J \<longleftrightarrow> (\<forall>tm d. json_Marshal J tm = Inr d \<longrightarrow> json_Unmarshal J d = Inr (json_message p tm))"

definition Encode :: "json_codec \<Rightarrow> TaskMessage \<Rightarrow> (task_error, string) result" where
  "Encode J tm =
     (case json_Marshal J tm of Inl e \<Rightarrow> Inl (JsonError e) | Inr d \<Rightarrow> Inr (EncodeToString d))"

definition Decode :: "json_codec \<Rightarrow> BrokerMessage \<Rightarrow> (task_error, TaskMessage) result" where
  "Decode J bm =
     (case DecodeString (bm_Value bm) of
        None \<Rightarrow> Inl Base64Error
      | Some body \<Rightarrow>
          (case json_Unmarshal J body of Inl e \<Rightarrow> Inl (JsonError e) | Inr tm \<Rightarrow> Inr tm))"

lemma Decode_Encode:
  assumes "json_law p J" "Encode J tm = Inr v"
  shows "Decode J \<lparr>bm_ID = i, bm_Value = v\<rparr> = Inr (json_message p tm)"
  using assms by (auto simp: Encode_def Decode_def json_law_def split: sum.splits)

section \<open>The channel broker\<close>

record channelBroker =
  broker :: "BrokerMessage chan"
  closed :: bool

definition NewChannelBroker :: "nat \<Rightarrow> channelBroker" where
  "NewChannelBroker cache = \<lparr>broker = make_chan cache, closed = False\<rparr>"

text \<open>\<open>late\<close>: the timer of the \<^verbatim>\<open>select\<close> won. A send on a closed channel panics.\<close>

definition SendMessage ::
  "bool \<Rightarrow> BrokerMessage \<Rightarrow> channelBroker \<Rightarrow> (task_error, channelBroker) outcome" where
  "SendMessage late msg b =
     (if closed b then Panic
      else if late then Fail SendMsgTimeout
      else case chan_send (broker b) msg of
             None \<Rightarrow> Fail SendMsgTimeout
           | Some ch \<Rightarrow> Ok (b\<lparr>broker := ch\<rparr>))"

text \<open>A receive from a closed and drained channel yields a nil message and no error.\<close>

definition GetMessage ::
  "bool \<Rightarrow> channelBroker \<Rightarrow> (task_error, BrokerMessage option) result \<times> channelBroker" where
  "GetMessage late b =
     (if late then (Inl GetMsgTimeout, b)
      else case chan_recv (broker b) of
             Some (m, ch) \<Rightarrow> (Inr (Some m), b\<lparr>broker := ch\<rparr>)
           | None \<Rightarrow> (if closed b then Inr None else Inl GetMsgTimeout, b))"

definition channelBroker_Close :: "channelBroker \<Rightarrow> channelBroker option" where
  "channelBroker_Close b = (if closed b then None else Some (b\<lparr>closed := True\<rparr>))"

text \<open>Without the timer the broker is a bounded queue of messages.\<close>

definition broker_send :: "channelBroker \<Rightarrow> BrokerMessage \<Rightarrow> channelBroker option" where
  "broker_send b m = (case SendMessage False m b of Ok b' \<Rightarrow> Some b' | _ \<Rightarrow> None)"

definition broker_recv :: "channelBroker \<Rightarrow> (BrokerMessage \<times> channelBroker) option" where
  "broker_recv b = (case GetMessage False b of (Inr (Some m), b') \<Rightarrow> Some (m, b') | _ \<Rightarrow> None)"

interpretation task_broker: bounded_fifo NewChannelBroker broker_send broker_recv
  "\<lambda>b. chan_buf (broker b)" "\<lambda>b. chan_cap (broker b)" "\<lambda>b. chan_wf (broker b) \<and> \<not> closed b"
  by unfold_locales
    (auto simp: NewChannelBroker_def broker_send_def broker_recv_def SendMessage_def GetMessage_def
      chan_wf_def go_chan split: option.splits if_splits sum.splits prod.splits)

section \<open>The map backend and task results\<close>

type_synonym mapBackend = "string \<rightharpoonup> ResultMessage"

definition NewMapBackend :: mapBackend where
  "NewMapBackend = Map.empty"

definition GetResult :: "string \<Rightarrow> mapBackend \<Rightarrow> (task_error, ResultMessage) result \<times> mapBackend" where
  "GetResult taskId m =
     (case m taskId of
        None \<Rightarrow> (Inl ErrResultNotFound, m)
      | Some r \<Rightarrow> (Inr r, m(taskId := None)))"

definition SetResult :: "string \<Rightarrow> ResultMessage \<Rightarrow> mapBackend \<Rightarrow> mapBackend" where
  "SetResult taskID r m = m(taskID \<mapsto> r)"

interpretation task_backend: kv_store "\<lambda>m k. m k" "\<lambda>m k r. SetResult k r m" "\<lambda>m k. snd (GetResult k m)"
  by unfold_locales (auto simp: SetResult_def GetResult_def split: option.splits)

record TaskResult =
  tr_ID :: string
  tr_result :: "ResultMessage option"

definition AsyncGet :: "TaskResult \<Rightarrow> mapBackend \<Rightarrow> (task_error, ResultMessage) result \<times> mapBackend" where
  "AsyncGet tr m =
     (case tr_result tr of Some r \<Rightarrow> (Inr r, m) | None \<Rightarrow> GetResult (tr_ID tr) m)"

text \<open>
  \<^verbatim>\<open>Get\<close>: the ticks and the timeout of its loop, between which the worker may store results. An
  error other than \<open>ErrResultNotFound\<close> is returned as a nil result and no error; \<open>None\<close>: still waiting.
\<close>

datatype get_event = GTick | GTimeout | GStore string ResultMessage

fun Get ::
  "TaskResult \<Rightarrow> get_event list \<Rightarrow> mapBackend \<Rightarrow>
     (task_error, ResultMessage option) result option \<times> mapBackend" where
  "Get tr [] m = (None, m)"
| "Get tr (GTimeout # es) m = (Some (Inl (GetTimeout (tr_ID tr))), m)"
| "Get tr (GStore i r # es) m = Get tr es (SetResult i r m)"
| "Get tr (GTick # es) m =
     (case AsyncGet tr m of
        (Inl e, m') \<Rightarrow> (if e = ErrResultNotFound then Get tr es m' else (Some (Inr None), m'))
      | (Inr r, m') \<Rightarrow> (Some (Inr (Some r)), m'))"

section \<open>The producer\<close>

text \<open>
  \<open>pid\<close> is the fresh UUID. \<open>args = None\<close> is a call with no variadic argument, a nil slice. The
  \<^verbatim>\<open>TaskResult\<close> the source returns beside the error of a failed send is dropped.
\<close>

definition add_message ::
  "json_codec \<Rightarrow> bool \<Rightarrow> TaskMessage \<Rightarrow> channelBroker \<Rightarrow>
     (task_error, TaskResult \<times> channelBroker) outcome" where
  "add_message J late tm b =
     (case Encode J tm of
        Inl e \<Rightarrow> Fail e
      | Inr v \<Rightarrow>
          (case SendMessage late \<lparr>bm_ID = tm_ID tm, bm_Value = v\<rparr> b of
             Ok b' \<Rightarrow> Ok (\<lparr>tr_ID = tm_ID tm, tr_result = None\<rparr>, b')
           | Fail e \<Rightarrow> Fail e
           | Panic \<Rightarrow> Panic))"

definition AddTask ::
  "json_codec \<Rightarrow> bool \<Rightarrow> string \<Rightarrow> string \<Rightarrow> goval list option \<Rightarrow> channelBroker \<Rightarrow>
     (task_error, TaskResult \<times> channelBroker) outcome" where
  "AddTask J late pid name args b =
     add_message J late \<lparr>tm_ID = pid, tm_Name = name, tm_Args = args, tm_Kwargs = Some [],
       tm_Retries = 0, tm_Expires = None\<rparr> b"

definition AddTaskWithKey ::
  "json_codec \<Rightarrow> bool \<Rightarrow> string \<Rightarrow> string \<Rightarrow> (string \<times> goval) list option \<Rightarrow> channelBroker \<Rightarrow>
     (task_error, TaskResult \<times> channelBroker) outcome" where
  "AddTaskWithKey J late pid name args b =
     add_message J late \<lparr>tm_ID = pid, tm_Name = name, tm_Args = Some [], tm_Kwargs = args,
       tm_Retries = 0, tm_Expires = None\<rparr> b"

section \<open>The worker\<close>

text \<open>
  A registered task: an implementation of \<^verbatim>\<open>AsyncTask\<close> (its \<^verbatim>\<open>ParseKwargs\<close> and, on the parsed
  arguments, \<^verbatim>\<open>RunTask\<close>), a function with the kinds of its parameters and what it returns, or
  some other value, on which reflection panics.
\<close>

datatype task =
    TAsync "(string \<times> goval) list option \<Rightarrow> string option"
      "(string \<times> goval) list option \<Rightarrow> goval \<times> string option"
  | TFunc "kind list" "goval list \<Rightarrow> goval list"
  | TOther

record taskWorker =
  registeredTasks :: "string \<rightharpoonup> task"

definition NewTaskWorker :: taskWorker where
  "NewTaskWorker = \<lparr>registeredTasks = Map.empty\<rparr>"

definition Register :: "string \<Rightarrow> task \<Rightarrow> taskWorker \<Rightarrow> taskWorker" where
  "Register name t w = w\<lparr>registeredTasks := (registeredTasks w)(name \<mapsto> t)\<rparr>"

definition getTask :: "string \<Rightarrow> taskWorker \<Rightarrow> task option" where
  "getTask name w = registeredTasks w name"

text \<open>\<^verbatim>\<open>int(f)\<close> truncates towards zero (for results in range; Go leaves the others unspecified).\<close>

definition trunc :: "rat \<Rightarrow> int" where
  "trunc r = (if r < 0 then - \<lfloor>- r\<rfloor> else \<lfloor>r\<rfloor>)"

fun convert_arg :: "fp \<Rightarrow> kind \<Rightarrow> goval \<Rightarrow> goval" where
  "convert_arg p KInt (GFloat64 r) = GInt (trunc r)"
| "convert_arg p KFloat32 (GFloat64 r) = GFloat32 (rnd32 p r)"
| "convert_arg p k v = v"

text \<open>The loop over the arguments; \<open>None\<close> is the panic on the kind of a nil argument.\<close>

fun convert_args :: "fp \<Rightarrow> kind list \<Rightarrow> goval list \<Rightarrow> goval list option" where
  "convert_args p (k # ks) (v # vs) =
     (if kind_of v = None then None
      else map_option (\<lambda>xs. convert_arg p k v # xs) (convert_args p ks vs))"
| "convert_args p _ _ = Some []"

text \<open>\<^verbatim>\<open>reflect.Value.Call\<close> panics when an argument cannot be assigned to its parameter.\<close>

definition assignable :: "kind \<Rightarrow> goval \<Rightarrow> bool" where
  "assignable k v = (k = KInterface \<or> kind_of v = Some k)"

fun GetRealValue :: "goval \<Rightarrow> goval" where
  "GetRealValue (GInt n) = GInt64 n"
| "GetRealValue (GFloat32 r) = GFloat64 r"
| "GetRealValue (GError _) = GNil"
| "GetRealValue v = v"

text \<open>The second result must be an error; \<^verbatim>\<open>IsNil\<close> and the type assertion panic on anything else.\<close>

definition runTaskFunc ::
  "fp \<Rightarrow> kind list \<Rightarrow> (goval list \<Rightarrow> goval list) \<Rightarrow> TaskMessage \<Rightarrow> (task_error, ResultMessage) outcome" where
  "runTaskFunc p ks f msg =
     (let args = (case tm_Args msg of None \<Rightarrow> [] | Some xs \<Rightarrow> xs) in
      if length ks \<noteq> length args then Fail ErrInvalidArgs
      else
        case convert_args p ks args of
          None \<Rightarrow> Panic
        | Some params \<Rightarrow>
            (if \<not> list_all2 assignable ks params then Panic
             else
               (let result = \<lparr>rm_ID = tm_ID msg, rm_Status = TaskSuccess, rm_Traceback = [], rm_Result = GNil\<rparr>
                in case f params of
                     [] \<Rightarrow> Ok result
                   | [v] \<Rightarrow> Panic
                   | v # e # _ \<Rightarrow>
                       (let result = result\<lparr>rm_Result := GetRealValue v\<rparr> in
                        case e of
                          GNil \<Rightarrow> Ok result
                        | GError txt \<Rightarrow> Ok (result\<lparr>rm_Status := TaskFail, rm_Traceback := txt\<rparr>)
                        | _ \<Rightarrow> Panic))))"

definition runTask ::
  "fp \<Rightarrow> int \<Rightarrow> taskWorker \<Rightarrow> TaskMessage \<Rightarrow> (task_error, ResultMessage) outcome" where
  "runTask p now w msg =
     (if (case tm_Expires msg of None \<Rightarrow> False | Some t \<Rightarrow> t < now) then Fail (TaskExpired (tm_ID msg))
      else if tm_Args msg = None then Fail (ArgsNil (tm_ID msg))
      else
        case getTask (tm_Name msg) w of
          None \<Rightarrow> Fail (NotRegistered (tm_Name msg))
        | Some (TAsync parse run) \<Rightarrow>
            (case parse (tm_Kwargs msg) of
               Some e \<Rightarrow> Fail (TaskError e)
             | None \<Rightarrow>
                 (let (val, err) = run (tm_Kwargs msg);
                      result = \<lparr>rm_ID = tm_ID msg, rm_Status = TaskSuccess, rm_Traceback = [], rm_Result = val\<rparr>
                  in case err of
                       None \<Rightarrow> Ok result
                     | Some e \<Rightarrow> Ok (result\<lparr>rm_Status := TaskFail, rm_Traceback := e\<rparr>)))
        | Some (TFunc ks f) \<Rightarrow> runTaskFunc p ks f msg
        | Some TOther \<Rightarrow> Panic)"

text \<open>One tick of the worker's loop. \<open>None\<close>: the goroutine, and with it the process, has panicked.\<close>

definition worker_tick ::
  "json_codec \<Rightarrow> fp \<Rightarrow> int \<Rightarrow> bool \<Rightarrow> taskWorker \<Rightarrow> channelBroker \<times> mapBackend \<Rightarrow>
     (channelBroker \<times> mapBackend) option" where
  "worker_tick J p now late w bm =
     (case GetMessage late (fst bm) of
        (Inl e, b) \<Rightarrow> Some (b, snd bm)
      | (Inr None, b) \<Rightarrow> Some (b, snd bm)
      | (Inr (Some taskMsg), b) \<Rightarrow>
          (case Decode J taskMsg of
             Inl e \<Rightarrow> Some (b, snd bm)
           | Inr decodedMsg \<Rightarrow>
               (case runTask p now w decodedMsg of
                  Panic \<Rightarrow> None
                | Fail e \<Rightarrow> Some (b, snd bm)
                | Ok resultMsg \<Rightarrow>
                    (if rm_Result resultMsg \<noteq> GNil
                     then Some (b, SetResult (bm_ID taskMsg) resultMsg (snd bm))
                     else Some (b, snd bm)))))"

section \<open>Properties\<close>

text \<open>
  The broker hands tasks over in order: over any interleaving of sends and receives on a new
  broker of the given capacity, the messages received followed by those still queued are
  exactly those accepted, in the order of their acceptance.
\<close>

theorem broker_in_order:
  assumes "task_broker.run_ops (NewChannelBroker n) os = (acc, rcv, b)"
  shows "acc = rcv @ chan_buf (broker b) \<and> length (chan_buf (broker b)) \<le> chan_cap (broker b)"
  using task_broker.run_ops_history [OF task_broker.empty_inv assms] task_broker.empty_contents [of n]
  by (auto simp: chan_wf_def)

theorem broker_in_order_witness:
  "\<exists>rcv b. task_broker.run_ops (NewChannelBroker 1)
       [QSend \<lparr>bm_ID = ''a'', bm_Value = []\<rparr>, QSend \<lparr>bm_ID = ''b'', bm_Value = []\<rparr>, QRecv] =
      ([\<lparr>bm_ID = ''a'', bm_Value = []\<rparr>], rcv, b) \<and>
     [\<lparr>bm_ID = ''a'', bm_Value = []\<rparr>] = rcv @ chan_buf (broker b)"
proof -
  let ?os = "[QSend \<lparr>bm_ID = ''a'', bm_Value = []\<rparr>, QSend \<lparr>bm_ID = ''b'', bm_Value = []\<rparr>, QRecv]"
  obtain rcv b where r: "task_broker.run_ops (NewChannelBroker 1) ?os = ([\<lparr>bm_ID = ''a'', bm_Value = []\<rparr>], rcv, b)"
    by (simp add: NewChannelBroker_def broker_send_def broker_recv_def SendMessage_def GetMessage_def
        chan_send_def chan_recv_def chan_full_def)
  with broker_in_order [OF r] show ?thesis by blast
qed

definition exact_ints :: "fp \<Rightarrow> bool" where
  "exact_ints p \<longleftrightarrow> (\<forall>n. \<bar>n\<bar> \<le> 2 ^ 53 \<longrightarrow> rnd64 p (of_int n) = of_int n)"

lemma trunc_of_int [simp]: "trunc (of_int n) = n"
  by (auto simp: trunc_def)

lemma convert_int_args:
  assumes "exact_ints p" "\<forall>n \<in> set ns. \<bar>n\<bar> \<le> 2 ^ 53"
  shows "convert_args p (replicate (length ns) KInt) (map (json_value p) (map GInt ns)) = Some (map GInt ns)"
  using assms by (induction ns) (auto simp: exact_ints_def)

lemma all_assignable_ints: "list_all2 assignable (replicate (length ns) KInt) (map GInt ns)"
  by (induction ns) (auto simp: assignable_def)


text \<open>A codec and a float format for the witnesses: the codec knows two messages.\<close>

definition demo_fp :: fp where
  "demo_fp = \<lparr>rnd64 = (\<lambda>r. r), rnd32 = (\<lambda>r. r)\<rparr>"

definition demo_tm :: "goval list option \<Rightarrow> TaskMessage" where
  "demo_tm args = \<lparr>tm_ID = ''id'', tm_Name = ''add'', tm_Args = args, tm_Kwargs = Some [],
     tm_Retries = 0, tm_Expires = None\<rparr>"

definition demo_json :: json_codec where
  "demo_json = \<lparr>json_Marshal = (\<lambda>tm. if tm = demo_tm (Some [GInt 2, GInt 3]) then Inr ''args''
       else if tm = demo_tm None then Inr ''null'' else Inl ''unknown message''),
     json_Unmarshal = (\<lambda>d. Inr (if d = ''args'' then demo_tm (Some [GFloat64 2, GFloat64 3]) else demo_tm None))\<rparr>"

lemma demo_json_law: "json_law demo_fp demo_json"
  by (auto simp: json_law_def demo_json_def demo_tm_def json_message_def demo_fp_def split: if_splits)

lemma demo_fp_exact: "exact_ints demo_fp"
  by (simp add: exact_ints_def demo_fp_def)

fun demo_add :: "goval list \<Rightarrow> goval list" where
  "demo_add [GInt a, GInt b] = [GInt (a + b), GNil]"
| "demo_add _ = []"


text \<open>
  A task added without arguments is never run: its nil argument list travels as null and the
  worker rejects it as malformed, whatever is registered under the name; the message is
  consumed and no result is ever stored.
\<close>

theorem task_without_arguments_rejected:
  assumes "json_law p J" and "AddTask J False pid name None (NewChannelBroker c) = Ok (tr, b)"
  shows "\<exists>b'. worker_tick J p now False w (b, m) = Some (b', m) \<and> chan_buf (broker b') = []"
proof -
  let ?tm = "\<lparr>tm_ID = pid, tm_Name = name, tm_Args = None, tm_Kwargs = Some [], tm_Retries = 0, tm_Expires = None\<rparr>"
  obtain e where e: "Encode J ?tm = Inr e" "chan_buf (broker b) = [\<lparr>bm_ID = pid, bm_Value = e\<rparr>]"
    using assms(2) by (auto simp: AddTask_def add_message_def SendMessage_def NewChannelBroker_def
        chan_send_def split: sum.splits outcome.splits if_splits)
  have "Decode J \<lparr>bm_ID = pid, bm_Value = e\<rparr> = Inr (json_message p ?tm)"
    by (rule Decode_Encode [OF assms(1) e(1)])
  moreover have "runTask p now w (json_message p ?tm) = Fail (ArgsNil pid)"
    by (simp add: runTask_def json_message_def)
  ultimately show ?thesis using e(2)
    by (simp add: worker_tick_def GetMessage_def chan_recv_def)
qed

theorem task_without_arguments_rejected_witness:
  "\<exists>tr b b'. AddTask demo_json False ''id'' ''add'' None (NewChannelBroker 1) = Ok (tr, b) \<and>
     worker_tick demo_json demo_fp 0 False (Register ''add'' (TFunc [] demo_add) NewTaskWorker) (b, NewMapBackend)
       = Some (b', NewMapBackend)"
proof -
  obtain tr b where add: "AddTask demo_json False ''id'' ''add'' None (NewChannelBroker 1) = Ok (tr, b)"
    by (simp add: AddTask_def add_message_def Encode_def demo_json_def demo_tm_def SendMessage_def
        NewChannelBroker_def chan_send_def chan_full_def)
  from task_without_arguments_rejected [OF demo_json_law add] add show ?thesis by blast
qed

text \<open>A result is handed out once: the second request finds nothing.\<close>

lemma GetResult_once:
  "GetResult i m = (Inr r, m') \<Longrightarrow> GetResult i m' = (Inl ErrResultNotFound, m')"
  by (auto simp: GetResult_def split: option.splits)

text \<open>A function with one result makes the worker panic on \<^verbatim>\<open>res[1]\<close>, after it was called.\<close>

lemma one_result_panics:
  "tm_Args msg = Some [] \<Longrightarrow> f [] = [v] \<Longrightarrow> runTaskFunc p [] f msg = Panic"
  by (simp add: runTaskFunc_def)

text \<open>A result of nil, in particular that of a failed task, is not stored.\<close>

lemma nil_result_not_stored:
  assumes "GetMessage False b = (Inr (Some msg), b')" "Decode J msg = Inr tm"
    "runTask p now w tm = Ok r" "rm_Result r = GNil"
  shows "worker_tick J p now False w (b, m) = Some (b', m)"
  using assms by (simp add: worker_tick_def)

end
