(* ===== verification/Task_System.thy ===== *)
theory Task_System
  imports Task_Queue
begin

text \<open>
  The task queue with several goroutines: producers, any number of started workers and callers that fetch results, over one broker and one
  backend (\<^verbatim>\<open>task/worker.go\<close> with \<^verbatim>\<open>channel\_broker.go\<close>, \<^verbatim>\<open>map\_backend.go\<close> and \<^verbatim>\<open>producer.go\<close>). A worker takes a message in one step and stores
  its result in another, so that others move in between; \<^verbatim>\<open>StartWorker\<close> and \<^verbatim>\<open>StopWorker\<close> are steps as well.
\<close>

section \<open>The composed system\<close>

datatype worker_pc = WWait | WBusy BrokerMessage | WDone

text \<open>
  \<open>cancelled\<close> tells which worker contexts are done; \<open>cancel\<close> is the field of that name, the cancel function of one of them. The last three
  fields record what happened: the messages accepted and taken, the results fetched.
\<close>

record task_sys =
  tq :: channelBroker
  results :: mapBackend
  workers :: "worker_pc list"
  cancelled :: "bool list"
  cancel :: "nat option"
  added :: "BrokerMessage list"
  takes :: "BrokerMessage list"
  fetched :: "(string \<times> ResultMessage) list"

definition start_tasks :: "nat \<Rightarrow> task_sys" where
  "start_tasks n = \<lparr>tq = NewChannelBroker n, results = NewMapBackend, workers = [], cancelled = [], cancel = None,
     added = [], takes = [], fetched = []\<rparr>"

datatype task_event =
    TAdd bool BrokerMessage
  | TStart
  | TStop
  | TParent
  | TTake nat bool
  | TFinish nat int
  | TReturn nat
  | TFetch string
  | TClose

text \<open>\<open>StartWorker\<close> starts a goroutine and overwrites the cancel function of the one before.\<close>

definition StartWorker :: "task_sys \<Rightarrow> task_sys" where
  "StartWorker s = s\<lparr>workers := workers s @ [WWait], cancelled := cancelled s @ [False], cancel := Some (length (workers s))\<rparr>"

text \<open>\<open>None\<close>: the call of the nil function before any start.\<close>

definition StopWorker :: "task_sys \<Rightarrow> task_sys option" where
  "StopWorker s = map_option (\<lambda>i. s\<lparr>cancelled := (cancelled s)[i := True]\<rparr>) (cancel s)"

text \<open>The first half of a tick: the message. Without one the worker waits for the next tick.\<close>

definition worker_take :: "nat \<Rightarrow> bool \<Rightarrow> task_sys \<Rightarrow> task_sys" where
  "worker_take i late s =
     (case GetMessage late (tq s) of
        (Inr (Some m), b) \<Rightarrow> s\<lparr>tq := b, workers := (workers s)[i := WBusy m], takes := takes s @ [m]\<rparr>
      | (_, b) \<Rightarrow> s\<lparr>tq := b\<rparr>)"

text \<open>The second half: decode, run, store. \<open>None\<close> is the panic of the task.\<close>

definition worker_finish :: "json_codec \<Rightarrow> fp \<Rightarrow> taskWorker \<Rightarrow> nat \<Rightarrow> int \<Rightarrow> BrokerMessage \<Rightarrow> task_sys \<Rightarrow> task_sys option" where
  "worker_finish J p w i now m s =
     (let s' = s\<lparr>workers := (workers s)[i := WWait]\<rparr>
      in case Decode J m of
           Inl e \<Rightarrow> Some s'
         | Inr tm \<Rightarrow>
             (case runTask p now w tm of
                Panic \<Rightarrow> None
              | Fail e \<Rightarrow> Some s'
              | Ok r \<Rightarrow> Some (if rm_Result r \<noteq> GNil then s'\<lparr>results := SetResult (bm_ID m) r (results s)\<rparr> else s')))"

text \<open>A tick and a done context may be ready together; the \<^verbatim>\<open>select\<close> may then take either.\<close>

fun task_step :: "json_codec \<Rightarrow> fp \<Rightarrow> taskWorker \<Rightarrow> task_sys \<Rightarrow> task_event \<Rightarrow> task_sys option" where
  "task_step J p w s (TAdd late m) =
     (case SendMessage late m (tq s) of
        Ok b \<Rightarrow> Some (s\<lparr>tq := b, added := added s @ [m]\<rparr>)
      | Fail e \<Rightarrow> Some s
      | Panic \<Rightarrow> None)"
| "task_step J p w s TStart = Some (StartWorker s)"
| "task_step J p w s TStop = StopWorker s"
| "task_step J p w s TParent = Some (s\<lparr>cancelled := map (\<lambda>_. True) (cancelled s)\<rparr>)"
| "task_step J p w s (TTake i late) =
     (if i < length (workers s) \<and> workers s ! i = WWait then Some (worker_take i late s) else None)"
| "task_step J p w s (TFinish i now) =
     (if i < length (workers s)
      then (case workers s ! i of WBusy m \<Rightarrow> worker_finish J p w i now m s | _ \<Rightarrow> None)
      else None)"
| "task_step J p w s (TReturn i) =
     (if i < length (workers s) \<and> workers s ! i = WWait \<and> cancelled s ! i then Some (s\<lparr>workers := (workers s)[i := WDone]\<rparr>) else None)"
| "task_step J p w s (TFetch i) =
     (case GetResult i (results s) of
        (Inl e, _) \<Rightarrow> Some s
      | (Inr r, m) \<Rightarrow> Some (s\<lparr>results := m, fetched := fetched s @ [(i, r)]\<rparr>))"
| "task_step J p w s TClose = map_option (\<lambda>b. s\<lparr>tq := b\<rparr>) (channelBroker_Close (tq s))"

fun task_run :: "json_codec \<Rightarrow> fp \<Rightarrow> taskWorker \<Rightarrow> task_sys \<Rightarrow> task_event list \<Rightarrow> task_sys option" where
  "task_run J p w s [] = Some s"
| "task_run J p w s (e # es) = (case task_step J p w s e of None \<Rightarrow> None | Some s' \<Rightarrow> task_run J p w s' es)"

section \<open>Where the identifiers are\<close>

definition busy_with :: "string \<Rightarrow> worker_pc \<Rightarrow> nat" where
  "busy_with i pc = (case pc of WBusy m \<Rightarrow> if bm_ID m = i then 1 else 0 | _ \<Rightarrow> 0)"

definition busy_count :: "string \<Rightarrow> worker_pc list \<Rightarrow> nat" where
  "busy_count i ws = sum_list (map (busy_with i) ws)"

definition stored_count :: "string \<Rightarrow> mapBackend \<Rightarrow> nat" where
  "stored_count i m = (if m i = None then 0 else 1)"

definition id_count :: "string \<Rightarrow> BrokerMessage list \<Rightarrow> nat" where
  "id_count i ms = count_list (map bm_ID ms) i"

lemma id_count_simps [simp]:
  "id_count i [] = 0"
  "id_count i (m # ms) = (if bm_ID m = i then Suc (id_count i ms) else id_count i ms)"
  "id_count i (ms @ ns) = id_count i ms + id_count i ns"
  by (simp_all add: id_count_def)

lemma distinct_count_list: "distinct xs \<Longrightarrow> count_list xs x \<le> 1"
  by (induction xs) (auto simp: count_list_0_iff)

lemma count_list_distinct: "(\<And>x. count_list xs x \<le> 1) \<Longrightarrow> distinct xs"
proof (induction xs)
  case (Cons y ys)
  have "count_list ys x \<le> 1" for x using Cons.prems [of x] by (simp split: if_splits)
  moreover have "count_list ys y = 0" using Cons.prems [of y] by simp
  ultimately show ?case using Cons.IH by (simp add: count_list_0_iff)
qed simp

lemma busy_count_update:
  "k < length ws \<Longrightarrow> busy_count i (ws[k := pc]) + busy_with i (ws ! k) = busy_count i ws + busy_with i pc"
proof -
  assume k: "k < length ws"
  have "busy_with i (ws ! k) \<in> set (map (busy_with i) ws)" using k by simp
  then have "busy_with i (ws ! k) \<le> sum_list (map (busy_with i) ws)" by (rule member_le_sum_list) simp
  then show ?thesis using k by (simp add: busy_count_def map_update sum_list_update)
qed

lemma busy_count_snoc [simp]: "busy_count i (ws @ [pc]) = busy_count i ws + busy_with i pc"
  by (simp add: busy_count_def)

text \<open>A result that the backend may hold for a task: what its function returned for a message taken off the broker.\<close>

definition origin :: "json_codec \<Rightarrow> fp \<Rightarrow> taskWorker \<Rightarrow> BrokerMessage list \<Rightarrow> string \<Rightarrow> ResultMessage \<Rightarrow> bool" where
  "origin J p w ms i r \<longleftrightarrow>
     (\<exists>m \<in> set ms. bm_ID m = i \<and> (\<exists>tm now. Decode J m = Inr tm \<and> runTask p now w tm = Ok r) \<and> rm_Result r \<noteq> GNil)"

lemma origin_append [intro]: "origin J p w ms i r \<Longrightarrow> origin J p w (ms @ ns) i r"
  by (auto simp: origin_def)

lemma origin_single: "origin J p w [m] i r \<Longrightarrow> m \<in> set ms \<Longrightarrow> origin J p w ms i r"
  by (auto simp: origin_def)

text \<open>
  The invariant: the accepted messages are the taken ones followed by those in the channel; each identifier is found, in the channel, with a worker, in the backend or
  among the results fetched, at most as often as it was accepted; every result comes from a message that was taken.
\<close>

definition task_inv :: "json_codec \<Rightarrow> fp \<Rightarrow> taskWorker \<Rightarrow> task_sys \<Rightarrow> bool" where
  "task_inv J p w s \<longleftrightarrow>
     added s = takes s @ chan_buf (broker (tq s)) \<and>
     (\<forall>i. id_count i (chan_buf (broker (tq s))) + busy_count i (workers s) + stored_count i (results s) +
        count_list (map fst (fetched s)) i \<le> id_count i (added s)) \<and>
     (\<forall>m. WBusy m \<in> set (workers s) \<longrightarrow> m \<in> set (takes s)) \<and>
     (\<forall>i r. results s i = Some r \<or> (i, r) \<in> set (fetched s) \<longrightarrow> origin J p w (takes s) i r)"

text \<open>The four parts apart, so that a step is shown to keep each.\<close>

lemma task_invI:
  assumes "added s = takes s @ chan_buf (broker (tq s))"
    and "\<And>i. id_count i (chan_buf (broker (tq s))) + busy_count i (workers s) + stored_count i (results s) +
      count_list (map fst (fetched s)) i \<le> id_count i (added s)"
    and "\<And>m. WBusy m \<in> set (workers s) \<Longrightarrow> m \<in> set (takes s)"
    and "\<And>i r. results s i = Some r \<or> (i, r) \<in> set (fetched s) \<Longrightarrow> origin J p w (takes s) i r"
  shows "task_inv J p w s"
  using assms by (simp add: task_inv_def)

lemma task_invD:
  assumes "task_inv J p w s"
  shows "added s = takes s @ chan_buf (broker (tq s))"
    and "id_count i (chan_buf (broker (tq s))) + busy_count i (workers s) + stored_count i (results s) +
      count_list (map fst (fetched s)) i \<le> id_count i (added s)"
    and "WBusy m \<in> set (workers s) \<Longrightarrow> m \<in> set (takes s)"
    and "results s i = Some r \<Longrightarrow> origin J p w (takes s) i r"
    and "(i, r) \<in> set (fetched s) \<Longrightarrow> origin J p w (takes s) i r"
  using assms unfolding task_inv_def by blast+

lemma task_take_inv:
  assumes "task_inv J p w s" "i < length (workers s)" "workers s ! i = WWait"
  shows "task_inv J p w (worker_take i late s)"
proof (cases "late \<or> chan_buf (broker (tq s)) = []")
  case True
  then have "worker_take i late s = s"
    by (auto simp: worker_take_def GetMessage_def chan_recv_def split: option.splits)
  with assms(1) show ?thesis by simp
next
  case False
  then obtain m ms where buf: "\<not> late" "chan_buf (broker (tq s)) = m # ms" by (cases "chan_buf (broker (tq s))") auto
  then have step: "worker_take i late s = s\<lparr>tq := (tq s)\<lparr>broker := (broker (tq s))\<lparr>chan_buf := ms\<rparr>\<rparr>,
      workers := (workers s)[i := WBusy m], takes := takes s @ [m]\<rparr>"
    by (simp add: worker_take_def GetMessage_def chan_recv_def)
  note D = task_invD [OF assms(1)]
  have count: "busy_count j ((workers s)[i := WBusy m]) = busy_count j (workers s) + (if bm_ID m = j then 1 else 0)" for j
    using busy_count_update [OF assms(2), of j "WBusy m"] assms(3) by (simp add: busy_with_def)
  have ws: "set ((workers s)[i := WBusy m]) \<subseteq> insert (WBusy m) (set (workers s))" by (rule set_update_subset_insert)
  show ?thesis unfolding step
  proof (rule task_invI, goal_cases)
    case 1 then show ?case using D(1) buf by simp
  next
    case (2 j) then show ?case using D(2) [of j] buf by (auto simp: count)
  next
    case (3 m') then show ?case using D(3) [of m'] ws by auto
  next
    case (4 j r) then show ?case using D(4,5) by auto
  qed
qed

text \<open>Back at its ticker a worker holds no message any more.\<close>

lemma busy_count_release:
  assumes "i < length ws" "ws ! i = WBusy m"
  shows "busy_count j (ws[i := WWait]) + (if bm_ID m = j then 1 else 0) = busy_count j ws"
  using busy_count_update [OF assms(1), of j WWait] assms(2) by (simp add: busy_with_def)

lemma task_release_inv:
  assumes "task_inv J p w s" "i < length (workers s)" "workers s ! i = WBusy m"
    and "results' = results s \<or> (\<exists>r. results' = SetResult (bm_ID m) r (results s) \<and> origin J p w [m] (bm_ID m) r)"
  shows "task_inv J p w (s\<lparr>workers := (workers s)[i := WWait], results := results'\<rparr>)"
proof -
  note D = task_invD [OF assms(1)]
  have m: "m \<in> set (takes s)" using D(3) assms(2,3) nth_mem by metis
  have stored: "stored_count j results' \<le> stored_count j (results s) + (if bm_ID m = j then 1 else 0)" for j
    using assms(4) by (auto simp: stored_count_def SetResult_def)
  have ws: "set ((workers s)[i := WWait]) \<subseteq> insert WWait (set (workers s))" by (rule set_update_subset_insert)
  show ?thesis
  proof (rule task_invI, goal_cases)
    case 1 then show ?case using D(1) by simp
  next
    case (2 j) then show ?case
      using D(2) [of j] busy_count_release [OF assms(2,3), of j] stored [of j] by simp
  next
    case (3 m') then show ?case using D(3) [of m'] ws by auto
  next
    case (4 j r) then show ?case
      using assms(4) D(4) [of j r] D(5) [of j r] origin_single [OF _ m] by (auto simp: SetResult_def split: if_splits)
  qed
qed

lemma task_finish_inv:
  assumes "task_inv J p w s" "i < length (workers s)" "workers s ! i = WBusy m" "worker_finish J p w i now m s = Some s'"
  shows "task_inv J p w s'"
proof -
  have same: "s\<lparr>workers := ws, results := results s\<rparr> = s\<lparr>workers := ws\<rparr>" for ws by (cases s) simp
  have kept: "task_inv J p w (s\<lparr>workers := (workers s)[i := WWait]\<rparr>)"
    using task_release_inv [OF assms(1-3), of "results s"] by (simp add: same)
  consider "s' = s\<lparr>workers := (workers s)[i := WWait]\<rparr>"
    | r where "s' = s\<lparr>workers := (workers s)[i := WWait], results := SetResult (bm_ID m) r (results s)\<rparr>"
      "origin J p w [m] (bm_ID m) r"
    using assms(4) by (fastforce simp: worker_finish_def Let_def origin_def split: sum.splits outcome.splits if_splits)
  then show ?thesis using kept task_release_inv [OF assms(1-3)] by cases blast+
qed

lemma task_add_inv:
  assumes "task_inv J p w s" "SendMessage late m (tq s) = Ok b"
  shows "task_inv J p w (s\<lparr>tq := b, added := added s @ [m]\<rparr>)"
proof -
  have "chan_buf (broker b) = chan_buf (broker (tq s)) @ [m]"
    using assms(2) by (auto simp: SendMessage_def chan_send_def split: if_splits option.splits)
  then show ?thesis using assms(1) by (fastforce simp: task_inv_def)
qed

lemma task_fetch_inv:
  assumes "task_inv J p w s" "results s i = Some r"
  shows "task_inv J p w (s\<lparr>results := (results s)(i := None), fetched := fetched s @ [(i, r)]\<rparr>)"
proof -
  note D = task_invD [OF assms(1)]
  show ?thesis
  proof (rule task_invI, goal_cases)
    case (2 j) then show ?case using D(2) [of j] assms(2) by (auto simp: stored_count_def)
  qed (use D assms(2) in \<open>auto split: if_splits\<close>)
qed

text \<open>Steps that only move goroutines between waiting and done.\<close>

lemma task_control_inv:
  assumes "task_inv J p w s"
  shows "task_inv J p w (StartWorker s)"
    and "StopWorker s = Some s' \<Longrightarrow> task_inv J p w s'"
    and "i < length (workers s) \<Longrightarrow> workers s ! i = WWait \<Longrightarrow> task_inv J p w (s\<lparr>workers := (workers s)[i := WDone]\<rparr>)"
proof -
  note D = task_invD [OF assms]
  show "task_inv J p w (StartWorker s)"
    using assms by (auto simp: task_inv_def StartWorker_def busy_with_def)
  show "StopWorker s = Some s' \<Longrightarrow> task_inv J p w s'"
    using assms by (auto simp: task_inv_def StopWorker_def)
  assume i: "i < length (workers s)" "workers s ! i = WWait"
  have count: "busy_count j ((workers s)[i := WDone]) = busy_count j (workers s)" for j
    using busy_count_update [OF i(1), of j WDone] i(2) by (simp add: busy_with_def)
  have ws: "set ((workers s)[i := WDone]) \<subseteq> insert WDone (set (workers s))" by (rule set_update_subset_insert)
  then have "m \<in> set (takes s)" if "WBusy m \<in> set ((workers s)[i := WDone])" for m using that D(3) by auto
  then show "task_inv J p w (s\<lparr>workers := (workers s)[i := WDone]\<rparr>)"
    using D(1,2,4,5) by (intro task_invI) (auto simp: count)
qed

interpretation task_events: partial_event_system "task_step J p w" "task_inv J p w" for J p w
proof (unfold_locales, goal_cases)
  case (1 s e s')
  then show ?case
  proof (cases e)
    case (TFetch i)
    with 1 show ?thesis
      by (cases "results s i") (auto simp: GetResult_def intro: task_fetch_inv)
  next
    case TParent
    with 1 show ?thesis by (auto simp: task_inv_def)
  next
    case TClose
    with 1 show ?thesis by (auto simp: task_inv_def channelBroker_Close_def split: if_splits)
  qed (auto simp del: StopWorker_def intro: task_add_inv task_take_inv task_finish_inv task_control_inv
      split: if_splits outcome.splits worker_pc.splits)
qed

lemma task_run_inv: "task_inv J p w s \<Longrightarrow> task_run J p w s evs = Some s' \<Longrightarrow> task_inv J p w s'"
  by (induction evs arbitrary: s) (auto intro: task_events.try_inv split: option.splits)

lemma start_tasks_inv: "task_inv J p w (start_tasks n)"
  by (simp add: task_inv_def start_tasks_def NewChannelBroker_def make_chan_def NewMapBackend_def stored_count_def busy_count_def)

section \<open>Properties\<close>

text \<open>The two halves in a row are the tick of the single worker.\<close>

lemma take_finish_is_tick:
  assumes "i < length (workers s)" "workers s ! i = WWait"
  shows "map_option (\<lambda>s'. (tq s', results s'))
      (case workers (worker_take i late s) ! i of
         WBusy m \<Rightarrow> worker_finish J p w i now m (worker_take i late s) | _ \<Rightarrow> Some (worker_take i late s)) =
    worker_tick J p now late w (tq s, results s)"
  using assms
  by (auto simp: worker_take_def worker_finish_def worker_tick_def Let_def split: prod.splits sum.splits option.splits outcome.splits)

text \<open>Only the last worker started can be stopped: the cancel functions of the others are lost.\<close>

lemma StopWorker_last_only:
  assumes "length (cancelled s) = length (workers s)"
  shows "\<exists>s'. StopWorker (StartWorker s) = Some s' \<and> cancelled s' = cancelled s @ [True]"
  using assms by (simp add: StopWorker_def StartWorker_def list_update_append)


text \<open>A run of two workers, the second of which takes the task; one worker is stopped afterwards.\<close>

definition demo_task_run :: "task_event list" where
  "demo_task_run = [TStart, TStart, TAdd False \<lparr>bm_ID = ''id'', bm_Value = EncodeToString ''args''\<rparr>, TTake 1 False,
     TTake 0 False, TFinish 1 0, TFetch ''id'', TFetch ''id'', TStop, TReturn 1]"

definition demo_result :: ResultMessage where
  "demo_result = \<lparr>rm_ID = ''id'', rm_Status = TaskSuccess, rm_Traceback = [], rm_Result = GInt64 5\<rparr>"

lemma demo_task_runs:
  "map_option (\<lambda>s. (map bm_ID (added s), fetched s, workers s))
     (task_run demo_json demo_fp (Register ''add'' (TFunc [KInt, KInt] demo_add) NewTaskWorker) (start_tasks 1) demo_task_run) =
   Some ([''id''], [(''id'', demo_result)], [WWait, WDone])"
  by code_simp


end
