(* ===== verification/Registry.thy ===== *)
theory Registry
  imports Baetyl_Prelude
begin

text \<open>
  The two process-wide registries: plugins (\<^verbatim>\<open>plugin/register.go\<close>) and event triggers
  (\<^verbatim>\<open>trigger/trigger.go\<close>). Both live in \<^verbatim>\<open>sync.Map\<close>s whose single operations are atomic; \<^verbatim>\<open>GetPlugin\<close> does
  several of them, so it is split where another goroutine can come in between.
\<close>

section \<open>Plugins\<close>

text \<open>Factories and plugin instances are numbered; \<open>closed\<close> are the instances whose \<^verbatim>\<open>Close\<close> was called.\<close>

record registry =
  pluginFactory :: "string \<rightharpoonup> nat"
  plugins :: "string \<rightharpoonup> nat"
  closed :: "nat set"
  next_inst :: nat

definition empty_registry :: registry where
  "empty_registry = \<lparr>pluginFactory = Map.empty, plugins = Map.empty, closed = {}, next_inst = 0\<rparr>"

definition RegisterFactory :: "string \<Rightarrow> nat \<Rightarrow> registry \<Rightarrow> registry" where
  "RegisterFactory name f r =
     (if pluginFactory r name \<noteq> None then r
      else r\<lparr>pluginFactory := (pluginFactory r)(name \<mapsto> f)\<rparr>)"

datatype plugin_error = NotFound string | FactoryError string

text \<open>
  \<^verbatim>\<open>GetPlugin\<close> up to the factory call: it is over (\<open>Done\<close>), or a new instance was made and is
  about to be stored. \<open>factoryErr\<close> is the factory's error, if it fails.
\<close>

datatype get_state = Done "(plugin_error, nat) result" | Created string nat

definition GetPlugin_create :: "string \<Rightarrow> string option \<Rightarrow> registry \<Rightarrow> get_state \<times> registry" where
  "GetPlugin_create name factoryErr r =
     (let name = strings_ToLower name in
      case plugins r name of
        Some p \<Rightarrow> (Done (Inr p), r)
      | None \<Rightarrow>
          (case pluginFactory r name of
             None \<Rightarrow> (Done (Inl (NotFound name)), r)
           | Some f \<Rightarrow>
               (case factoryErr of
                  Some e \<Rightarrow> (Done (Inl (FactoryError e)), r)
                | None \<Rightarrow> (Created name (next_inst r), r\<lparr>next_inst := Suc (next_inst r)\<rparr>))))"

text \<open>The \<^verbatim>\<open>LoadOrStore\<close>: the instance of whoever came first wins, the other one is closed.\<close>

definition GetPlugin_store :: "string \<Rightarrow> nat \<Rightarrow> registry \<Rightarrow> nat \<times> registry" where
  "GetPlugin_store name p r =
     (case plugins r name of
        Some act \<Rightarrow> (act, r\<lparr>closed := insert p (closed r)\<rparr>)
      | None \<Rightarrow> (p, r\<lparr>plugins := (plugins r)(name \<mapsto> p)\<rparr>))"

definition GetPlugin :: "string \<Rightarrow> string option \<Rightarrow> registry \<Rightarrow> (plugin_error, nat) result \<times> registry" where
  "GetPlugin name factoryErr r =
     (case GetPlugin_create name factoryErr r of
        (Done res, r') \<Rightarrow> (res, r')
      | (Created n p, r') \<Rightarrow> (let (q, r'') = GetPlugin_store n p r' in (Inr q, r'')))"

definition ClosePlugins :: "registry \<Rightarrow> registry" where
  "ClosePlugins r = r\<lparr>closed := closed r \<union> ran (plugins r)\<rparr>"

text \<open>
  Goroutines in the registry: each call of \<^verbatim>\<open>GetPlugin\<close> has a number, its pending creations are kept
  until the store, and the successful answers are recorded with the lower-case name they are for.
\<close>

record reg_sys =
  reg :: registry
  pending :: "(nat \<times> string \<times> nat) list"
  answers :: "(string \<times> nat) list"

definition start_reg :: reg_sys where
  "start_reg = \<lparr>reg = empty_registry, pending = [], answers = []\<rparr>"

datatype reg_event = ERegister string nat | ECreate nat string "string option" | EStore nat

fun reg_step :: "reg_sys \<Rightarrow> reg_event \<Rightarrow> reg_sys" where
  "reg_step s (ERegister name f) = s\<lparr>reg := RegisterFactory name f (reg s)\<rparr>"
| "reg_step s (ECreate tid name err) =
     (case GetPlugin_create name err (reg s) of
        (Done (Inr p), r) \<Rightarrow> s\<lparr>reg := r, answers := (strings_ToLower name, p) # answers s\<rparr>
      | (Done (Inl e), r) \<Rightarrow> s\<lparr>reg := r\<rparr>
      | (Created n p, r) \<Rightarrow> s\<lparr>reg := r, pending := (tid, n, p) # pending s\<rparr>)"
| "reg_step s (EStore tid) =
     (case map_of (pending s) tid of
        None \<Rightarrow> s
      | Some (n, p) \<Rightarrow>
          (let (q, r) = GetPlugin_store n p (reg s)
           in s\<lparr>reg := r, pending := alist_del tid (pending s), answers := (n, q) # answers s\<rparr>))"

definition reg_run :: "reg_sys \<Rightarrow> reg_event list \<Rightarrow> reg_sys" where
  "reg_run s es = foldl reg_step s es"

text \<open>
  The invariant: every answer is the stored instance; stored instances are open, distinct for
  distinct names and not pending; pending instances are pairwise distinct and open; all
  are below the next number.
\<close>

definition reg_inv :: "reg_sys \<Rightarrow> bool" where
  "reg_inv s \<longleftrightarrow>
     (\<forall>n p. (n, p) \<in> set (answers s) \<longrightarrow> plugins (reg s) n = Some p) \<and>
     (\<forall>n p. plugins (reg s) n = Some p \<longrightarrow> p < next_inst (reg s) \<and> p \<notin> closed (reg s)) \<and>
     (\<forall>n n' p. plugins (reg s) n = Some p \<longrightarrow> plugins (reg s) n' = Some p \<longrightarrow> n = n') \<and>
     (\<forall>t n p. (t, n, p) \<in> set (pending s) \<longrightarrow> p < next_inst (reg s) \<and> p \<notin> closed (reg s) \<and>
        (\<forall>m. plugins (reg s) m \<noteq> Some p)) \<and>
     distinct (map (snd \<circ> snd) (pending s)) \<and>
     (\<forall>p \<in> closed (reg s). p < next_inst (reg s))"

lemma start_reg_inv: "reg_inv start_reg"
  by (simp add: reg_inv_def start_reg_def empty_registry_def)

lemma del_pending:
  assumes "map_of ps tid = Some (n, p)" "distinct (map (snd \<circ> snd) ps)"
  shows "(t, n', p') \<in> set (alist_del tid ps) \<Longrightarrow> p' \<noteq> p \<and> (t, n', p') \<in> set ps"
    "distinct (map (snd \<circ> snd) (alist_del tid ps))"
    "(tid, n, p) \<in> set ps"
proof -
  show mem: "(tid, n, p) \<in> set ps" using assms(1) by (rule map_of_SomeD)
  show "p' \<noteq> p \<and> (t, n', p') \<in> set ps" if "(t, n', p') \<in> set (alist_del tid ps)"
  proof -
    from that have "t \<noteq> tid" "(t, n', p') \<in> set ps" by (auto simp: alist_del_def)
    moreover have "p' \<noteq> p"
    proof
      assume "p' = p"
      with mem \<open>(t, n', p') \<in> set ps\<close> assms(2) have "(t, n', p') = (tid, n, p)"
        unfolding distinct_map inj_on_def by fastforce
      with \<open>t \<noteq> tid\<close> show False by simp
    qed
    ultimately show ?thesis by simp
  qed
  show "distinct (map (snd \<circ> snd) (alist_del tid ps))"
    using assms(2) unfolding alist_del_def by (rule distinct_map_filter)
qed

lemma create_inv: "reg_inv s \<Longrightarrow> reg_inv (reg_step s (ECreate tid name err))"
proof -
  assume inv: "reg_inv s"
  show ?thesis
  proof (cases "GetPlugin_create name err (reg s)")
    case (Pair st r)
    show ?thesis
    proof (cases st)
      case (Done res)
      with Pair inv show ?thesis
        by (auto simp: GetPlugin_create_def reg_inv_def Let_def split: option.splits sum.splits)
    next
      case (Created n p)
      with Pair have "p = next_inst (reg s)" "r = (reg s)\<lparr>next_inst := Suc (next_inst (reg s))\<rparr>"
        by (auto simp: GetPlugin_create_def Let_def split: option.splits)
      with Pair Created have eq: "reg_step s (ECreate tid name err) =
          s\<lparr>reg := (reg s)\<lparr>next_inst := Suc (next_inst (reg s))\<rparr>, pending := (tid, n, next_inst (reg s)) # pending s\<rparr>"
        by simp
      have "next_inst (reg s) \<notin> (snd \<circ> snd) ` set (pending s)" "next_inst (reg s) \<notin> closed (reg s)"
        "\<And>m. plugins (reg s) m \<noteq> Some (next_inst (reg s))"
        using inv unfolding reg_inv_def by (fastforce, blast, blast)
      with inv show ?thesis unfolding eq reg_inv_def by (auto simp: less_Suc_eq)
    qed
  qed
qed

lemma store_inv:
  assumes inv: "reg_inv s"
  shows "reg_inv (reg_step s (EStore tid))"
proof (cases "map_of (pending s) tid")
  case None
  then show ?thesis using inv by simp
next
  case (Some np)
  obtain n p where np: "map_of (pending s) tid = Some (n, p)" using Some by (cases np) auto
  have dist: "distinct (map (snd \<circ> snd) (pending s))" using inv by (simp add: reg_inv_def)
  note del = del_pending [OF np dist]
  have pend: "p < next_inst (reg s)" "p \<notin> closed (reg s)"
    "\<And>m q. plugins (reg s) m = Some q \<Longrightarrow> q \<noteq> p"
    using inv del(3) unfolding reg_inv_def by blast+
  show ?thesis
  proof (cases "plugins (reg s) n")
    case (Some act)
    then have eq: "reg_step s (EStore tid) = s\<lparr>reg := (reg s)\<lparr>closed := insert p (closed (reg s))\<rparr>,
        pending := alist_del tid (pending s), answers := (n, act) # answers s\<rparr>"
      using np by (simp add: GetPlugin_store_def)
    show ?thesis using inv Some pend del(1,2) unfolding eq reg_inv_def by simp metis
  next
    case None
    then have eq: "reg_step s (EStore tid) = s\<lparr>reg := (reg s)\<lparr>plugins := (plugins (reg s))(n \<mapsto> p)\<rparr>,
        pending := alist_del tid (pending s), answers := (n, p) # answers s\<rparr>"
      using np by (simp add: GetPlugin_store_def)
    have inv': "\<And>m q. (m, q) \<in> set (answers s) \<Longrightarrow> plugins (reg s) m = Some q"
      "\<And>m q. plugins (reg s) m = Some q \<Longrightarrow> q < next_inst (reg s) \<and> q \<notin> closed (reg s)"
      "\<And>m m' q. plugins (reg s) m = Some q \<Longrightarrow> plugins (reg s) m' = Some q \<Longrightarrow> m = m'"
      "\<And>t m q. (t, m, q) \<in> set (pending s) \<Longrightarrow> q < next_inst (reg s) \<and> q \<notin> closed (reg s) \<and>
          (\<forall>m. plugins (reg s) m \<noteq> Some q)"
      "\<forall>q \<in> closed (reg s). q < next_inst (reg s)"
      using inv unfolding reg_inv_def by blast+
    show ?thesis unfolding eq reg_inv_def
      using None pend del(1,2) inv' by (simp, intro conjI allI impI) (fastforce dest: inv'(1), metis+)
  qed
qed

lemma reg_step_inv: "reg_inv s \<Longrightarrow> reg_inv (reg_step s e)"
proof (cases e)
  case (ERegister name f)
  then show "reg_inv s \<Longrightarrow> ?thesis" by (auto simp: reg_inv_def RegisterFactory_def)
qed (simp_all only: create_inv store_inv)

interpretation registry_events: event_system reg_step reg_inv
  by unfold_locales (rule reg_step_inv)

lemma reg_run_inv: "reg_inv s \<Longrightarrow> reg_inv (reg_run s es)"
  unfolding reg_run_def by (rule registry_events.run_inv)

text \<open>
  C26. One instance per plugin. Over any interleaving of registrations and of concurrent calls of
  \<open>GetPlugin\<close>, two successful calls whose names are equal up to case return the same
  instance, calls for different plugins return different ones, and no instance that was
  returned has been closed, although the losers of a race close theirs.
\<close>

theorem plugin_singleton:
  "let s = reg_run start_reg es in
     \<forall>n p n' p'. (n, p) \<in> set (answers s) \<and> (n', p') \<in> set (answers s) \<longrightarrow>
       (n = n' \<longleftrightarrow> p = p') \<and> p \<notin> closed (reg s)"
proof -
  have "reg_inv (reg_run start_reg es)" by (rule reg_run_inv [OF start_reg_inv])
  then show ?thesis unfolding reg_inv_def Let_def by (metis option.inject)
qed

theorem plugin_singleton_witness:
  "let s = reg_run start_reg [ERegister ''link'' 0, ECreate 1 ''link'' None, ECreate 2 ''Link'' None,
         EStore 2, EStore 1] in
     answers s = [(''link'', 1), (''link'', 1)] \<and> closed (reg s) = {0} \<and> 1 \<notin> closed (reg s)"
proof -
  let ?es = "[ERegister ''link'' 0, ECreate 1 ''link'' None, ECreate 2 ''Link'' None, EStore 2, EStore 1]"
  have run: "answers (reg_run start_reg ?es) = [(''link'', 1), (''link'', 1)]"
    "closed (reg (reg_run start_reg ?es)) = {0}"
    by code_simp+
  with plugin_singleton [of ?es] show ?thesis by (simp add: Let_def)
qed

lemma ToLower_idem: "strings_ToLower (strings_ToLower s) = strings_ToLower s"
proof -
  have "byte_lower (byte_lower c) = byte_lower c" for c by (simp add: byte_lower_def)
  then show ?thesis by (simp add: strings_ToLower_def)
qed

text \<open>
  A factory registered under a name with a capital letter is unreachable: the registration
  keeps the name as it is, every look-up folds it to lower case, so the registration changes the answer
  of no call of \<open>GetPlugin\<close>, whatever the name asked for.
\<close>

theorem capital_factory_unreachable:
  assumes "strings_ToLower name \<noteq> name"
  shows "fst (GetPlugin asked err (RegisterFactory name f r)) = fst (GetPlugin asked err r)"
proof -
  have "strings_ToLower asked \<noteq> name" using assms ToLower_idem by metis
  then show ?thesis
    by (auto simp: GetPlugin_def GetPlugin_create_def GetPlugin_store_def RegisterFactory_def Let_def
        split: option.splits)
qed

theorem capital_factory_unreachable_witness:
  "strings_ToLower ''Link'' \<noteq> ''Link'' \<and>
   fst (GetPlugin ''Link'' None (RegisterFactory ''Link'' 0 empty_registry)) = Inl (NotFound ''link'')"
proof -
  have "strings_ToLower ''Link'' = ''link''" by code_simp
  moreover have "fst (GetPlugin ''Link'' None empty_registry) = Inl (NotFound (strings_ToLower ''Link''))"
    by (simp add: GetPlugin_def GetPlugin_create_def empty_registry_def)
  ultimately show ?thesis using capital_factory_unreachable [of "''Link''" "''Link''" None 0 empty_registry] by simp
qed

section \<open>Event triggers\<close>

text \<open>
  A registered event: the arguments bound at registration and a function, given by its arity,
  the argument lists its types admit (\<^verbatim>\<open>reflect\<close> panics on the others) and its results. A value that
  is no function has no arity.
\<close>

record 'v EventFunc =
  Args :: "'v list"
  arity :: "nat option"
  admits :: "'v list \<Rightarrow> bool"
  apply_to :: "'v list \<Rightarrow> 'v list"

type_synonym 'v eventTrigger = "string \<rightharpoonup> 'v EventFunc"

datatype trigger_error = NotAFunc | ParamsNotEnough string | NoSuchEvent string

datatype 'v exec_result = Returned "'v list" | Failed trigger_error | Panicked

definition trigger_Register ::
  "string \<Rightarrow> 'v EventFunc \<Rightarrow> 'v eventTrigger \<Rightarrow> (trigger_error, 'v eventTrigger) result" where
  "trigger_Register name ev t = (if arity ev = None then Inl NotAFunc else Inr (t(name \<mapsto> ev)))"

text \<open>The two copying loops of \<^verbatim>\<open>Exec\<close> fill one array, first the bound arguments, then the parameters.\<close>

definition Exec :: "string \<Rightarrow> 'v list \<Rightarrow> 'v eventTrigger \<Rightarrow> 'v exec_result" where
  "Exec name params t =
     (case t name of
        None \<Rightarrow> Failed (NoSuchEvent name)
      | Some f \<Rightarrow>
          (case arity f of
             None \<Rightarrow> Panicked
           | Some n \<Rightarrow>
               (if length params + length (Args f) \<noteq> n then Failed (ParamsNotEnough name)
                else
                  (let in_args = Args f @ params
                   in if admits f in_args then Returned (apply_to f in_args) else Panicked))))"

text \<open>
  \<^verbatim>\<open>SyncExec\<close> passes its parameter slice on as one argument (\<open>slice params\<close>, a value of type
  \<^verbatim>\<open>[]interface{}\<close>), and its deferred function swallows a panic.
\<close>

definition SyncExec ::
  "('v list \<Rightarrow> 'v) \<Rightarrow> string \<Rightarrow> 'v list \<Rightarrow> 'v eventTrigger \<Rightarrow> 'v exec_result option" where
  "SyncExec slice event params t =
     (case Exec event [slice params] t of Panicked \<Rightarrow> None | r \<Rightarrow> Some r)"

definition trigger_wf :: "'v eventTrigger \<Rightarrow> bool" where
  "trigger_wf t \<longleftrightarrow> (\<forall>name f. t name = Some f \<longrightarrow> arity f \<noteq> None)"

lemma Register_wf: "trigger_wf t \<Longrightarrow> trigger_Register name f t = Inr t' \<Longrightarrow> trigger_wf t'"
  by (auto simp: trigger_wf_def trigger_Register_def split: if_splits)

text \<open>
  \<open>Exec\<close> after \<open>Register\<close> calls the function on the bound arguments followed by the given
  ones exactly when the counts add up to its arity, and leaves it uncalled otherwise; \<open>SyncExec\<close> with the
  same parameters reaches the function only if it expects exactly one more argument
  than were bound, and then with the whole parameter list as that argument.
\<close>

theorem Exec_calls:
  assumes "trigger_Register name f t = Inr t'" and "arity f = Some n" and "\<forall>xs. length xs = n \<longrightarrow> admits f xs"
  shows "Exec name params t' =
       (if length (Args f) + length params = n then Returned (apply_to f (Args f @ params))
        else Failed (ParamsNotEnough name)) \<and>
     SyncExec slice name params t' =
       Some (if length (Args f) + 1 = n then Returned (apply_to f (Args f @ [slice params]))
             else Failed (ParamsNotEnough name))"
  using assms by (auto simp: trigger_Register_def Exec_def SyncExec_def)

theorem Exec_calls_witness:
  "\<exists>t'. trigger_Register ''sum'' \<lparr>Args = [1], arity = Some 3, admits = (\<lambda>_. True), apply_to = (\<lambda>xs. [sum_list xs])\<rparr>
       Map.empty = Inr t' \<and>
     Exec ''sum'' [2, 3 :: nat] t' = Returned [6] \<and>
     SyncExec sum_list ''sum'' [2, 3] t' = Some (Failed (ParamsNotEnough ''sum''))"
proof -
  let ?f = "\<lparr>Args = [1], arity = Some 3, admits = (\<lambda>_. True), apply_to = (\<lambda>xs. [sum_list xs])\<rparr> :: nat EventFunc"
  have reg: "trigger_Register ''sum'' ?f Map.empty = Inr [''sum'' \<mapsto> ?f]"
    by (simp add: trigger_Register_def)
  from Exec_calls [OF reg, of 3 "[2, 3]" sum_list] reg show ?thesis by fastforce
qed

end
