(* ===== verification/Dm_Expression.thy ===== *)
theory Dm_Expression
  imports Baetyl_Prelude Complex_Main
begin

text \<open>
  Mapping expressions of device models: \<^verbatim>\<open>dmcontext/expression.go\<close>. The parser and the evaluator
  are the package \<^verbatim>\<open>goexpr\<close>, parameters of the model; the syntax tree is the one of \<^verbatim>\<open>go/ast\<close>, of which
  the solver reads four kinds of node. Floating-point numbers are kept apart from rationals:
  signed zeros, infinities and NaN are values of the model, and the rounding of a
  non-zero exact result is a parameter, so that what is proved of rounded arithmetic says when it is exact.
\<close>

section \<open>Floating-point numbers\<close>

datatype f64 = Zero bool | Fin rat | Inf bool | NaN

text \<open>The flag of a zero or an infinity is its sign bit.\<close>

fun fval :: "f64 \<Rightarrow> rat" where
  "fval (Fin r) = r"
| "fval _ = 0"

fun sign_bit :: "f64 \<Rightarrow> bool" where
  "sign_bit (Zero b) = b"
| "sign_bit (Fin r) = (r < 0)"
| "sign_bit (Inf b) = b"
| "sign_bit NaN = False"

definition finite_f :: "f64 \<Rightarrow> bool" where
  "finite_f x = (case x of Zero _ \<Rightarrow> True | Fin _ \<Rightarrow> True | _ \<Rightarrow> False)"

definition is_zero :: "f64 \<Rightarrow> bool" where
  "is_zero x = (finite_f x \<and> fval x = 0)"

type_synonym rounding = "rat \<Rightarrow> f64"

definition fneg :: "f64 \<Rightarrow> f64" where
  "fneg x = (case x of Zero b \<Rightarrow> Zero (\<not> b) | Fin r \<Rightarrow> Fin (- r) | Inf b \<Rightarrow> Inf (\<not> b) | NaN \<Rightarrow> NaN)"

definition fadd :: "rounding \<Rightarrow> f64 \<Rightarrow> f64 \<Rightarrow> f64" where
  "fadd rnd x y =
     (if x = NaN \<or> y = NaN then NaN
      else case (x, y) of
        (Inf b, Inf c) \<Rightarrow> (if b = c then Inf b else NaN)
      | (Inf b, _) \<Rightarrow> Inf b
      | (_, Inf c) \<Rightarrow> Inf c
      | _ \<Rightarrow> (let r = fval x + fval y in
              if r = 0 then Zero (x = Zero True \<and> y = Zero True) else rnd r))"

definition fsub :: "rounding \<Rightarrow> f64 \<Rightarrow> f64 \<Rightarrow> f64" where
  "fsub rnd x y = fadd rnd x (fneg y)"

definition fmul :: "rounding \<Rightarrow> f64 \<Rightarrow> f64 \<Rightarrow> f64" where
  "fmul rnd x y =
     (let s = (sign_bit x \<noteq> sign_bit y) in
      if x = NaN \<or> y = NaN then NaN
      else if \<not> finite_f x then (if is_zero y then NaN else Inf s)
      else if \<not> finite_f y then (if is_zero x then NaN else Inf s)
      else let r = fval x * fval y in if r = 0 then Zero s else rnd r)"

definition fdiv :: "rounding \<Rightarrow> f64 \<Rightarrow> f64 \<Rightarrow> f64" where
  "fdiv rnd x y =
     (let s = (sign_bit x \<noteq> sign_bit y) in
      if x = NaN \<or> y = NaN then NaN
      else if \<not> finite_f x then (if finite_f y then Inf s else NaN)
      else if \<not> finite_f y then Zero s
      else if is_zero y then (if is_zero x then NaN else Inf s)
      else let r = fval x / fval y in if r = 0 then Zero s else rnd r)"

section \<open>Syntax trees\<close>

datatype token = ADD | SUB | MUL | QUO | OtherOp string

datatype ast =
    Ident string
  | BinaryExpr token ast ast
  | ParenExpr ast
  | BasicLit string
  | OtherNode string

record Expression =
  Vars :: "string list"
  Ast :: ast

datatype expr_error =
    ParseError string | EvalError string | FloatError string
  | ErrUnknownMappingType | ErrUnsupportedValueType | OneVariableOnly | MissingArgument string
  | MissingVariable string | NotOneVariable | ZeroSlope | NotLinear | VariableDenominator
  | UnsupportedNode string | UnsupportedOp string

text \<open>What the component uses of other packages: \<^verbatim>\<open>goexpr\<close>, and \<^verbatim>\<open>strconv\<close> and \<^verbatim>\<open>fmt\<close> on floats.\<close>

record expr_env =
  goexpr_Parse :: "string \<Rightarrow> (string, Expression) result"
  goexpr_Evaluate :: "Expression \<Rightarrow> (string \<rightharpoonup> f64) \<Rightarrow> (string, f64) result"
  ParseFloat :: "string \<Rightarrow> (string, f64) result"
  FormatPrecision :: "nat \<Rightarrow> f64 \<Rightarrow> string"
  FormatFloat32 :: "f64 \<Rightarrow> string"
  round64 :: rounding

definition ParseExpression :: "expr_env \<Rightarrow> string \<Rightarrow> (expr_error, string list) result" where
  "ParseExpression E e =
     (if e = [] then Inr []
      else case goexpr_Parse E e of Inl x \<Rightarrow> Inl (ParseError x) | Inr ex \<Rightarrow> Inr (Vars ex))"

section \<open>Solving for the variable\<close>

fun simpleExpression :: "expr_env \<Rightarrow> ast \<Rightarrow> (expr_error, f64 \<times> f64) result" where
  "simpleExpression E (Ident _) = Inr (Fin 1, Zero False)"
| "simpleExpression E (BinaryExpr oper x y) =
     rbind (simpleExpression E x) (\<lambda>(xa, xb).
     rbind (simpleExpression E y) (\<lambda>(ya, yb).
       case oper of
         ADD \<Rightarrow> Inr (fadd (round64 E) xa ya, fadd (round64 E) xb yb)
       | SUB \<Rightarrow> Inr (fsub (round64 E) xa ya, fsub (round64 E) xb yb)
       | MUL \<Rightarrow>
           (if \<not> is_zero xa \<and> \<not> is_zero ya then Inl NotLinear
            else Inr (fadd (round64 E) (fmul (round64 E) xa yb) (fmul (round64 E) xb ya), fmul (round64 E) xb yb))
       | QUO \<Rightarrow>
           (if \<not> is_zero ya then Inl VariableDenominator
            else Inr (fdiv (round64 E) xa yb, fdiv (round64 E) xb yb))
       | OtherOp s \<Rightarrow> Inl (UnsupportedOp s)))"
| "simpleExpression E (ParenExpr x) = simpleExpression E x"
| "simpleExpression E (BasicLit v) =
     (case ParseFloat E v of Inl x \<Rightarrow> Inl (FloatError x) | Inr f \<Rightarrow> Inr (Zero False, f))"
| "simpleExpression E (OtherNode s) = Inl (UnsupportedNode s)"

definition SolveExpression :: "expr_env \<Rightarrow> string \<Rightarrow> f64 \<Rightarrow> (expr_error, f64) result" where
  "SolveExpression E e value =
     (case goexpr_Parse E e of
        Inl x \<Rightarrow> Inl (ParseError x)
      | Inr ex \<Rightarrow>
          (if card (set (Vars ex)) \<noteq> 1 then Inl NotOneVariable
           else
             rbind (simpleExpression E (Ast ex)) (\<lambda>(slope, offset).
               if is_zero slope then Inl ZeroSlope
               else Inr (fdiv (round64 E) (fsub (round64 E) value offset) slope))))"

section \<open>Mapping an observed value\<close>

text \<open>The dynamic types \<^verbatim>\<open>parseValueToFloat64\<close> tells apart; integers convert with rounding.\<close>

datatype dval = VInt int | VInt16 int | VInt32 int | VInt64 int | VFloat32 f64 | VFloat64 f64 | VOther string

definition int_to_f64 :: "expr_env \<Rightarrow> int \<Rightarrow> f64" where
  "int_to_f64 E n = (if n = 0 then Zero False else round64 E (of_int n))"

fun parseValueToFloat64 :: "expr_env \<Rightarrow> dval \<Rightarrow> (expr_error, f64) result" where
  "parseValueToFloat64 E (VInt n) = Inr (int_to_f64 E n)"
| "parseValueToFloat64 E (VInt16 n) = Inr (int_to_f64 E n)"
| "parseValueToFloat64 E (VInt32 n) = Inr (int_to_f64 E n)"
| "parseValueToFloat64 E (VInt64 n) = Inr (int_to_f64 E n)"
| "parseValueToFloat64 E (VFloat32 f) =
     (case ParseFloat E (FormatFloat32 E f) of Inl x \<Rightarrow> Inl (FloatError x) | Inr g \<Rightarrow> Inr g)"
| "parseValueToFloat64 E (VFloat64 f) = Inr f"
| "parseValueToFloat64 E (VOther _) = Inl ErrUnsupportedValueType"

definition with_precision :: "expr_env \<Rightarrow> int \<Rightarrow> f64 \<Rightarrow> (expr_error, dval) result" where
  "with_precision E precision f =
     (case ParseFloat E (FormatPrecision E (nat precision) f) of
        Inl x \<Rightarrow> Inl (FloatError x)
      | Inr g \<Rightarrow> Inr (VFloat64 g))"

definition processValueMappingWithPrecision ::
  "expr_env \<Rightarrow> string \<Rightarrow> (string \<rightharpoonup> dval) \<Rightarrow> int \<Rightarrow> (expr_error, dval) result" where
  "processValueMappingWithPrecision E e args precision =
     (case goexpr_Parse E e of
        Inl x \<Rightarrow> Inl (ParseError x)
      | Inr ex \<Rightarrow>
          (case Vars ex of
             [v] \<Rightarrow>
               (case args v of
                  None \<Rightarrow> Inl (MissingArgument v)
                | Some val \<Rightarrow>
                    (if precision \<le> 0 then Inr val
                     else
                       case parseValueToFloat64 E val of
                         Inl err \<Rightarrow> (if err = ErrUnsupportedValueType then Inr val else Inl err)
                       | Inr f \<Rightarrow> with_precision E precision f))
           | _ \<Rightarrow> Inl OneVariableOnly))"

text \<open>The loop that converts the arguments of the expression's variables.\<close>

fun parse_args ::
  "expr_env \<Rightarrow> (string \<rightharpoonup> dval) \<Rightarrow> string list \<Rightarrow> (string \<rightharpoonup> f64) \<Rightarrow> (expr_error, string \<rightharpoonup> f64) result" where
  "parse_args E args [] acc = Inr acc"
| "parse_args E args (v # vs) acc =
     (case args v of
        None \<Rightarrow> Inl (MissingVariable v)
      | Some d \<Rightarrow> rbind (parseValueToFloat64 E d) (\<lambda>f. parse_args E args vs (acc(v \<mapsto> f))))"

definition processCalcMappingWithPrecision ::
  "expr_env \<Rightarrow> string \<Rightarrow> (string \<rightharpoonup> dval) \<Rightarrow> int \<Rightarrow> (expr_error, dval) result" where
  "processCalcMappingWithPrecision E e args precision =
     (case goexpr_Parse E e of
        Inl x \<Rightarrow> Inl (ParseError x)
      | Inr ex \<Rightarrow>
          rbind (parse_args E args (Vars ex) Map.empty) (\<lambda>parsed.
            case goexpr_Evaluate E ex parsed of
              Inl x \<Rightarrow> Inl (EvalError x)
            | Inr res \<Rightarrow> (if 0 < precision then with_precision E precision res else Inr (VFloat64 res))))"

definition processValueMapping where
  "processValueMapping E e args = processValueMappingWithPrecision E e args (- 1)"

definition processCalcMapping where
  "processCalcMapping E e args = processCalcMappingWithPrecision E e args (- 1)"

definition MappingNone :: string where "MappingNone = ''none''"
definition MappingValue :: string where "MappingValue = ''value''"
definition MappingCalculate :: string where "MappingCalculate = ''calculate''"

text \<open>The nil result of the mapping type \<^verbatim>\<open>none\<close> is \<open>Inr None\<close>.\<close>

definition ExecExpressionWithPrecision ::
  "expr_env \<Rightarrow> string \<Rightarrow> (string \<rightharpoonup> dval) \<Rightarrow> string \<Rightarrow> int \<Rightarrow> (expr_error, dval option) result" where
  "ExecExpressionWithPrecision E e args mappingType precision =
     (if mappingType = MappingNone then Inr None
      else if mappingType = MappingValue then
        rbind (processValueMappingWithPrecision E e args precision) (\<lambda>v. Inr (Some v))
      else if mappingType = MappingCalculate then
        rbind (processCalcMappingWithPrecision E e args precision) (\<lambda>v. Inr (Some v))
      else Inl ErrUnknownMappingType)"

definition ExecExpression where
  "ExecExpression E e args mappingType = ExecExpressionWithPrecision E e args mappingType (- 1)"

section \<open>Correctness of the solver\<close>

text \<open>
  The meaning of an expression in exact arithmetic, for a value of its one variable; undefined for
  a division by zero, an unreadable literal and the nodes the solver does not know.
\<close>

fun aval :: "expr_env \<Rightarrow> ast \<Rightarrow> rat \<Rightarrow> rat option" where
  "aval E (Ident _) x = Some x"
| "aval E (BinaryExpr oper l r) x =
     (case (aval E l x, aval E r x) of
        (Some a, Some b) \<Rightarrow>
          (case oper of
             ADD \<Rightarrow> Some (a + b)
           | SUB \<Rightarrow> Some (a - b)
           | MUL \<Rightarrow> Some (a * b)
           | QUO \<Rightarrow> (if b = 0 then None else Some (a / b))
           | OtherOp _ \<Rightarrow> None)
      | _ \<Rightarrow> None)"
| "aval E (ParenExpr e) x = aval E e x"
| "aval E (BasicLit v) x =
     (case ParseFloat E v of Inl _ \<Rightarrow> None | Inr f \<Rightarrow> (if finite_f f then Some (fval f) else None))"
| "aval E (OtherNode _) x = None"

text \<open>
  The exact results that the solver rounds on its way, and the condition that none of them
  is changed by rounding. On \<^verbatim>\<open>float64\<close> it holds for instance whenever they are integers below \<open>2 ^ 53\<close>.
\<close>

fun rounded :: "expr_env \<Rightarrow> ast \<Rightarrow> rat list" where
  "rounded E (BinaryExpr oper x y) =
     rounded E x @ rounded E y @
     (case (simpleExpression E x, simpleExpression E y) of
        (Inr (xa, xb), Inr (ya, yb)) \<Rightarrow>
          (let a = fval xa; b = fval xb; c = fval ya; d = fval yb in
           case oper of
             ADD \<Rightarrow> [a + c, b + d]
           | SUB \<Rightarrow> [a - c, b - d]
           | MUL \<Rightarrow> [a * d, b * c, a * d + b * c, b * d]
           | QUO \<Rightarrow> [a / d, b / d]
           | OtherOp _ \<Rightarrow> [])
      | _ \<Rightarrow> [])"
| "rounded E (ParenExpr x) = rounded E x"
| "rounded E _ = []"

definition exact_at :: "rounding \<Rightarrow> rat \<Rightarrow> bool" where
  "exact_at rnd r \<longleftrightarrow> (r \<noteq> 0 \<longrightarrow> rnd r = Fin r)"

definition exact :: "expr_env \<Rightarrow> ast \<Rightarrow> bool" where
  "exact E e = list_all (exact_at (round64 E)) (rounded E e)"

lemma finite_cases: "finite_f x \<Longrightarrow> (\<And>b. x = Zero b \<Longrightarrow> P) \<Longrightarrow> (\<And>r. x = Fin r \<Longrightarrow> P) \<Longrightarrow> P"
  by (cases x) (auto simp: finite_f_def)

lemma fadd_exact:
  "finite_f x \<Longrightarrow> finite_f y \<Longrightarrow> exact_at rnd (fval x + fval y) \<Longrightarrow>
     finite_f (fadd rnd x y) \<and> fval (fadd rnd x y) = fval x + fval y"
  by (elim finite_cases) (auto simp: fadd_def exact_at_def finite_f_def Let_def)

lemma fsub_exact:
  "finite_f x \<Longrightarrow> finite_f y \<Longrightarrow> exact_at rnd (fval x - fval y) \<Longrightarrow>
     finite_f (fsub rnd x y) \<and> fval (fsub rnd x y) = fval x - fval y"
  by (elim finite_cases) (auto simp: fsub_def fneg_def fadd_def exact_at_def finite_f_def Let_def)

lemma fmul_exact:
  "finite_f x \<Longrightarrow> finite_f y \<Longrightarrow> exact_at rnd (fval x * fval y) \<Longrightarrow>
     finite_f (fmul rnd x y) \<and> fval (fmul rnd x y) = fval x * fval y"
  by (elim finite_cases) (auto simp: fmul_def exact_at_def finite_f_def Let_def)

lemma fdiv_exact:
  "finite_f x \<Longrightarrow> finite_f y \<Longrightarrow> fval y \<noteq> 0 \<Longrightarrow> exact_at rnd (fval x / fval y) \<Longrightarrow>
     finite_f (fdiv rnd x y) \<and> fval (fdiv rnd x y) = fval x / fval y"
  by (elim finite_cases) (auto simp: fdiv_def exact_at_def finite_f_def is_zero_def Let_def)

text \<open>The simplified form is the expression: \<open>slope * x + offset\<close>, for every value of the variable.\<close>

lemma linear_mul_exact:
  assumes "finite_f la" "finite_f lb" "finite_f ra" "finite_f rb"
    and "exact_at rnd (fval la * fval rb)" "exact_at rnd (fval lb * fval ra)"
      "exact_at rnd (fval la * fval rb + fval lb * fval ra)" "exact_at rnd (fval lb * fval rb)"
  shows "finite_f (fadd rnd (fmul rnd la rb) (fmul rnd lb ra)) \<and>
      fval (fadd rnd (fmul rnd la rb) (fmul rnd lb ra)) = fval la * fval rb + fval lb * fval ra"
    and "finite_f (fmul rnd lb rb) \<and> fval (fmul rnd lb rb) = fval lb * fval rb"
proof -
  have m: "finite_f (fmul rnd la rb) \<and> fval (fmul rnd la rb) = fval la * fval rb"
    "finite_f (fmul rnd lb ra) \<and> fval (fmul rnd lb ra) = fval lb * fval ra"
    "finite_f (fmul rnd lb rb) \<and> fval (fmul rnd lb rb) = fval lb * fval rb"
    using assms fmul_exact by simp_all
  then show "finite_f (fadd rnd (fmul rnd la rb) (fmul rnd lb ra)) \<and>
      fval (fadd rnd (fmul rnd la rb) (fmul rnd lb ra)) = fval la * fval rb + fval lb * fval ra"
    using assms(7) fadd_exact [of "fmul rnd la rb" "fmul rnd lb ra" rnd] by simp
  from m show "finite_f (fmul rnd lb rb) \<and> fval (fmul rnd lb rb) = fval lb * fval rb" by simp
qed

lemma simpleExpression_sound:
  assumes "simpleExpression E e = Inr (a, b)" and "exact E e" and "aval E e x0 \<noteq> None"
  shows "finite_f a \<and> finite_f b \<and> (\<forall>x. aval E e x = Some (fval a * x + fval b))"
  using assms
proof (induction e arbitrary: a b)
  case (Ident v)
  then show ?case by (auto simp: finite_f_def)
next
  case (ParenExpr e)
  then show ?case by (simp add: exact_def)
next
  case (BasicLit v)
  then show ?case by (auto simp: finite_f_def split: sum.splits if_splits)
next
  case (OtherNode v)
  then show ?case by simp
next
  case (BinaryExpr oper l r)
  from BinaryExpr.prems(1) obtain la lb ra rb where
    l: "simpleExpression E l = Inr (la, lb)" and r: "simpleExpression E r = Inr (ra, rb)"
    by (auto simp: rbind_eq_Inr split: prod.splits)
  from BinaryExpr.prems(3) have def: "aval E l x0 \<noteq> None" "aval E r x0 \<noteq> None"
    by (auto split: option.splits)
  from BinaryExpr.prems(2) have ex: "exact E l" "exact E r"
    and ops: "list_all (exact_at (round64 E)) (case oper of
        ADD \<Rightarrow> [fval la + fval ra, fval lb + fval rb]
      | SUB \<Rightarrow> [fval la - fval ra, fval lb - fval rb]
      | MUL \<Rightarrow> [fval la * fval rb, fval lb * fval ra, fval la * fval rb + fval lb * fval ra, fval lb * fval rb]
      | QUO \<Rightarrow> [fval la / fval rb, fval lb / fval rb]
      | OtherOp _ \<Rightarrow> [])"
    by (auto simp: exact_def l r Let_def)
  note IHl = BinaryExpr.IH(1) [OF l ex(1) def(1)] and IHr = BinaryExpr.IH(2) [OF r ex(2) def(2)]
  show ?case
  proof (cases oper)
    case ADD
    with BinaryExpr.prems(1) l r have "a = fadd (round64 E) la ra" "b = fadd (round64 E) lb rb" by simp_all
    with ADD ops IHl IHr fadd_exact show ?thesis by (simp add: algebra_simps)
  next
    case SUB
    with BinaryExpr.prems(1) l r have "a = fsub (round64 E) la ra" "b = fsub (round64 E) lb rb" by simp_all
    moreover have "finite_f (fsub (round64 E) la ra) \<and> fval (fsub (round64 E) la ra) = fval la - fval ra"
      "finite_f (fsub (round64 E) lb rb) \<and> fval (fsub (round64 E) lb rb) = fval lb - fval rb"
      using SUB ops IHl IHr fsub_exact by simp_all
    ultimately show ?thesis using SUB IHl IHr by (auto simp: left_diff_distrib)
  next
    case MUL
    from MUL BinaryExpr.prems(1) l r have lin: "fval la = 0 \<or> fval ra = 0"
      and ab: "a = fadd (round64 E) (fmul (round64 E) la rb) (fmul (round64 E) lb ra)" "b = fmul (round64 E) lb rb"
      by (auto simp: is_zero_def split: if_splits)
    have "finite_f a \<and> fval a = fval la * fval rb + fval lb * fval ra" "finite_f b \<and> fval b = fval lb * fval rb"
      unfolding ab using MUL ops IHl IHr linear_mul_exact [of la lb ra rb "round64 E"] by simp_all
    with lin MUL IHl IHr show ?thesis by (auto simp: algebra_simps)
  next
    case QUO
    from QUO BinaryExpr.prems(1) l r have cst: "fval ra = 0"
      and ab: "a = fdiv (round64 E) la rb" "b = fdiv (round64 E) lb rb"
      by (auto simp: is_zero_def split: if_splits)
    have "fval rb \<noteq> 0" using BinaryExpr.prems(3) QUO IHl IHr cst by (auto split: if_splits)
    with QUO ops IHl IHr ab cst fdiv_exact show ?thesis by (simp add: add_divide_distrib)
  next
    case (OtherOp s)
    with BinaryExpr.prems(1) l r show ?thesis by simp
  qed
qed

text \<open>
  C25. \<open>SolveExpression\<close> inverts the expression. When the roundings on the way are exact and the
  expression is defined, a returned solution is a finite number at which the expression takes the given
  value, and it is the only one.
\<close>

theorem SolveExpression_solves:
  assumes "goexpr_Parse E e = Inr ex" and "SolveExpression E e value = Inr s" and "finite_f value"
    and "simpleExpression E (Ast ex) = Inr (slope, off)"
    and "exact E (Ast ex)" and "exact_at (round64 E) (fval value - fval off)"
    and "exact_at (round64 E) ((fval value - fval off) / fval slope)"
    and "aval E (Ast ex) x0 \<noteq> None"
  shows "finite_f s \<and> aval E (Ast ex) (fval s) = Some (fval value) \<and>
     (\<forall>x. aval E (Ast ex) x = Some (fval value) \<longrightarrow> x = fval s)"
proof -
  from simpleExpression_sound [OF assms(4,5,8)]
  have lin: "finite_f slope" "finite_f off" "\<And>x. aval E (Ast ex) x = Some (fval slope * x + fval off)" by auto
  from assms(1,2,4) have nz: "\<not> is_zero slope" and s: "s = fdiv (round64 E) (fsub (round64 E) value off) slope"
    by (auto simp: SolveExpression_def split: if_splits)
  from nz lin(1) have slope: "fval slope \<noteq> 0" by (simp add: is_zero_def)
  from fsub_exact [OF assms(3) lin(2) assms(6)]
  have d: "finite_f (fsub (round64 E) value off)" "fval (fsub (round64 E) value off) = fval value - fval off" by auto
  from fdiv_exact [OF d(1) lin(1) slope] assms(7) d(2) s
  have "finite_f s" "fval s = (fval value - fval off) / fval slope" by auto
  moreover have "x = (fval value - fval off) / fval slope" if "fval slope * x + fval off = fval value" for x
    using that slope by (auto simp: field_simps)
  ultimately show ?thesis using lin(3) slope by auto
qed

text \<open>An instance: exact rationals, the expression \<open>2 * x1 + 1\<close> and decimal digits as literals.\<close>

definition demo_expr :: expr_env where
  "demo_expr = \<lparr>goexpr_Parse = (\<lambda>_. Inr \<lparr>Vars = [''x1''],
       Ast = BinaryExpr ADD (ParenExpr (BinaryExpr MUL (BasicLit ''2'') (Ident ''x1''))) (BasicLit ''1'')\<rparr>),
     goexpr_Evaluate = (\<lambda>_ _. Inl ''unused''),
     ParseFloat = (\<lambda>s. if s = ''2'' then Inr (Fin 2) else if s = ''1'' then Inr (Fin 1) else Inl ''syntax''),
     FormatPrecision = (\<lambda>_ _. []), FormatFloat32 = (\<lambda>_. []), round64 = Fin\<rparr>"

theorem SolveExpression_solves_witness:
  "\<exists>s ex. SolveExpression demo_expr ''2*x1+1'' (Fin 7) = Inr s \<and> fval s = 3 \<and>
     goexpr_Parse demo_expr ''2*x1+1'' = Inr ex \<and> aval demo_expr (Ast ex) (fval s) = Some 7"
proof -
  let ?ex = "\<lparr>Vars = [''x1''],
       Ast = BinaryExpr ADD (ParenExpr (BinaryExpr MUL (BasicLit ''2'') (Ident ''x1''))) (BasicLit ''1'')\<rparr>"
  have ops: "fadd Fin (Fin 2) (Zero False) = Fin 2" "fadd Fin (Zero False) (Fin 1) = Fin 1"
    "fadd Fin (Zero False) (Fin 2) = Fin 2"
    "fmul Fin (Fin 2) (Fin 1) = Fin 2" "fmul Fin (Zero False) (Zero False) = Zero False"
    "fmul Fin (Fin 2) (Zero False) = Zero False"
    "fsub Fin (Fin 7) (Fin 1) = Fin 6" "fdiv Fin (Fin 6) (Fin 2) = Fin 3"
    by (simp_all add: fadd_def fmul_def fsub_def fdiv_def fneg_def finite_f_def is_zero_def)
  have parse: "goexpr_Parse demo_expr ''2*x1+1'' = Inr ?ex" by (simp add: demo_expr_def)
  have simple: "simpleExpression demo_expr (Ast ?ex) = Inr (Fin 2, Fin 1)"
    by (simp add: demo_expr_def ops is_zero_def finite_f_def)
  have solve: "SolveExpression demo_expr ''2*x1+1'' (Fin 7) = Inr (Fin 3)"
    using parse simple by (simp add: SolveExpression_def is_zero_def finite_f_def ops) (simp add: demo_expr_def ops)
  have all: "exact_at (round64 demo_expr) r" for r by (simp add: exact_at_def demo_expr_def)
  have "exact demo_expr (Ast ?ex)" by (simp add: exact_def list_all_iff all)
  moreover have "aval demo_expr (Ast ?ex) 0 \<noteq> None" by (simp add: demo_expr_def finite_f_def)
  ultimately have "aval demo_expr (Ast ?ex) (fval (Fin 3)) = Some (fval (Fin 7))"
    using SolveExpression_solves [OF parse solve _ simple _ all all] by (simp add: finite_f_def)
  with solve parse show ?thesis by fastforce
qed

end
