(* ===== verification/Dm_Data.thy ===== *)
theory Dm_Data
  imports Dm_Expression Mqtt_Client
begin

text \<open>
  The data model of devices, device models, drivers and access templates: the structs of
  \<^verbatim>\<open>dmcontext/config.go\<close>, \<^verbatim>\<open>access.go\<close>, \<^verbatim>\<open>device.go\<close>, \<^verbatim>\<open>device_model.go\<close> and
  \<^verbatim>\<open>device_driver.go\<close>, with the comparison functions and the custom decoders declared on them.

  Conventions: \<^verbatim>\<open>int\<close> and \<^verbatim>\<open>time.Time\<close> are \<open>int\<close>, sized unsigned integers are words, a pointer is an option,
  and so is a slice or map where the code tells nil from empty. A value of type \<^verbatim>\<open>interface{}\<close> is a \<open>pval\<close>.
\<close>

section \<open>Dynamic values\<close>

text \<open>
  What JSON decoding with \<^verbatim>\<open>UseNumber\<close> yields (a number is kept as its text) and what the property
  parser makes of it. The entries of an object are listed by increasing key, so that equal maps are
  equal values.
\<close>

datatype pval =
    PNull | PBool bool | PNumber string | PString string | PArray "pval list"
  | PObject "(string \<times> pval) list"
  | PInt int | PInt16 "16 word" | PInt32 "32 word" | PInt64 "64 word" | PFloat32 f64 | PFloat64 f64

section \<open>config.go\<close>

record IpcDeviceConfig =
  ipc_Name :: string
  ipc_StreamAddress :: string
  ipc_ServiceName :: string
  ipc_ResultTopic :: string
  ipc_AgentEnable :: bool
  ipc_System :: bool
  ipc_RemoteAddress :: string
  ipc_IP :: string
  ipc_Port :: "32 word"
  ipc_Username :: string
  ipc_Password :: string

record IpcScale =
  scale_Enable :: bool
  scale_Height :: int
  scale_Width :: int

record IpcBody =
  body_Content :: string
  body_ImageType :: string
  body_ImageName :: string
  body_Params :: "(string \<times> pval) list option"

record IpcServiceConfig =
  ips_Name :: string
  ips_FPS :: f64
  ips_ImageFormat :: string
  ips_Scale :: IpcScale
  ips_Address :: string
  ips_RequestParams :: "(string \<times> string) list option"
  ips_Body :: IpcBody
  ips_Upload :: bool
  ips_Cache :: bool
  ips_CachePath :: string
  ips_CacheTime :: int

record ReportProperty =
  rp_Time :: int
  rp_Value :: pval

record Event =
  ev_Type :: string
  ev_Payload :: pval

record EnumValue =
  evl_Name :: string
  evl_Value :: string
  evl_DisplayName :: string

record EnumType =
  et_Type :: string
  et_Values :: "EnumValue list option"

record ArrayType =
  at_Type :: string
  at_Min :: int
  at_Max :: int
  at_Format :: string

record ObjectType =
  ot_DisplayName :: string
  ot_Type :: string
  ot_Format :: string

record IEC104Visitor =
  iv_PointNum :: "64 word"
  iv_PointType :: string
  iv_Type :: string

record ModbusVisitor =
  mv_Function :: "8 word"
  mv_Address :: string
  mv_Quantity :: "16 word"
  mv_Type :: string
  mv_Unit :: string
  mv_Scale :: f64
  mv_SwapByte :: bool
  mv_SwapRegister :: bool

record OpcuaVisitor =
  ov_NodeID :: string
  ov_Type :: string
  ov_NsBase :: int
  ov_IdBase :: string
  ov_IdType :: string

record OpcdaVisitor =
  odv_Datapath :: string
  odv_Type :: string

record BacnetVisitor =
  bv_Type :: string
  bv_BacnetType :: "64 word"
  bv_BacnetAddress :: "64 word"
  bv_ApplicationTagNumber :: "8 word"

record PropertyVisitor =
  pv_Modbus :: "ModbusVisitor option"
  pv_Opcua :: "OpcuaVisitor option"
  pv_Opcda :: "OpcdaVisitor option"
  pv_Bacnet :: "BacnetVisitor option"
  pv_IEC104 :: "IEC104Visitor option"
  pv_Custom :: "string option"

section \<open>access.go\<close>

record TcpConfig =
  tcp_Address :: string
  tcp_Port :: "16 word"

record RtuConfig =
  rtu_Port :: string
  rtu_BaudRate :: int
  rtu_Parity :: string
  rtu_DataBit :: int
  rtu_StopBit :: int

record ModbusAccessConfig =
  mac_Id :: "8 word"
  mac_Interval :: int
  mac_Timeout :: int
  mac_IdleTimeout :: int
  mac_Tcp :: "TcpConfig option"
  mac_Rtu :: "RtuConfig option"

record IEC104AccessConfig =
  iac_Id :: "8 word"
  iac_Interval :: int
  iac_Endpoint :: string
  iac_AIOffset :: "16 word"
  iac_DIOffset :: "16 word"
  iac_AOOffset :: "16 word"
  iac_DOOffset :: "16 word"

record OpcuaSecurity =
  os_Policy :: string
  os_Mode :: string

record OpcuaAuth =
  oa_Username :: string
  oa_Password :: string

record OpcuaCertificate =
  oc_Cert :: string
  oc_Key :: string

record OpcuaAccessConfig =
  oac_Id :: "8 word"
  oac_Endpoint :: string
  oac_Interval :: int
  oac_Timeout :: int
  oac_Security :: OpcuaSecurity
  oac_Auth :: "OpcuaAuth option"
  oac_Certificate :: "OpcuaCertificate option"
  oac_NsOffset :: int
  oac_IdOffset :: int

record OpcdaAccessConfig =
  odac_Server :: string
  odac_Host :: string
  odac_Group :: string
  odac_Interval :: int

record BacnetAccessConfig =
  bac_Id :: "8 word"
  bac_Interval :: int
  bac_DeviceId :: "32 word"
  bac_AddressOffset :: "64 word"
  bac_Address :: string
  bac_Port :: int

record AccessConfig =
  ac_Modbus :: "ModbusAccessConfig option"
  ac_Opcua :: "OpcuaAccessConfig option"
  ac_Opcda :: "OpcdaAccessConfig option"
  ac_Bacnet :: "BacnetAccessConfig option"
  ac_IEC104 :: "IEC104AccessConfig option"
  ac_Custom :: "string option"

record ModelMapping =
  mm_Attribute :: string
  mm_Type :: string
  mm_Expression :: string
  mm_Precision :: int
  mm_Deviation :: f64
  mm_SilentWin :: int

section \<open>device.go\<close>

record DeviceAttribute =
  da_Name :: string
  da_Id :: string
  da_Type :: string
  da_Unit :: string
  da_Required :: bool
  da_Value :: pval

record DeviceProperty =
  dp_Name :: string
  dp_Id :: string
  dp_Type :: string
  dp_Mode :: string
  dp_Unit :: string
  dp_Visitor :: PropertyVisitor
  dp_Format :: string
  dp_EnumType :: EnumType
  dp_ArrayType :: ArrayType
  dp_ObjectType :: "(string \<times> ObjectType) list option"
  dp_ObjectRequired :: "string list option"
  dp_Current :: pval
  dp_Expect :: pval

record AccessTemplate =
  atp_Name :: string
  atp_Version :: string
  atp_Properties :: "DeviceProperty list option"
  atp_Mappings :: "ModelMapping list"

record DeviceTopic =
  Delta :: QOSTopic
  Report :: QOSTopic
  EventTopic :: QOSTopic
  GetTopic :: QOSTopic
  GetResponse :: QOSTopic
  EventReport :: QOSTopic
  PropertyGet :: QOSTopic
  LifecycleReport :: QOSTopic

text \<open>The deprecated embedded topics.\<close>

record Topics =
  tp_Delta :: QOSTopic
  tp_Report :: QOSTopic
  tp_Event :: QOSTopic
  tp_Get :: QOSTopic
  tp_GetResponse :: QOSTopic

record DeviceInfo =
  di_Name :: string
  di_Version :: string
  di_Topic :: Topics
  di_DeviceModel :: string
  di_AccessTemplate :: string
  di_DeviceTopic :: DeviceTopic
  di_AccessConfig :: "AccessConfig option"

record ModbusConfig =
  mc_ChannelId :: string
  mc_SlaveId :: "8 word"
  mc_Interval :: int

record OpcuaConfig =
  ouc_ChannelId :: string
  ouc_Interval :: int
  ouc_NsOffset :: int
  ouc_IdOffset :: int

record IEC104Config =
  ic_ChannelId :: string
  ic_Interval :: int
  ic_AIOffset :: int
  ic_DIOffset :: int
  ic_AOOffset :: int
  ic_DOOffset :: int
  ic_PIOffset :: int

record OpcdaConfig =
  odc_ChannelId :: string
  odc_Interval :: int
  odc_Group :: string

record BacnetConfig =
  bc_ChannelId :: string
  bc_Interval :: int
  bc_DeviceId :: "32 word"
  bc_AddressOffset :: "64 word"

record DeviceConfig =
  dc_Infos :: "DeviceInfo option"
  dc_Props :: "DeviceProperty list option"
  dc_Modbus :: "ModbusConfig option"
  dc_OpcUA :: "OpcuaConfig option"
  dc_IEC104 :: "IEC104Config option"
  dc_Opcda :: "OpcdaConfig option"
  dc_Bacnet :: "BacnetConfig option"
  dc_Ipc :: "IpcDeviceConfig option"
  dc_Custom :: "string option"

record Device =
  d_Name :: string
  d_Namespace :: string
  d_Version :: string
  d_Description :: string
  d_Protocol :: string
  d_Alias :: string
  d_Ready :: bool
  d_Active :: bool
  d_Labels :: "(string \<times> string) list option"
  d_DeviceModel :: string
  d_Attributes :: "DeviceAttribute list option"
  d_Properties :: "DeviceProperty list option"
  d_NodeName :: string
  d_DriverName :: string
  d_Config :: "DeviceConfig option"
  d_Shadow :: string
  d_CreateTime :: int
  d_UpdateTime :: int

record DeviceShadow =
  ds_Name :: string
  ds_Report :: "(string \<times> pval) list"
  ds_Desire :: "(string \<times> pval) list"

text \<open>\<^verbatim>\<open>len\<close> of a slice or map, and the comparison \<^verbatim>\<open>len(x) != len(y) || !DeepEqual(x, y)\<close> of the sources.\<close>

definition len :: "'a list option \<Rightarrow> nat" where
  "len x = (case x of None \<Rightarrow> 0 | Some xs \<Rightarrow> length xs)"

definition differ :: "'a list option \<Rightarrow> 'a list option \<Rightarrow> bool" where
  "differ x y \<longleftrightarrow> len x \<noteq> len y \<or> x \<noteq> y"

lemma differ_iff [simp]: "differ x y \<longleftrightarrow> x \<noteq> y"
  by (auto simp: differ_def)

definition EqualDevice :: "Device \<Rightarrow> Device \<Rightarrow> bool" where
  "EqualDevice old new =
     (if d_Name old \<noteq> d_Name new \<or> d_Protocol old \<noteq> d_Protocol new \<or> d_DeviceModel old \<noteq> d_DeviceModel new then False
      else if d_Alias old \<noteq> d_Alias new \<or> d_Description old \<noteq> d_Description new then False
      else if differ (d_Labels old) (d_Labels new) then False
      else if differ (d_Attributes old) (d_Attributes new) then False
      else if differ (d_Properties old) (d_Properties new) then False
      else if d_Config old \<noteq> d_Config new then False
      else if d_NodeName old \<noteq> d_NodeName new \<or> d_DriverName old \<noteq> d_DriverName new \<or>
        d_Shadow old \<noteq> d_Shadow new \<or> d_Ready old \<noteq> d_Ready new \<or> d_Active old \<noteq> d_Active new then False
      else True)"

section \<open>device\_model.go\<close>

record DeviceModelAttribute =
  dma_Name :: string
  dma_Id :: string
  dma_Type :: string
  dma_Unit :: string
  dma_DefaultValue :: pval
  dma_Required :: bool

record DeviceModelProperty =
  dmp_Name :: string
  dmp_Id :: string
  dmp_Type :: string
  dmp_Mode :: string
  dmp_Unit :: string
  dmp_Format :: string
  dmp_EnumType :: EnumType
  dmp_ArrayType :: ArrayType
  dmp_ObjectType :: "(string \<times> ObjectType) list option"
  dmp_ObjectRequired :: "string list option"
  dmp_Visitor :: PropertyVisitor

record DeviceModel =
  dm_Name :: string
  dm_Namespace :: string
  dm_ProductSecret :: string
  dm_Version :: string
  dm_Description :: string
  dm_Protocol :: string
  dm_Labels :: "(string \<times> string) list option"
  dm_Attributes :: "DeviceModelAttribute list option"
  dm_Properties :: "DeviceModelProperty list option"
  dm_CreateTime :: int
  dm_UpdateTime :: int
  dm_Type :: "8 word"

definition EqualDeviceModel :: "DeviceModel \<Rightarrow> DeviceModel \<Rightarrow> bool" where
  "EqualDeviceModel old new =
     (if dm_Name old \<noteq> dm_Name new \<or> dm_Protocol old \<noteq> dm_Protocol new \<or> dm_Description old \<noteq> dm_Description new then False
      else if differ (dm_Labels old) (dm_Labels new) then False
      else if differ (dm_Attributes old) (dm_Attributes new) then False
      else if differ (dm_Properties old) (dm_Properties new) then False
      else True)"

section \<open>device\_driver.go\<close>

record ModbusChannel =
  mch_Tcp :: "TcpConfig option"
  mch_Rtu :: "RtuConfig option"

record OpcuaChannel =
  och_ID :: "8 word"
  och_Endpoint :: string
  och_Timeout :: int
  och_Security :: OpcuaSecurity
  och_Auth :: "OpcuaAuth option"
  och_Certificate :: "OpcuaCertificate option"

record IEC104Channel =
  ich_Protocol :: string
  ich_Address :: string
  ich_Port :: "16 word"

record OpcdaChannel =
  odch_Server :: string
  odch_Host :: string

record BacnetChannel =
  bch_Address :: string
  bch_Port :: int

record ChannelConfig =
  ch_ChannelId :: string
  ch_Modbus :: "ModbusChannel option"
  ch_OpcUA :: "OpcuaChannel option"
  ch_IEC104 :: "IEC104Channel option"
  ch_Opcda :: "OpcdaChannel option"
  ch_Bacnet :: "BacnetChannel option"

record DriverConfig =
  dr_Channels :: "ChannelConfig list option"
  dr_IpcServices :: "IpcServiceConfig list option"
  dr_Custom :: "string option"

record ObjectReference =
  or_Name :: string
  or_Version :: string

record DeviceDriver =
  dd_NodeName :: string
  dd_DriverName :: string
  dd_DriverInstName :: string
  dd_Namespace :: string
  dd_Version :: string
  dd_Protocol :: string
  dd_Application :: "ObjectReference option"
  dd_Configuration :: "ObjectReference option"
  dd_DriverConfig :: "DriverConfig option"
  dd_CreateTime :: int
  dd_UpdateTime :: int

definition EqualDeviceDriver :: "DeviceDriver \<Rightarrow> DeviceDriver \<Rightarrow> bool" where
  "EqualDeviceDriver old new =
     (if dd_NodeName old \<noteq> dd_NodeName new \<or> dd_DriverName old \<noteq> dd_DriverName new \<or>
        dd_DriverInstName old \<noteq> dd_DriverInstName new \<or> dd_Protocol old \<noteq> dd_Protocol new then False
      else if dd_Application old \<noteq> dd_Application new \<or> dd_Configuration old \<noteq> dd_Configuration new \<or>
        dd_DriverConfig old \<noteq> dd_DriverConfig new then False
      else True)"

section \<open>Custom decoders\<close>

text \<open>
  The decoders that decode a twin struct with \<^verbatim>\<open>UseNumber\<close> and copy it field by field. The decoding of the
  twin (\<^verbatim>\<open>deviceAttribute\<close>, \<^verbatim>\<open>deviceProperty\<close>, \<^verbatim>\<open>deviceModelAttribute\<close>) is given by its result; the target is
  left alone on an error.
\<close>

definition DeviceAttribute_UnmarshalJSON ::
  "(string, DeviceAttribute) result \<Rightarrow> DeviceAttribute \<Rightarrow> string option \<times> DeviceAttribute" where
  "DeviceAttribute_UnmarshalJSON decoded da =
     (case decoded of
        Inl err \<Rightarrow> (Some err, da)
      | Inr attr \<Rightarrow>
          (None, da\<lparr>da_Name := da_Name attr, da_Id := da_Id attr, da_Unit := da_Unit attr,
             da_Type := da_Type attr, da_Required := da_Required attr, da_Value := da_Value attr\<rparr>))"

definition DeviceProperty_UnmarshalJSON ::
  "(string, DeviceProperty) result \<Rightarrow> DeviceProperty \<Rightarrow> string option \<times> DeviceProperty" where
  "DeviceProperty_UnmarshalJSON decoded dp =
     (case decoded of
        Inl err \<Rightarrow> (Some err, dp)
      | Inr prop \<Rightarrow>
          (None, dp\<lparr>dp_Name := dp_Name prop, dp_Id := dp_Id prop, dp_Unit := dp_Unit prop,
             dp_Type := dp_Type prop, dp_Mode := dp_Mode prop, dp_Visitor := dp_Visitor prop,
             dp_Format := dp_Format prop, dp_EnumType := dp_EnumType prop, dp_ArrayType := dp_ArrayType prop,
             dp_ObjectType := dp_ObjectType prop, dp_ObjectRequired := dp_ObjectRequired prop,
             dp_Current := dp_Current prop, dp_Expect := dp_Expect prop\<rparr>))"

definition DeviceModelAttribute_UnmarshalJSON ::
  "(string, DeviceModelAttribute) result \<Rightarrow> DeviceModelAttribute \<Rightarrow> string option \<times> DeviceModelAttribute" where
  "DeviceModelAttribute_UnmarshalJSON decoded da =
     (case decoded of
        Inl err \<Rightarrow> (Some err, da)
      | Inr attr \<Rightarrow>
          (None, da\<lparr>dma_Name := dma_Name attr, dma_Id := dma_Id attr, dma_Type := dma_Type attr,
             dma_Unit := dma_Unit attr, dma_DefaultValue := dma_DefaultValue attr,
             dma_Required := dma_Required attr\<rparr>))"

text \<open>No field is forgotten: a successful decoding replaces the whole target.\<close>

lemma UnmarshalJSON_complete:
  "DeviceAttribute_UnmarshalJSON (Inr a) old1 = (None, a)"
  "DeviceProperty_UnmarshalJSON (Inr p) old2 = (None, p)"
  "DeviceModelAttribute_UnmarshalJSON (Inr m) old3 = (None, m)"
  by (simp_all add: DeviceAttribute_UnmarshalJSON_def DeviceProperty_UnmarshalJSON_def
      DeviceModelAttribute_UnmarshalJSON_def)

text \<open>
  \<^verbatim>\<open>AccessConfig.UnmarshalYAML\<close> tries the document as the struct, then, for documents written by older
  versions, as a bare Modbus configuration or as a plain string. The document is given by its three
  decodings.
\<close>

record access_doc =
  as_access :: "(string, AccessConfig) result"
  as_modbus :: "(string, ModbusAccessConfig) result"
  as_custom :: "(string, string) result"

definition no_protocol :: "AccessConfig \<Rightarrow> bool" where
  "no_protocol a = (ac_Modbus a = None \<and> ac_Opcua a = None \<and> ac_Custom a = None \<and> ac_IEC104 a = None \<and>
     ac_Opcda a = None \<and> ac_Bacnet a = None)"

definition AccessConfig_UnmarshalYAML :: "access_doc \<Rightarrow> AccessConfig \<Rightarrow> string option \<times> AccessConfig" where
  "AccessConfig_UnmarshalYAML doc a =
     (case as_access doc of
        Inr acc \<Rightarrow>
          (let a = a\<lparr>ac_Modbus := ac_Modbus acc, ac_Opcua := ac_Opcua acc, ac_Opcda := ac_Opcda acc,
                 ac_Bacnet := ac_Bacnet acc, ac_IEC104 := ac_IEC104 acc, ac_Custom := ac_Custom acc\<rparr>
           in if no_protocol a then
                (case as_modbus doc of
                   Inr modbus \<Rightarrow> (None, a\<lparr>ac_Modbus := Some modbus\<rparr>)
                 | Inl _ \<Rightarrow> (None, a))
              else (None, a))
      | Inl _ \<Rightarrow>
          (case as_custom doc of
             Inl err \<Rightarrow> (Some err, a)
           | Inr custom \<Rightarrow> (None, a\<lparr>ac_Custom := Some custom\<rparr>)))"

text \<open>
  What a decoded access configuration says: the document's own protocols if it names any, a Modbus
  configuration for a document that names none, a custom one for a plain string. On a fresh target
  exactly one of these holds, and a failure leaves it empty.
\<close>

definition empty_access :: AccessConfig where
  "empty_access = \<lparr>ac_Modbus = None, ac_Opcua = None, ac_Opcda = None, ac_Bacnet = None, ac_IEC104 = None,
     ac_Custom = None\<rparr>"

lemma UnmarshalYAML_cases:
  "AccessConfig_UnmarshalYAML doc empty_access =
     (case as_access doc of
        Inr acc \<Rightarrow>
          (None, if no_protocol acc then
                   empty_access\<lparr>ac_Modbus := (case as_modbus doc of Inl _ \<Rightarrow> None | Inr m \<Rightarrow> Some m)\<rparr>
                 else acc)
      | Inl _ \<Rightarrow>
          (case as_custom doc of
             Inl err \<Rightarrow> (Some err, empty_access)
           | Inr custom \<Rightarrow> (None, empty_access\<lparr>ac_Custom := Some custom\<rparr>)))"
  by (auto simp: AccessConfig_UnmarshalYAML_def no_protocol_def empty_access_def split: sum.splits)

section \<open>Comparison\<close>

text \<open>The fields a comparison looks at: the others are blanked out.\<close>

definition device_content :: "Device \<Rightarrow> Device" where
  "device_content d = d\<lparr>d_Namespace := [], d_Version := [], d_CreateTime := 0, d_UpdateTime := 0\<rparr>"

definition model_content :: "DeviceModel \<Rightarrow> DeviceModel" where
  "model_content m = m\<lparr>dm_Namespace := [], dm_ProductSecret := [], dm_Version := [], dm_CreateTime := 0,
     dm_UpdateTime := 0, dm_Type := 0\<rparr>"

definition driver_content :: "DeviceDriver \<Rightarrow> DeviceDriver" where
  "driver_content d = d\<lparr>dd_Namespace := [], dd_Version := [], dd_CreateTime := 0, dd_UpdateTime := 0\<rparr>"

text \<open>
  The comparison functions that decide whether a device, a device model or a driver binding has changed:
  they compare every field but the name space, the version, the times and, for a model,
  the secret and the type byte. In particular each is an equivalence, and a resource that differs in
  any other field, down to nil against empty, counts as changed.
\<close>

theorem Equal_compares_content:
  "(EqualDevice a b \<longleftrightarrow> device_content a = device_content b) \<and>
   (EqualDeviceModel m n \<longleftrightarrow> model_content m = model_content n) \<and>
   (EqualDeviceDriver x y \<longleftrightarrow> driver_content x = driver_content y)"
proof -
  have "EqualDevice a b \<longleftrightarrow> device_content a = device_content b"
    by (cases a; cases b) (simp add: EqualDevice_def device_content_def, blast)
  moreover have "EqualDeviceModel m n \<longleftrightarrow> model_content m = model_content n"
    by (cases m; cases n) (simp add: EqualDeviceModel_def model_content_def, blast)
  moreover have "EqualDeviceDriver x y \<longleftrightarrow> driver_content x = driver_content y"
    by (cases x; cases y) (simp add: EqualDeviceDriver_def driver_content_def, blast)
  ultimately show ?thesis by blast
qed

end
