(* ===== verification/Dm_Property.thy ===== *)
theory Dm_Property
  imports Dm_Data Go_Strconv
begin

text \<open>
  Parsing of property values, property keys and device topics: the last part of
  \<^verbatim>\<open>dmcontext/device.go\<close> and the topic functions of \<^verbatim>\<open>dmcontext/observer.go\<close>.
  \<^verbatim>\<open>ParseFloat\<close> is a parameter.
\<close>

section \<open>Property values\<close>

datatype prop_error =
    NumError num_error | FloatSyntax string | ErrTypeNotSupported | ErrPropsConfigNotExist
  | ErrDeviceNotExist | ErrInvalidPropertyKey

definition TypeInt :: string where "TypeInt = ''int''"
definition TypeInt16 :: string where "TypeInt16 = ''int16''"
definition TypeInt32 :: string where "TypeInt32 = ''int32''"
definition TypeInt64 :: string where "TypeInt64 = ''int64''"
definition TypeFloat32 :: string where "TypeFloat32 = ''float32''"
definition TypeFloat64 :: string where "TypeFloat64 = ''float64''"
definition TypeBool :: string where "TypeBool = ''bool''"
definition TypeString :: string where "TypeString = ''string''"
definition TypeTime :: string where "TypeTime = ''time''"
definition TypeDate :: string where "TypeDate = ''date''"
definition TypeArray :: string where "TypeArray = ''array''"
definition TypeEnum :: string where "TypeEnum = ''enum''"
definition TypeObject :: string where "TypeObject = ''object''"

lemmas type_names =
  TypeInt_def TypeInt16_def TypeInt32_def TypeInt64_def TypeFloat32_def TypeFloat64_def TypeBool_def
  TypeString_def TypeTime_def TypeDate_def TypeArray_def TypeEnum_def TypeObject_def

text \<open>\<^verbatim>\<open>num, _ := val.(json.Number)\<close>: the empty string when the value is no number.\<close>

definition number_text :: "pval \<Rightarrow> string" where
  "number_text v = (case v of PNumber s \<Rightarrow> s | _ \<Rightarrow> [])"

text \<open>\<open>pf\<close> is \<^verbatim>\<open>strconv.ParseFloat\<close>, of the text and the bit size.\<close>

definition parse_float ::
  "(string \<Rightarrow> nat \<Rightarrow> (string, f64) result) \<Rightarrow> nat \<Rightarrow> (f64 \<Rightarrow> pval) \<Rightarrow> pval \<Rightarrow> (prop_error, pval) result" where
  "parse_float pf bits mk v =
     (case pf (number_text v) bits of Inl e \<Rightarrow> Inl (FloatSyntax e) | Inr f \<Rightarrow> Inr (mk f))"

definition parse_int :: "nat \<Rightarrow> (int \<Rightarrow> pval) \<Rightarrow> pval \<Rightarrow> (prop_error, pval) result" where
  "parse_int bits mk v =
     (case ParseInt (number_text v) bits of Inl e \<Rightarrow> Inl (NumError e) | Inr i \<Rightarrow> Inr (mk i))"

definition parsePropertyValue ::
  "(string \<Rightarrow> nat \<Rightarrow> (string, f64) result) \<Rightarrow> string \<Rightarrow> pval \<Rightarrow> (prop_error, pval) result" where
  "parsePropertyValue pf tpy val =
     (if tpy = TypeInt16 then parse_int 16 (\<lambda>i. PInt16 (of_int i)) val
      else if tpy = TypeInt32 then parse_int 32 (\<lambda>i. PInt32 (of_int i)) val
      else if tpy = TypeInt64 then parse_int 64 (\<lambda>i. PInt64 (of_int i)) val
      else if tpy = TypeFloat32 then parse_float pf 32 PFloat32 val
      else if tpy = TypeFloat64 then parse_float pf 64 PFloat64 val
      else if tpy \<in> {TypeBool, TypeString, TypeEnum, TypeArray, TypeTime, TypeDate, TypeObject} then Inr val
      else Inl ErrTypeNotSupported)"

text \<open>The model's properties by name; of two with one name the later one counts.\<close>

definition prop_configs :: "DeviceProperty list \<Rightarrow> string \<rightharpoonup> DeviceProperty" where
  "prop_configs vals = foldl (\<lambda>m v. m(dp_Name v \<mapsto> v)) Map.empty vals"

lemma prop_configs_last: "prop_configs vals k = map_of (rev (map (\<lambda>v. (dp_Name v, v)) vals)) k"
  using go_map.lookup_puts [of Map.empty "map (\<lambda>v. (dp_Name v, v)) vals" k]
  by (simp add: prop_configs_def foldl_map split: option.splits)

fun parse_props ::
  "(string \<Rightarrow> nat \<Rightarrow> (string, f64) result) \<Rightarrow> (string \<rightharpoonup> DeviceProperty) \<Rightarrow> (string \<times> pval) list \<Rightarrow>
     (prop_error, (string \<times> pval) list) result" where
  "parse_props pf cfgs [] = Inr []"
| "parse_props pf cfgs ((key, val) # props) =
     (case cfgs key of
        None \<Rightarrow> Inl ErrPropsConfigNotExist
      | Some cfg \<Rightarrow>
          rbind (parsePropertyValue pf (dp_Type cfg) val) (\<lambda>v.
          rbind (parse_props pf cfgs props) (\<lambda>res. Inr ((key, v) # res))))"

definition parsePropertyValues ::
  "(string \<Rightarrow> nat \<Rightarrow> (string, f64) result) \<Rightarrow> (string \<rightharpoonup> DeviceProperty list) \<Rightarrow> DeviceInfo \<Rightarrow>
     (string \<times> pval) list \<Rightarrow> (prop_error, (string \<times> pval) list) result" where
  "parsePropertyValues pf deviceModels device props =
     (case deviceModels (di_DeviceModel device) of
        None \<Rightarrow> Inl ErrDeviceNotExist
      | Some vals \<Rightarrow> parse_props pf (prop_configs vals) props)"

fun string_keys :: "pval list \<Rightarrow> (prop_error, string list) result" where
  "string_keys [] = Inr []"
| "string_keys (PString s # vs) = rbind (string_keys vs) (\<lambda>ks. Inr (s # ks))"
| "string_keys (_ # vs) = Inl ErrInvalidPropertyKey"

definition parsePropertyKeys :: "pval \<Rightarrow> (prop_error, string list) result" where
  "parsePropertyKeys v = (case v of PArray vs \<Rightarrow> string_keys vs | _ \<Rightarrow> Inl ErrInvalidPropertyKey)"

section \<open>Integers at their width\<close>

lemma sint_of_int_range:
  assumes "- (2 ^ (LENGTH('w::len) - 1)) \<le> i" "i < 2 ^ (LENGTH('w) - 1)"
  shows "sint (of_int i :: 'w word) = i"
  using assms by (simp add: signed_of_int signed_take_bit_int_eq_self)

text \<open>
  C27. Integer properties are exact. A number written in decimal is accepted for an \<^verbatim>\<open>int16\<close>, \<^verbatim>\<open>int32\<close> or
  \<^verbatim>\<open>int64\<close> property exactly when it fits the width, and then the machine integer handed to the driver
  has precisely that value (nothing wraps); a value outside the width is a range error.
\<close>

theorem integer_properties_exact:
  "parsePropertyValue pf TypeInt16 (PNumber (int_text i)) =
     (if - (2 ^ 15) \<le> i \<and> i < 2 ^ 15 then Inr (PInt16 (of_int i)) else Inl (NumError (ErrRange (int_text i)))) \<and>
   parsePropertyValue pf TypeInt32 (PNumber (int_text i)) =
     (if - (2 ^ 31) \<le> i \<and> i < 2 ^ 31 then Inr (PInt32 (of_int i)) else Inl (NumError (ErrRange (int_text i)))) \<and>
   parsePropertyValue pf TypeInt64 (PNumber (int_text i)) =
     (if - (2 ^ 63) \<le> i \<and> i < 2 ^ 63 then Inr (PInt64 (of_int i)) else Inl (NumError (ErrRange (int_text i)))) \<and>
   (- (2 ^ 15) \<le> i \<and> i < 2 ^ 15 \<longrightarrow> sint (of_int i :: 16 word) = i) \<and>
   (- (2 ^ 31) \<le> i \<and> i < 2 ^ 31 \<longrightarrow> sint (of_int i :: 32 word) = i) \<and>
   (- (2 ^ 63) \<le> i \<and> i < 2 ^ 63 \<longrightarrow> sint (of_int i :: 64 word) = i)"
proof (intro conjI)
  have p: "ParseInt (int_text i) 16 = (if - (2 ^ 15) \<le> i \<and> i < 2 ^ 15 then Inr i else Inl (ErrRange (int_text i)))"
    "ParseInt (int_text i) 32 = (if - (2 ^ 31) \<le> i \<and> i < 2 ^ 31 then Inr i else Inl (ErrRange (int_text i)))"
    "ParseInt (int_text i) 64 = (if - (2 ^ 63) \<le> i \<and> i < 2 ^ 63 then Inr i else Inl (ErrRange (int_text i)))"
    using ParseInt_int_text [of 16 i] ParseInt_int_text [of 32 i] ParseInt_int_text [of 64 i] by simp_all
  show "parsePropertyValue pf TypeInt16 (PNumber (int_text i)) =
     (if - (2 ^ 15) \<le> i \<and> i < 2 ^ 15 then Inr (PInt16 (of_int i)) else Inl (NumError (ErrRange (int_text i))))"
    by (simp add: parsePropertyValue_def parse_int_def number_text_def p)
  show "parsePropertyValue pf TypeInt32 (PNumber (int_text i)) =
     (if - (2 ^ 31) \<le> i \<and> i < 2 ^ 31 then Inr (PInt32 (of_int i)) else Inl (NumError (ErrRange (int_text i))))"
    by (simp add: parsePropertyValue_def parse_int_def number_text_def p type_names)
  show "parsePropertyValue pf TypeInt64 (PNumber (int_text i)) =
     (if - (2 ^ 63) \<le> i \<and> i < 2 ^ 63 then Inr (PInt64 (of_int i)) else Inl (NumError (ErrRange (int_text i))))"
    by (simp add: parsePropertyValue_def parse_int_def number_text_def p type_names)
qed (use sint_of_int_range [where 'w = 16] sint_of_int_range [where 'w = 32] sint_of_int_range [where 'w = 64] in simp_all)

theorem integer_properties_exact_witness:
  "parsePropertyValue (\<lambda>_ _. Inl ''unused'') TypeInt16 (PNumber (int_text 32768)) = Inl (NumError (ErrRange (int_text 32768))) \<and>
   parsePropertyValue (\<lambda>_ _. Inl ''unused'') TypeInt16 (PNumber (int_text (- 32768))) = Inr (PInt16 (of_int (- 32768))) \<and>
   sint (of_int (- 32768) :: 16 word) = - 32768"
  using integer_properties_exact [of "\<lambda>_ _. Inl ''unused''" 32768] integer_properties_exact [of "\<lambda>_ _. Inl ''unused''" "- 32768"] by simp

section \<open>Device topics\<close>

text \<open>
  The two regular expressions are a literal followed by groups \<^verbatim>\<open>(.+)\<close> separated by slashes.
  \<open>groups n s\<close> is the match of \<open>n\<close> such groups against the whole of \<open>s\<close>, which has no line feed: the
  first group is as long as possible, as in Go's leftmost-first matching.
\<close>

fun groups :: "nat \<Rightarrow> string \<Rightarrow> string list option" and
    groups_at :: "nat \<Rightarrow> nat \<Rightarrow> string \<Rightarrow> string list option" where
  "groups 0 s = None"
| "groups (Suc 0) s = (if s = [] then None else Some [s])"
| "groups (Suc (Suc n)) s = groups_at (Suc n) (length s) s"
| "groups_at n 0 s = None"
| "groups_at n (Suc k) s =
     (if 0 < k \<and> k < length s \<and> s ! k = CHR ''/'' \<and> groups n (drop (Suc k) s) \<noteq> None
      then Some (take k s # the (groups n (drop (Suc k) s)))
      else groups_at n k s)"

text \<open>
  \<^verbatim>\<open>FindStringSubmatch\<close>: the leftmost place where the literal and the groups match; the dot does not
  match a line feed, so a match ends before one.
\<close>

definition first_line :: "string \<Rightarrow> string" where
  "first_line s = takeWhile (\<lambda>c. c \<noteq> CHR 0x0A) s"

fun find_match :: "string \<Rightarrow> nat \<Rightarrow> string \<Rightarrow> string list option" where
  "find_match lit n [] = None"
| "find_match lit n (c # s) =
     (if strings_HasPrefix (c # s) lit \<and> groups n (first_line (drop (length lit) (c # s))) \<noteq> None
      then groups n (first_line (drop (length lit) (c # s)))
      else find_match lit n s)"

definition device_literal :: string where "device_literal = ''$baetyl/device/''"
definition blink_literal :: string where "blink_literal = ''thing/''"

definition ParseTopic :: "string \<Rightarrow> string option" where
  "ParseTopic topic = map_option (\<lambda>gs. gs ! 0) (find_match device_literal 2 topic)"

definition parseBlinkTopic :: "string \<Rightarrow> string option" where
  "parseBlinkTopic topic = map_option (\<lambda>gs. gs ! 1) (find_match blink_literal 4 topic)"

definition ParseDeviceTopic :: "string \<Rightarrow> string option" where
  "ParseDeviceTopic topic = (if strings_HasPrefix topic ''$'' then ParseTopic topic else parseBlinkTopic topic)"

lemma count_split:
  assumes "k < length s" "s ! k = c"
  shows "count_list s c = count_list (take k s) c + Suc (count_list (drop (Suc k) s) c)"
proof -
  have "count_list (take k s @ s ! k # drop (Suc k) s) c =
      count_list (take k s) c + Suc (count_list (drop (Suc k) s) c)"
    using assms(2) by simp
  then show ?thesis using id_take_nth_drop [OF assms(1)] by simp
qed

lemma groups_slashes:
  "groups n s \<noteq> None \<Longrightarrow> n \<le> Suc (count_list s CHR ''/'')"
  "groups_at n k s \<noteq> None \<Longrightarrow> Suc n \<le> Suc (count_list s CHR ''/'')"
proof (induction n s and n k s rule: groups_groups_at.induct)
  case (5 n k s)
  show ?case
  proof (cases "0 < k \<and> k < length s \<and> s ! k = CHR ''/'' \<and> groups n (drop (Suc k) s) \<noteq> None")
    case True
    then have "n \<le> Suc (count_list (drop (Suc k) s) CHR ''/'')" using 5 by blast
    moreover have "count_list s CHR ''/'' = count_list (take k s) CHR ''/'' + Suc (count_list (drop (Suc k) s) CHR ''/'')"
      using True by (intro count_split) simp_all
    ultimately show ?thesis by simp
  next
    case False
    then have "groups_at n (Suc k) s = groups_at n k s" by (subst groups_at.simps) (simp only: if_False)
    with 5 False show ?thesis by metis
  qed
qed auto

lemma groups_at_skip:
  assumes "k \<le> j" "\<And>i. k \<le> i \<Longrightarrow> i < j \<Longrightarrow> \<not> (i < length s \<and> s ! i = CHR ''/'' \<and> groups n (drop (Suc i) s) \<noteq> None)"
  shows "groups_at n j s = groups_at n k s"
  using assms
proof (induction j)
  case (Suc j)
  show ?case
  proof (cases "k = Suc j")
    case False
    then have "k \<le> j" using Suc.prems(1) by simp
    with Suc.IH Suc.prems(2) have IH: "groups_at n j s = groups_at n k s" by simp
    have "\<not> (0 < j \<and> j < length s \<and> s ! j = CHR ''/'' \<and> groups n (drop (Suc j) s) \<noteq> None)"
      using Suc.prems(2) \<open>k \<le> j\<close> by blast
    then have "groups_at n (Suc j) s = groups_at n j s" by (subst groups_at.simps) (simp only: if_False)
    with IH show ?thesis by simp
  qed simp
qed simp

text \<open>Non-empty pieces without slashes are recovered from their join.\<close>

lemma groups_Join:
  assumes "xs \<noteq> []" "\<And>x. x \<in> set xs \<Longrightarrow> x \<noteq> [] \<and> CHR ''/'' \<notin> set x"
  shows "groups (length xs) (strings_Join xs ''/'') = Some xs \<and>
     count_list (strings_Join xs ''/'') CHR ''/'' = length xs - 1"
  using assms
proof (induction xs rule: list_nonempty_induct)
  case (single x)
  then show ?case by (simp add: count_list_0_iff)
next
  case (cons x xs)
  let ?t = "strings_Join xs ''/''"
  let ?s = "strings_Join (x # xs) ''/''"
  obtain y ys where xs: "xs = y # ys" using cons.hyps by (cases xs) auto
  then have s: "?s = x @ CHR ''/'' # ?t" by simp
  have IH: "groups (length xs) ?t = Some xs" "count_list ?t CHR ''/'' = length xs - 1"
    using cons.IH cons.prems by auto
  have x: "x \<noteq> []" "CHR ''/'' \<notin> set x" using cons.prems by auto
  then have x0: "count_list x CHR ''/'' = 0" by (simp add: count_list_0_iff)
  have none: "groups (length xs) (drop (Suc i) ?s) = None"
    if le_i: "Suc (length x) \<le> i" and lt_i: "i < length ?s" and at_i: "?s ! i = CHR ''/''" for i
  proof (rule ccontr)
    assume "groups (length xs) (drop (Suc i) ?s) \<noteq> None"
    then have le: "length xs \<le> Suc (count_list (drop (Suc i) ?s) CHR ''/'')" by (rule groups_slashes(1))
    obtain j where i: "i = Suc (length x) + j" using le_Suc_ex [OF le_i] by blast
    have j: "j < length ?t" "?t ! j = CHR ''/''" "drop (Suc i) ?s = drop (Suc j) ?t"
    proof -
      have len: "length ?s = Suc (length x + length ?t)" using s by simp
      then show "j < length ?t" using lt_i i by simp
      have "?s ! i = ?t ! j" using s i by (simp only: nth_append) simp
      then show "?t ! j = CHR ''/''" using at_i by simp
      show "drop (Suc i) ?s = drop (Suc j) ?t" using s i by (simp only: drop_append) simp
    qed
    have "count_list ?t CHR ''/'' = count_list (take j ?t) CHR ''/'' + Suc (count_list (drop (Suc j) ?t) CHR ''/'')"
      using j(1,2) by (rule count_split)
    moreover have "length xs \<le> Suc (count_list (drop (Suc j) ?t) CHR ''/'')" using le unfolding j(3) .
    moreover have "0 < length xs" using cons.hyps by simp
    ultimately show False using IH(2) by linarith
  qed
  have "groups_at (length xs) (length ?s) ?s = groups_at (length xs) (Suc (length x)) ?s"
    by (rule groups_at_skip) (use none s in auto)
  also have "\<dots> = Some (x # xs)"
    using x(1) IH(1) unfolding s by simp
  finally have "groups (length (x # xs)) ?s = Some (x # xs)" using xs by simp
  moreover have "count_list ?s CHR ''/'' = length xs"
    using IH(2) x0 cons.hyps unfolding s by (cases xs) (simp_all add: count_list_append)
  ultimately show ?case by simp
qed

lemma first_line_id: "CHR 0x0A \<notin> set s \<Longrightarrow> first_line s = s"
  by (auto simp: first_line_def takeWhile_eq_all_conv)

lemma find_match_front:
  assumes "lit \<noteq> []" "CHR 0x0A \<notin> set s" "groups n s = Some gs"
  shows "find_match lit n (lit @ s) = Some gs"
proof -
  obtain c l where lit: "lit = c # l" using assms(1) by (cases lit) auto
  have "strings_HasPrefix (lit @ s) lit" "drop (length lit) (lit @ s) = s" by (simp_all add: strings_HasPrefix_def)
  then show ?thesis using assms(2,3) lit by (simp add: first_line_id)
qed

lemma ParseDeviceTopic_parts:
  assumes "\<forall>x \<in> {product, name, kind, a, b}. x \<noteq> [] \<and> CHR ''/'' \<notin> set x \<and> CHR 0x0A \<notin> set x"
  shows "ParseDeviceTopic (device_literal @ name @ ''/'' @ kind) = Some name \<and>
     ParseDeviceTopic (blink_literal @ product @ ''/'' @ name @ ''/'' @ a @ ''/'' @ b) = Some name"
proof
  have nl: "CHR 0x0A \<notin> set (strings_Join [name, kind] ''/'')"
    "CHR 0x0A \<notin> set (strings_Join [product, name, a, b] ''/'')" using assms by auto
  have "groups 2 (strings_Join [name, kind] ''/'') = Some [name, kind]"
    using groups_Join [of "[name, kind]"] assms by (auto simp: numeral_2_eq_2)
  from find_match_front [OF _ nl(1) this, of device_literal]
  show "ParseDeviceTopic (device_literal @ name @ ''/'' @ kind) = Some name"
    by (simp add: ParseDeviceTopic_def ParseTopic_def strings_HasPrefix_def device_literal_def)
  have "groups 4 (strings_Join [product, name, a, b] ''/'') = Some [product, name, a, b]"
    using groups_Join [of "[product, name, a, b]"] assms by (auto simp: eval_nat_numeral)
  from find_match_front [OF _ nl(2) this, of blink_literal]
  show "ParseDeviceTopic (blink_literal @ product @ ''/'' @ name @ ''/'' @ a @ ''/'' @ b) = Some name"
    by (simp add: ParseDeviceTopic_def parseBlinkTopic_def strings_HasPrefix_def blink_literal_def)
qed

text \<open>
  C28. The device a topic addresses. For pieces that are not empty and free of slashes and line feeds, a
  topic \<^verbatim>\<open>$baetyl/device/NAME/KIND\<close> and a topic \<^verbatim>\<open>thing/PRODUCT/NAME/A/B\<close> are parsed back to \<^verbatim>\<open>NAME\<close>.
\<close>

theorem device_topic_roundtrip:
  assumes "\<forall>x \<in> {product, name, kind, a, b}. x \<noteq> [] \<and> CHR ''/'' \<notin> set x \<and> CHR 0x0A \<notin> set x"
  shows "ParseDeviceTopic (device_literal @ name @ ''/'' @ kind) = Some name \<and>
     ParseDeviceTopic (blink_literal @ product @ ''/'' @ name @ ''/'' @ a @ ''/'' @ b) = Some name"
  using assms by (rule ParseDeviceTopic_parts)

theorem device_topic_roundtrip_witness:
  "ParseDeviceTopic ''$baetyl/device/dev1/report'' = Some ''dev1'' \<and>
   ParseDeviceTopic ''thing/prod/dev1/raw/c2d'' = Some ''dev1''"
  using device_topic_roundtrip [of "''prod''" "''dev1''" "''report''" "''raw''" "''c2d''"]
  by (simp add: device_literal_def blink_literal_def)

end
