(* ===== verification/Dm_Context.thy ===== *)
theory Dm_Context
  imports Dm_Property
begin

text \<open>
  The device-management context: \<^verbatim>\<open>dmcontext/context.go\<close>, \<^verbatim>\<open>dmcontext/observer.go\<close> and
  \<^verbatim>\<open>dmcontext/blink.go\<close>. The context receives messages of the broker through its observer, queues
  them per device and processes each queue in a goroutine that calls the driver's callbacks; in the
  other direction it publishes reports through the MQTT client of \<^verbatim>\<open>Mqtt_Client\<close>.

  The content of a message is opaque (type \<open>'c\<close>); decoding it into the structs of the package, and encoding
  messages, is \<^verbatim>\<open>encoding/json\<close>, given by the record \<open>codec\<close>. Time stamps and request
  identifiers are arguments.
\<close>

section \<open>Messages\<close>

definition MethodPropertyInvoke :: string where "MethodPropertyInvoke = ''thing.property.invoke''"
definition MethodPropertyReport :: string where "MethodPropertyReport = ''thing.property.post''"
definition MethodEventReport :: string where "MethodEventReport = ''thing.event.post''"
definition MethodPropertyGet :: string where "MethodPropertyGet = ''thing.property.get''"
definition MethodLifecyclePost :: string where "MethodLifecyclePost = ''thing.lifecycle.post''"
definition DefaultVersion :: string where "DefaultVersion = ''1.0''"
definition KeyOnlineState :: string where "KeyOnlineState = ''online_state''"

record BlinkData =
  ReqId :: string
  Method :: string
  Version :: string
  Timestamp :: int
  Properties :: pval
  Events :: "(string \<times> pval) list option"
  Params :: "(string \<times> pval) list option"

definition blink :: "string \<Rightarrow> int \<Rightarrow> string \<Rightarrow> BlinkData" where
  "blink reqId now method = \<lparr>ReqId = reqId, Method = method, Version = DefaultVersion, Timestamp = now,
     Properties = PNull, Events = None, Params = None\<rparr>"

definition GenDeltaBlinkData :: "string \<Rightarrow> int \<Rightarrow> (string \<times> pval) list \<Rightarrow> BlinkData" where
  "GenDeltaBlinkData reqId now props = (blink reqId now MethodPropertyInvoke)\<lparr>Properties := PObject props\<rparr>"

definition GenPropertyReportBlinkData :: "string \<Rightarrow> int \<Rightarrow> (string \<times> pval) list \<Rightarrow> BlinkData" where
  "GenPropertyReportBlinkData reqId now props = (blink reqId now MethodPropertyReport)\<lparr>Properties := PObject props\<rparr>"

definition GenEventReportBlinkData :: "string \<Rightarrow> int \<Rightarrow> (string \<times> pval) list \<Rightarrow> BlinkData" where
  "GenEventReportBlinkData reqId now events = (blink reqId now MethodEventReport)\<lparr>Events := Some events\<rparr>"

definition GenPropertyGetBlinkData :: "string \<Rightarrow> int \<Rightarrow> string list \<Rightarrow> BlinkData" where
  "GenPropertyGetBlinkData reqId now props = (blink reqId now MethodPropertyGet)\<lparr>Properties := PArray (map PString props)\<rparr>"

definition GenLifecycleReportBlinkData :: "string \<Rightarrow> int \<Rightarrow> bool \<Rightarrow> BlinkData" where
  "GenLifecycleReportBlinkData reqId now online =
     (blink reqId now MethodLifecyclePost)\<lparr>Params := Some [(KeyOnlineState, PBool online)]\<rparr>"

definition MessageDeviceDelta :: string where "MessageDeviceDelta = ''deviceDelta''"
definition MessageDeviceEvent :: string where "MessageDeviceEvent = ''deviceEvent''"
definition MessageResponse :: string where "MessageResponse = ''response''"
definition MessageDevicePropertyGet :: string where "MessageDevicePropertyGet = ''thing.property.get''"
definition MessageDeviceReport :: string where "MessageDeviceReport = ''deviceReport''"
definition MessageDeviceEventReport :: string where "MessageDeviceEventReport = ''thing.event.post''"
definition MessageDeviceLifecycleReport :: string where "MessageDeviceLifecycleReport = ''thing.lifecycle.post''"

lemmas message_kinds =
  MessageDeviceDelta_def MessageDeviceEvent_def MessageResponse_def MessageDevicePropertyGet_def

text \<open>A missing metadata key reads as the empty string; \<open>Content = None\<close> is a message without content.\<close>

record 'c Message =
  Kind :: string
  Metadata :: "string \<rightharpoonup> string"
  Content :: "'c option"

record BlinkMessage =
  bm_Kind :: string
  bm_Metadata :: "(string \<times> string) list"
  bm_Blink :: BlinkData

definition KeyDevice :: string where "KeyDevice = ''device''"
definition KeyDeviceProduct :: string where "KeyDeviceProduct = ''deviceProduct''"
definition KeyAccessTemplate :: string where "KeyAccessTemplate = ''accessTemplate''"
definition KeyNode :: string where "KeyNode = ''node''"
definition KeyNodeProduct :: string where "KeyNodeProduct = ''nodeProduct''"
definition NodeProduct :: string where "NodeProduct = ''BIE-Product''"

text \<open>
  The JSON layer: decoding a content into the blink properties, an event or a shadow (\<open>None\<close>: the document was
  null), decoding a payload into a message, encoding a message or a device.
\<close>

record 'c codec =
  as_blink :: "'c \<Rightarrow> (string, pval) result"
  as_event :: "'c \<Rightarrow> (string, Event) result"
  as_shadow :: "'c \<Rightarrow> (string, DeviceShadow option) result"
  of_payload :: "string \<Rightarrow> (string, 'c Message) result"
  to_payload :: "BlinkMessage \<Rightarrow> (string, string) result"
  device_payload :: "DeviceInfo \<Rightarrow> (string, string) result"
  float_of :: "string \<Rightarrow> nat \<Rightarrow> (string, f64) result"

section \<open>The context\<close>

datatype dm_error =
    DecodeError string | EncodeError string | ErrInvalidDelta | ErrUnknownDevice | PropError prop_error
  | ErrResponseChannelNotExist | CallbackError string | MqttError mqtt_error | ErrAccessTemplateNotExist
  | ErrAccessConfigNotExist | ErrNoPropsConfig | ErrDeviceModelNotExist | AlreadyRegistered
  | WaitingForProperties | GetPropertiesTimeout string

datatype dm_result = ROk | RErr dm_error | RPanic | RBlocked

text \<open>What the callbacks of the driver were called with.\<close>

datatype callback_call =
    DeltaCall DeviceInfo "(string \<times> pval) list"
  | EventCall DeviceInfo Event
  | PropertyGetCall DeviceInfo "string list"

record ('c, 'tls) DmCtx =
  nodeName :: string
  mqtt :: "'tls Client option"
  eventCb :: "(DeviceInfo \<Rightarrow> Event \<Rightarrow> string option) option"
  deltaCb :: "(DeviceInfo \<Rightarrow> (string \<times> pval) list \<Rightarrow> string option) option"
  propertyGetCb :: "(DeviceInfo \<Rightarrow> string list \<Rightarrow> string option) option"
  response :: "string \<rightharpoonup> bool"
  devices :: "string \<rightharpoonup> DeviceInfo"
  msgChs :: "string \<rightharpoonup> 'c Message chan"
  driverConfig :: string
  propsConfig :: "string \<rightharpoonup> DeviceProperty list"
  accessConfig :: "string \<rightharpoonup> AccessConfig"
  deviceModels :: "string \<rightharpoonup> DeviceProperty list"
  accessTemplates :: "string \<rightharpoonup> AccessTemplate"
  lastReportProperties :: "string \<rightharpoonup> ReportProperty"
  cb_calls :: "callback_call list"
  shadows :: "(string \<times> DeviceShadow) list"

text \<open>
  \<open>response\<close> has an entry for every device whose properties are being fetched; the entry says
  whether the fetching goroutine is blocked in its \<^verbatim>\<open>select\<close>, since the channel is unbuffered.
  \<open>shadows\<close> are the responses handed over, \<open>cb_calls\<close> the calls of the callbacks.
\<close>

definition device_name :: "'c Message \<Rightarrow> string" where
  "device_name msg = (case Metadata msg KeyDevice of None \<Rightarrow> [] | Some n \<Rightarrow> n)"

definition decode :: "('c \<Rightarrow> (string, 'v) result) \<Rightarrow> 'v \<Rightarrow> 'c Message \<Rightarrow> (string, 'v) result" where
  "decode f zero msg = (case Content msg of None \<Rightarrow> Inr zero | Some c \<Rightarrow> f c)"

definition processDelta ::
  "'c codec \<Rightarrow> 'c Message \<Rightarrow> ('c, 'tls) DmCtx \<Rightarrow> dm_result \<times> ('c, 'tls) DmCtx" where
  "processDelta K msg c =
     (case deltaCb c of
        None \<Rightarrow> (ROk, c)
      | Some cb \<Rightarrow>
          (case decode (as_blink K) PNull msg of
             Inl e \<Rightarrow> (RErr (DecodeError e), c)
           | Inr (PObject delta) \<Rightarrow>
               (case devices c (device_name msg) of
                  None \<Rightarrow> (RErr ErrUnknownDevice, c)
                | Some dev \<Rightarrow>
                    (case parsePropertyValues (float_of K) (deviceModels c) dev delta of
                       Inl e \<Rightarrow> (RErr (PropError e), c)
                     | Inr props \<Rightarrow>
                         (case cb dev props of None \<Rightarrow> ROk | Some e \<Rightarrow> RErr (CallbackError e),
                          c\<lparr>cb_calls := cb_calls c @ [DeltaCall dev props]\<rparr>)))
           | Inr _ \<Rightarrow> (RErr ErrInvalidDelta, c)))"

definition zero_event :: Event where "zero_event = \<lparr>ev_Type = [], ev_Payload = PNull\<rparr>"

definition processEvent ::
  "'c codec \<Rightarrow> 'c Message \<Rightarrow> ('c, 'tls) DmCtx \<Rightarrow> dm_result \<times> ('c, 'tls) DmCtx" where
  "processEvent K msg c =
     (case eventCb c of
        None \<Rightarrow> (ROk, c)
      | Some cb \<Rightarrow>
          (case decode (as_event K) zero_event msg of
             Inl e \<Rightarrow> (RErr (DecodeError e), c)
           | Inr event \<Rightarrow>
               (case devices c (device_name msg) of
                  None \<Rightarrow> (ROk, c)
                | Some dev \<Rightarrow>
                    (case cb dev event of None \<Rightarrow> ROk | Some e \<Rightarrow> RErr (CallbackError e),
                     c\<lparr>cb_calls := cb_calls c @ [EventCall dev event]\<rparr>))))"

definition processPropertyGet ::
  "'c codec \<Rightarrow> 'c Message \<Rightarrow> ('c, 'tls) DmCtx \<Rightarrow> dm_result \<times> ('c, 'tls) DmCtx" where
  "processPropertyGet K msg c =
     (case propertyGetCb c of
        None \<Rightarrow> (ROk, c)
      | Some cb \<Rightarrow>
          (case devices c (device_name msg) of
             None \<Rightarrow> (ROk, c)
           | Some dev \<Rightarrow>
               (case decode (as_blink K) PNull msg of
                  Inl e \<Rightarrow> (RErr (DecodeError e), c)
                | Inr v \<Rightarrow>
                    (case parsePropertyKeys v of
                       Inl e \<Rightarrow> (RErr (PropError e), c)
                     | Inr keys \<Rightarrow>
                         (case cb dev keys of None \<Rightarrow> ROk | Some e \<Rightarrow> RErr (CallbackError e),
                          c\<lparr>cb_calls := cb_calls c @ [PropertyGetCall dev keys]\<rparr>)))))"

text \<open>An unknown device reads as the zero \<^verbatim>\<open>DeviceInfo\<close>, whose model is the empty name.\<close>

definition zero_topic :: QOSTopic where "zero_topic = \<lparr>qt_qos = 0, qt_topic = []\<rparr>"

definition zero_device :: DeviceInfo where
  "zero_device = \<lparr>di_Name = [], di_Version = [],
     di_Topic = \<lparr>tp_Delta = zero_topic, tp_Report = zero_topic, tp_Event = zero_topic, tp_Get = zero_topic,
       tp_GetResponse = zero_topic\<rparr>,
     di_DeviceModel = [], di_AccessTemplate = [],
     di_DeviceTopic = \<lparr>Delta = zero_topic, Report = zero_topic, EventTopic = zero_topic, GetTopic = zero_topic,
       GetResponse = zero_topic, EventReport = zero_topic, PropertyGet = zero_topic, LifecycleReport = zero_topic\<rparr>,
     di_AccessConfig = None\<rparr>"

definition processResponse ::
  "'c codec \<Rightarrow> 'c Message \<Rightarrow> ('c, 'tls) DmCtx \<Rightarrow> dm_result \<times> ('c, 'tls) DmCtx" where
  "processResponse K msg c =
     (let name = device_name msg in
      case response c name of
        None \<Rightarrow> (RErr ErrResponseChannelNotExist, c)
      | Some ready \<Rightarrow>
          (case decode (as_shadow K) None msg of
             Inl e \<Rightarrow> (RErr (DecodeError e), c)
           | Inr None \<Rightarrow> (RPanic, c)
           | Inr (Some shad) \<Rightarrow>
               (let dev = (case devices c name of None \<Rightarrow> zero_device | Some d \<Rightarrow> d) in
                case parsePropertyValues (float_of K) (deviceModels c) dev (ds_Report shad) of
                  Inl e \<Rightarrow> (RErr (PropError e), c)
                | Inr rep \<Rightarrow>
                    (case parsePropertyValues (float_of K) (deviceModels c) dev (ds_Desire shad) of
                       Inl e \<Rightarrow> (RErr (PropError e), c)
                     | Inr des \<Rightarrow>
                         (if ready then
                            (ROk, c\<lparr>shadows := shadows c @ [(name, shad\<lparr>ds_Report := rep, ds_Desire := des\<rparr>)],
                                    response := (response c)(name \<mapsto> False)\<rparr>)
                          else (ROk, c))))))"

text \<open>One iteration of \<^verbatim>\<open>processing\<close> on a device's queue; the result is only logged, but a panic is a panic.\<close>

definition dispatch ::
  "'c codec \<Rightarrow> 'c Message \<Rightarrow> ('c, 'tls) DmCtx \<Rightarrow> dm_result \<times> ('c, 'tls) DmCtx" where
  "dispatch K msg c =
     (if Kind msg = MessageDeviceDelta then processDelta K msg c
      else if Kind msg = MessageDeviceEvent then processEvent K msg c
      else if Kind msg = MessageResponse then processResponse K msg c
      else if Kind msg = MessageDevicePropertyGet then processPropertyGet K msg c
      else (ROk, c))"

definition processing_step ::
  "'c codec \<Rightarrow> string \<Rightarrow> ('c, 'tls) DmCtx \<Rightarrow> (dm_result \<times> ('c, 'tls) DmCtx) option" where
  "processing_step K name c =
     (case msgChs c name of
        None \<Rightarrow> None
      | Some ch \<Rightarrow>
          (case chan_recv ch of
             None \<Rightarrow> None
           | Some (msg, ch') \<Rightarrow> Some (dispatch K msg (c\<lparr>msgChs := (msgChs c)(name \<mapsto> ch')\<rparr>))))"

text \<open>\<^verbatim>\<open>observer.OnPublish\<close>: it never returns an error, whatever becomes of the message.\<close>

definition OnPublish_message ::
  "'c codec \<Rightarrow> string \<Rightarrow> string \<Rightarrow> ('c, 'tls) DmCtx \<Rightarrow> ('c, 'tls) DmCtx" where
  "OnPublish_message K topic payload c =
     (case ParseDeviceTopic topic of
        None \<Rightarrow> c
      | Some device \<Rightarrow>
          (case of_payload K payload of
             Inl _ \<Rightarrow> c
           | Inr msg \<Rightarrow>
               (case msgChs c device of
                  None \<Rightarrow> c
                | Some ch \<Rightarrow>
                    (case chan_send ch msg of
                       None \<Rightarrow> c
                     | Some ch' \<Rightarrow> c\<lparr>msgChs := (msgChs c)(device \<mapsto> ch')\<rparr>))))"

definition Start :: "('c, 'tls) DmCtx \<Rightarrow> ('c, 'tls) DmCtx" where
  "Start c = c\<lparr>msgChs := (\<lambda>name. if devices c name = None then msgChs c name else Some (make_chan 1024))\<rparr>"

section \<open>Creation\<close>

record dm_config =
  cfg_devices :: "DeviceInfo list"
  cfg_driver :: string

text \<open>The four topics a device is subscribed to, in the order of the loop, and the devices by name.\<close>

definition device_subscriptions :: "DeviceInfo list \<Rightarrow> QOSTopic list" where
  "device_subscriptions devs = concat (map (\<lambda>d. [Delta (di_DeviceTopic d), EventTopic (di_DeviceTopic d),
     GetResponse (di_DeviceTopic d), PropertyGet (di_DeviceTopic d)]) devs)"

definition devices_by_name :: "DeviceInfo list \<Rightarrow> string \<rightharpoonup> DeviceInfo" where
  "devices_by_name devs = foldl (\<lambda>m d. m(di_Name d \<mapsto> d)) Map.empty devs"

lemma devices_by_name_last: "devices_by_name devs k = map_of (rev (map (\<lambda>d. (di_Name d, d)) devs)) k"
  using go_map.lookup_puts [of Map.empty "map (\<lambda>d. (di_Name d, d)) devs" k]
  by (simp add: devices_by_name_def foldl_map split: option.splits)

text \<open>
  \<^verbatim>\<open>NewContext\<close>, from the decoded configuration files (an undecodable one counts as its default) and
  the outcome of creating the broker client. Starting a client that could not be created
  dereferences a nil pointer.
\<close>

definition NewContext ::
  "string \<Rightarrow> (string \<rightharpoonup> DeviceProperty list) \<Rightarrow> (string \<rightharpoonup> AccessTemplate) \<Rightarrow> dm_config \<Rightarrow>
     (QOSTopic list \<Rightarrow> (string, 'tls Client) result) \<Rightarrow> ('c, 'tls) DmCtx option" where
  "NewContext node models templates cfg newClient =
     (case newClient (device_subscriptions (cfg_devices cfg)) of
        Inl _ \<Rightarrow> None
      | Inr cl \<Rightarrow>
          Some \<lparr>nodeName = node, mqtt = Some cl, eventCb = None, deltaCb = None, propertyGetCb = None,
            response = Map.empty, devices = devices_by_name (cfg_devices cfg), msgChs = Map.empty,
            driverConfig = cfg_driver cfg, propsConfig = Map.empty, accessConfig = Map.empty,
            deviceModels = models,
            accessTemplates = (\<lambda>n. map_option (\<lambda>t. t\<lparr>atp_Name := n\<rparr>) (templates n)),
            lastReportProperties = Map.empty, cb_calls = [], shadows = []\<rparr>)"

section \<open>Publishing\<close>

text \<open>
  \<^verbatim>\<open>c.mqtt.Publish(QOS(t.QOS), t.Topic, pld, 0, false, false)\<close>; \<open>pick\<close> resolves the client's
  \<^verbatim>\<open>select\<close>.
\<close>

definition mqtt_publish ::
  "bool \<Rightarrow> QOSTopic \<Rightarrow> string \<Rightarrow> ('c, 'tls) DmCtx \<Rightarrow> dm_result \<times> ('c, 'tls) DmCtx" where
  "mqtt_publish pick t pld c =
     (case mqtt c of
        None \<Rightarrow> (RPanic, c)
      | Some cl \<Rightarrow>
          (case Client_Publish pick (ucast (qt_qos t)) (qt_topic t) pld 0 False False cl of
             None \<Rightarrow> (RBlocked, c)
           | Some (None, cl') \<Rightarrow> (ROk, c\<lparr>mqtt := Some cl'\<rparr>)
           | Some (Some e, cl') \<Rightarrow> (RErr (MqttError e), c\<lparr>mqtt := Some cl'\<rparr>)))"

definition genMetadata :: "DeviceInfo \<Rightarrow> ('c, 'tls) DmCtx \<Rightarrow> (string \<times> string) list" where
  "genMetadata info c =
     [(KeyDevice, di_Name info), (KeyDeviceProduct, di_DeviceModel info),
      (KeyAccessTemplate, di_AccessTemplate info), (KeyNode, nodeName c), (KeyNodeProduct, NodeProduct)]"

definition publish_message ::
  "'c codec \<Rightarrow> bool \<Rightarrow> string \<Rightarrow> BlinkData \<Rightarrow> QOSTopic \<Rightarrow> DeviceInfo \<Rightarrow> ('c, 'tls) DmCtx \<Rightarrow>
     dm_result \<times> ('c, 'tls) DmCtx" where
  "publish_message K pick kind bd topic info c =
     (case to_payload K \<lparr>bm_Kind = kind, bm_Metadata = genMetadata info c, bm_Blink = bd\<rparr> of
        Inl e \<Rightarrow> (RErr (EncodeError e), c)
      | Inr pld \<Rightarrow> mqtt_publish pick topic pld c)"

definition ReportDeviceProperties ::
  "'c codec \<Rightarrow> bool \<Rightarrow> string \<Rightarrow> int \<Rightarrow> DeviceInfo \<Rightarrow> (string \<times> pval) list \<Rightarrow> ('c, 'tls) DmCtx \<Rightarrow>
     dm_result \<times> ('c, 'tls) DmCtx" where
  "ReportDeviceProperties K pick reqId now info report c =
     publish_message K pick MessageDeviceReport (GenPropertyReportBlinkData reqId now report)
       (Report (di_DeviceTopic info)) info c"

definition ReportDeviceEvents ::
  "'c codec \<Rightarrow> bool \<Rightarrow> string \<Rightarrow> int \<Rightarrow> DeviceInfo \<Rightarrow> (string \<times> pval) list \<Rightarrow> ('c, 'tls) DmCtx \<Rightarrow>
     dm_result \<times> ('c, 'tls) DmCtx" where
  "ReportDeviceEvents K pick reqId now info report c =
     publish_message K pick MessageDeviceEventReport (GenEventReportBlinkData reqId now report)
       (EventReport (di_DeviceTopic info)) info c"

definition Online ::
  "'c codec \<Rightarrow> bool \<Rightarrow> string \<Rightarrow> int \<Rightarrow> DeviceInfo \<Rightarrow> ('c, 'tls) DmCtx \<Rightarrow> dm_result \<times> ('c, 'tls) DmCtx" where
  "Online K pick reqId now info c =
     publish_message K pick MessageDeviceLifecycleReport (GenLifecycleReportBlinkData reqId now True)
       (LifecycleReport (di_DeviceTopic info)) info c"

definition Offline ::
  "'c codec \<Rightarrow> bool \<Rightarrow> string \<Rightarrow> int \<Rightarrow> DeviceInfo \<Rightarrow> ('c, 'tls) DmCtx \<Rightarrow> dm_result \<times> ('c, 'tls) DmCtx" where
  "Offline K pick reqId now info c =
     publish_message K pick MessageDeviceLifecycleReport (GenLifecycleReportBlinkData reqId now False)
       (LifecycleReport (di_DeviceTopic info)) info c"

definition ReportCustomMsg ::
  "bool \<Rightarrow> QOSTopic \<Rightarrow> string \<Rightarrow> ('c, 'tls) DmCtx \<Rightarrow> dm_result \<times> ('c, 'tls) DmCtx" where
  "ReportCustomMsg pick topic data c = mqtt_publish pick topic data c"

section \<open>Accessors and callbacks\<close>

definition GetAccessTemplates :: "DeviceInfo \<Rightarrow> ('c, 'tls) DmCtx \<Rightarrow> (dm_error, AccessTemplate) result" where
  "GetAccessTemplates device c =
     (case accessTemplates c (di_AccessTemplate device) of
        None \<Rightarrow> Inl ErrAccessTemplateNotExist | Some t \<Rightarrow> Inr t)"

definition GetDevice :: "string \<Rightarrow> ('c, 'tls) DmCtx \<Rightarrow> (dm_error, DeviceInfo) result" where
  "GetDevice device c = (case devices c device of None \<Rightarrow> Inl ErrUnknownDevice | Some d \<Rightarrow> Inr d)"

definition GetDeviceModel :: "DeviceInfo \<Rightarrow> ('c, 'tls) DmCtx \<Rightarrow> (dm_error, DeviceProperty list) result" where
  "GetDeviceModel device c =
     (case deviceModels c (di_DeviceModel device) of None \<Rightarrow> Inl ErrDeviceModelNotExist | Some ps \<Rightarrow> Inr ps)"

definition GetDeviceAccessConfig :: "DeviceInfo \<Rightarrow> ('c, 'tls) DmCtx \<Rightarrow> (dm_error, AccessConfig) result" where
  "GetDeviceAccessConfig device c =
     (case accessConfig c (di_Name device) of None \<Rightarrow> Inl ErrAccessConfigNotExist | Some a \<Rightarrow> Inr a)"

definition GetDevicePropertiesConfig :: "DeviceInfo \<Rightarrow> ('c, 'tls) DmCtx \<Rightarrow> (dm_error, DeviceProperty list) result" where
  "GetDevicePropertiesConfig device c =
     (case propsConfig c (di_Name device) of None \<Rightarrow> Inl ErrNoPropsConfig | Some ps \<Rightarrow> Inr ps)"

definition RegisterDeltaCallback ::
  "(DeviceInfo \<Rightarrow> (string \<times> pval) list \<Rightarrow> string option) \<Rightarrow> ('c, 'tls) DmCtx \<Rightarrow> dm_result \<times> ('c, 'tls) DmCtx" where
  "RegisterDeltaCallback cb c =
     (if deltaCb c \<noteq> None then (RErr AlreadyRegistered, c) else (ROk, c\<lparr>deltaCb := Some cb\<rparr>))"

definition RegisterEventCallback ::
  "(DeviceInfo \<Rightarrow> Event \<Rightarrow> string option) \<Rightarrow> ('c, 'tls) DmCtx \<Rightarrow> dm_result \<times> ('c, 'tls) DmCtx" where
  "RegisterEventCallback cb c =
     (if eventCb c \<noteq> None then (RErr AlreadyRegistered, c) else (ROk, c\<lparr>eventCb := Some cb\<rparr>))"

definition RegisterPropertyGetCallback ::
  "(DeviceInfo \<Rightarrow> string list \<Rightarrow> string option) \<Rightarrow> ('c, 'tls) DmCtx \<Rightarrow> dm_result \<times> ('c, 'tls) DmCtx" where
  "RegisterPropertyGetCallback cb c =
     (if propertyGetCb c \<noteq> None then (RErr AlreadyRegistered, c) else (ROk, c\<lparr>propertyGetCb := Some cb\<rparr>))"

section \<open>Reporting with a filter\<close>

fun isCalculable :: "pval \<Rightarrow> bool" where
  "isCalculable (PInt _) = True"
| "isCalculable (PInt16 _) = True"
| "isCalculable (PInt32 _) = True"
| "isCalculable (PInt64 _) = True"
| "isCalculable (PFloat32 _) = True"
| "isCalculable (PFloat64 _) = True"
| "isCalculable _ = False"

fun dval_of :: "pval \<Rightarrow> dval" where
  "dval_of (PInt i) = VInt i"
| "dval_of (PInt16 w) = VInt16 (sint w)"
| "dval_of (PInt32 w) = VInt32 (sint w)"
| "dval_of (PInt64 w) = VInt64 (sint w)"
| "dval_of (PFloat32 f) = VFloat32 f"
| "dval_of (PFloat64 f) = VFloat64 f"
| "dval_of _ = VOther []"

definition fge :: "f64 \<Rightarrow> f64 \<Rightarrow> bool" where
  "fge x y =
     (if x = NaN \<or> y = NaN then False
      else if x = Inf False \<or> y = Inf True then True
      else if x = Inf True \<or> y = Inf False then False
      else fval y \<le> fval x)"

definition mappings_by_attribute :: "ModelMapping list \<Rightarrow> string \<rightharpoonup> ModelMapping" where
  "mappings_by_attribute ms = foldl (\<lambda>m x. m(mm_Attribute x \<mapsto> x)) Map.empty ms"

text \<open>
  The body of the loop for one property: the value is reported when it is the first one or the last
  report is older than the silent window, and again when the deviation test says so. \<open>now\<close> is the
  time in nanoseconds, \<open>E\<close> the float operations.
\<close>

definition exceeds :: "expr_env \<Rightarrow> ModelMapping \<Rightarrow> f64 \<Rightarrow> f64 \<Rightarrow> bool" where
  "exceeds E mapping parseVal lastVal =
     fge (fsub (round64 E) parseVal lastVal)
       (fdiv (round64 E) (fmul (round64 E) lastVal (mm_Deviation mapping)) (Fin 100))"

definition filter_property ::
  "expr_env \<Rightarrow> int \<Rightarrow> ModelMapping \<Rightarrow> string \<Rightarrow> pval \<Rightarrow> (string \<times> pval) list \<times> (string \<rightharpoonup> ReportProperty) \<Rightarrow>
     (string \<times> pval) list \<times> (string \<rightharpoonup> ReportProperty)" where
  "filter_property E now mapping key value st =
     (let due = (case snd st key of
                   None \<Rightarrow> True
                 | Some lr \<Rightarrow> mm_SilentWin mapping * second < now - rp_Time lr);
          report = (\<lambda>st. (alist_put key value (fst st), (snd st)(key \<mapsto> \<lparr>rp_Time = now, rp_Value = value\<rparr>)));
          st = (if due then report st else st)
      in if isCalculable value then
           (case parseValueToFloat64 E (dval_of value) of
              Inl _ \<Rightarrow> st
            | Inr parseVal \<Rightarrow>
                (case snd st key of
                   None \<Rightarrow> st
                 | Some lr \<Rightarrow>
                     (case parseValueToFloat64 E (dval_of (rp_Value lr)) of
                        Inl _ \<Rightarrow> st
                      | Inr lastVal \<Rightarrow> (if exceeds E mapping parseVal lastVal then report st else st))))
         else st)"

fun filter_report ::
  "expr_env \<Rightarrow> int \<Rightarrow> (string \<rightharpoonup> ModelMapping) \<Rightarrow> (string \<times> pval) list \<Rightarrow>
     (string \<times> pval) list \<times> (string \<rightharpoonup> ReportProperty) \<Rightarrow> (string \<times> pval) list \<times> (string \<rightharpoonup> ReportProperty)" where
  "filter_report E now pm [] st = st"
| "filter_report E now pm ((key, value) # report) st =
     filter_report E now pm report
       (case pm key of None \<Rightarrow> st | Some mapping \<Rightarrow> filter_property E now mapping key value st)"

definition ReportDevicePropertiesWithFilter ::
  "'c codec \<Rightarrow> expr_env \<Rightarrow> bool \<Rightarrow> string \<Rightarrow> int \<Rightarrow> DeviceInfo \<Rightarrow> (string \<times> pval) list \<Rightarrow> ('c, 'tls) DmCtx \<Rightarrow>
     dm_result \<times> ('c, 'tls) DmCtx" where
  "ReportDevicePropertiesWithFilter K E pick reqId now device report c =
     (case GetAccessTemplates device c of
        Inl e \<Rightarrow> (RErr e, c)
      | Inr tpl \<Rightarrow>
          (let (filtered, lastRep) = filter_report E now (mappings_by_attribute (atp_Mappings tpl)) report
                 ([], lastReportProperties c)
           in ReportDeviceProperties K pick reqId (now div 1000000) device filtered
                (c\<lparr>lastReportProperties := lastRep\<rparr>)))"

section \<open>Fetching the properties of a device\<close>

text \<open>
  \<^verbatim>\<open>GetDeviceProperties\<close> in its four phases: the request is published, then the response channel is
  registered, then the goroutine blocks in its \<^verbatim>\<open>select\<close>, then the timer fires or a response
  arrives. Both ways out delete the registration.
\<close>

definition gp_publish ::
  "'c codec \<Rightarrow> bool \<Rightarrow> DeviceInfo \<Rightarrow> ('c, 'tls) DmCtx \<Rightarrow> dm_result \<times> ('c, 'tls) DmCtx" where
  "gp_publish K pick info c =
     (case device_payload K info of
        Inl e \<Rightarrow> (RErr (EncodeError e), c)
      | Inr pld \<Rightarrow> mqtt_publish pick (GetTopic (di_DeviceTopic info)) pld c)"

definition gp_register :: "DeviceInfo \<Rightarrow> ('c, 'tls) DmCtx \<Rightarrow> dm_result \<times> ('c, 'tls) DmCtx" where
  "gp_register info c =
     (if response c (di_Name info) \<noteq> None then (RErr WaitingForProperties, c)
      else (ROk, c\<lparr>response := (response c)(di_Name info \<mapsto> False)\<rparr>))"

definition gp_select :: "DeviceInfo \<Rightarrow> ('c, 'tls) DmCtx \<Rightarrow> ('c, 'tls) DmCtx" where
  "gp_select info c = c\<lparr>response := (response c)(di_Name info \<mapsto> True)\<rparr>"

definition gp_timeout :: "DeviceInfo \<Rightarrow> ('c, 'tls) DmCtx \<Rightarrow> dm_result \<times> ('c, 'tls) DmCtx" where
  "gp_timeout info c =
     (RErr (GetPropertiesTimeout (di_Name info)), c\<lparr>response := (response c)(di_Name info := None)\<rparr>)"

definition gp_receive :: "DeviceInfo \<Rightarrow> ('c, 'tls) DmCtx \<Rightarrow> (DeviceShadow \<times> ('c, 'tls) DmCtx) option" where
  "gp_receive info c =
     map_option (\<lambda>s. (s, c\<lparr>response := (response c)(di_Name info := None),
        shadows := alist_del (di_Name info) (shadows c)\<rparr>)) (map_of (shadows c) (di_Name info))"

section \<open>Callbacks see typed properties only\<close>

text \<open>The dynamic type a property value must have for a declared type.\<close>

definition value_typed :: "string \<Rightarrow> pval \<Rightarrow> bool" where
  "value_typed tpy v =
     (if tpy = TypeInt16 then (\<exists>w. v = PInt16 w)
      else if tpy = TypeInt32 then (\<exists>w. v = PInt32 w)
      else if tpy = TypeInt64 then (\<exists>w. v = PInt64 w)
      else if tpy = TypeFloat32 then (\<exists>f. v = PFloat32 f)
      else if tpy = TypeFloat64 then (\<exists>f. v = PFloat64 f)
      else tpy \<in> {TypeBool, TypeString, TypeEnum, TypeArray, TypeTime, TypeDate, TypeObject})"

lemma parsePropertyValue_typed: "parsePropertyValue pf tpy v = Inr w \<Longrightarrow> value_typed tpy w"
  by (auto simp: parsePropertyValue_def value_typed_def parse_int_def parse_float_def
      split: if_splits sum.splits)

definition props_typed :: "(string \<rightharpoonup> DeviceProperty) \<Rightarrow> (string \<times> pval) list \<Rightarrow> bool" where
  "props_typed cfgs props \<longleftrightarrow>
     (\<forall>k v. (k, v) \<in> set props \<longrightarrow> (\<exists>cfg. cfgs k = Some cfg \<and> value_typed (dp_Type cfg) v))"

lemma parse_props_typed:
  "parse_props pf cfgs props = Inr res \<Longrightarrow> map fst res = map fst props \<and> props_typed cfgs res"
proof (induction pf cfgs props arbitrary: res rule: parse_props.induct)
  case (2 pf cfgs key val props)
  then obtain cfg v rest where r: "cfgs key = Some cfg" "parsePropertyValue pf (dp_Type cfg) val = Inr v"
    "parse_props pf cfgs props = Inr rest" "res = (key, v) # rest"
    by (auto simp: rbind_eq_Inr split: option.splits)
  with "2.IH" [OF r(1,2,3)] parsePropertyValue_typed [OF r(2)] show ?case by (auto simp: props_typed_def)
qed (auto simp: props_typed_def)

text \<open>What a call of the delta callback must satisfy for the models of the context.\<close>

fun call_ok :: "('c, 'tls) DmCtx \<Rightarrow> callback_call \<Rightarrow> bool" where
  "call_ok c (DeltaCall dev props) =
     (dev \<in> ran (devices c) \<and>
      (\<exists>model. deviceModels c (di_DeviceModel dev) = Some model \<and> props_typed (prop_configs model) props))"
| "call_ok c (EventCall dev _) = (dev \<in> ran (devices c))"
| "call_ok c (PropertyGetCall dev _) = (dev \<in> ran (devices c))"

definition dm_inv :: "('c, 'tls) DmCtx \<Rightarrow> bool" where
  "dm_inv c \<longleftrightarrow> (\<forall>x \<in> set (cb_calls c). call_ok c x) \<and>
     (\<forall>n ch. msgChs c n = Some ch \<longrightarrow> length (chan_buf ch) \<le> 1024 \<and> chan_cap ch = 1024)"

text \<open>
  The steps of a started context: packets for the observer, iterations of the processing
  goroutines, registrations of callbacks, and the phases of a fetch.
\<close>

datatype dm_event =
    DPacket string string
  | DProcess string
  | DDeltaCb "DeviceInfo \<Rightarrow> (string \<times> pval) list \<Rightarrow> string option"
  | DEventCb "DeviceInfo \<Rightarrow> Event \<Rightarrow> string option"
  | DPropertyGetCb "DeviceInfo \<Rightarrow> string list \<Rightarrow> string option"
  | DFetch DeviceInfo
  | DFetchWait DeviceInfo
  | DFetchTimeout DeviceInfo

fun dm_step :: "'c codec \<Rightarrow> ('c, 'tls) DmCtx \<Rightarrow> dm_event \<Rightarrow> ('c, 'tls) DmCtx" where
  "dm_step K c (DPacket topic payload) = OnPublish_message K topic payload c"
| "dm_step K c (DProcess name) = (case processing_step K name c of None \<Rightarrow> c | Some (_, c') \<Rightarrow> c')"
| "dm_step K c (DDeltaCb cb) = snd (RegisterDeltaCallback cb c)"
| "dm_step K c (DEventCb cb) = snd (RegisterEventCallback cb c)"
| "dm_step K c (DPropertyGetCb cb) = snd (RegisterPropertyGetCallback cb c)"
| "dm_step K c (DFetch info) = snd (gp_register info c)"
| "dm_step K c (DFetchWait info) = gp_select info c"
| "dm_step K c (DFetchTimeout info) = snd (gp_timeout info c)"

definition dm_run :: "'c codec \<Rightarrow> ('c, 'tls) DmCtx \<Rightarrow> dm_event list \<Rightarrow> ('c, 'tls) DmCtx" where
  "dm_run K c es = foldl (dm_step K) c es"

text \<open>A handler keeps the configuration and adds at most one call, a correct one.\<close>

definition handler_ok :: "('c, 'tls) DmCtx \<Rightarrow> dm_result \<times> ('c, 'tls) DmCtx \<Rightarrow> bool" where
  "handler_ok c r \<longleftrightarrow> devices (snd r) = devices c \<and> deviceModels (snd r) = deviceModels c \<and>
     msgChs (snd r) = msgChs c \<and>
     (cb_calls (snd r) = cb_calls c \<or> (\<exists>x. cb_calls (snd r) = cb_calls c @ [x] \<and> call_ok c x))"

lemma handlers_ok:
  "handler_ok c (processDelta K msg c)"
  "handler_ok c (processEvent K msg c)"
  "handler_ok c (processPropertyGet K msg c)"
  "handler_ok c (processResponse K msg c)"
proof -
  show "handler_ok c (processDelta K msg c)"
    by (auto simp: handler_ok_def processDelta_def parsePropertyValues_def ran_def
        dest!: parse_props_typed split: option.splits sum.splits pval.splits)
  show "handler_ok c (processEvent K msg c)"
    by (auto simp: handler_ok_def processEvent_def ran_def split: option.splits sum.splits)
  show "handler_ok c (processPropertyGet K msg c)"
    by (auto simp: handler_ok_def processPropertyGet_def ran_def split: option.splits sum.splits)
  show "handler_ok c (processResponse K msg c)"
    by (auto simp: handler_ok_def processResponse_def Let_def split: option.splits sum.splits)
qed

lemma dispatch_ok: "handler_ok c (dispatch K msg c)"
proof -
  have "handler_ok c (ROk, c)" by (simp add: handler_ok_def)
  then show ?thesis by (simp add: dispatch_def handlers_ok)
qed

lemma call_ok_cong:
  "devices c' = devices c \<Longrightarrow> deviceModels c' = deviceModels c \<Longrightarrow> call_ok c' x = call_ok c x"
  by (cases x) auto

lemma handler_inv:
  assumes "dm_inv c" "handler_ok c r"
  shows "dm_inv (snd r)"
proof -
  have "call_ok (snd r) x = call_ok c x" for x
    using assms(2) by (intro call_ok_cong) (auto simp: handler_ok_def)
  with assms show ?thesis by (auto simp: dm_inv_def handler_ok_def)
qed

lemma queue_inv:
  assumes "dm_inv c" "length (chan_buf ch) \<le> 1024" "chan_cap ch = 1024"
  shows "dm_inv (c\<lparr>msgChs := (msgChs c)(n \<mapsto> ch)\<rparr>)"
proof -
  have "call_ok (c\<lparr>msgChs := (msgChs c)(n \<mapsto> ch)\<rparr>) x = call_ok c x" for x by (rule call_ok_cong) auto
  with assms show ?thesis by (auto simp: dm_inv_def)
qed

lemma frame_inv:
  assumes "dm_inv c" "devices c' = devices c" "deviceModels c' = deviceModels c" "msgChs c' = msgChs c"
    "cb_calls c' = cb_calls c"
  shows "dm_inv c'"
  using assms call_ok_cong [OF assms(2,3)] by (simp add: dm_inv_def)

lemma dm_step_inv:
  assumes "dm_inv c"
  shows "dm_inv (dm_step K c e)"
proof (cases e)
  case (DPacket topic payload)
  show ?thesis
  proof (cases "OnPublish_message K topic payload c = c")
    case True
    with assms DPacket show ?thesis by simp
  next
    case False
    then obtain d ch msg ch' where ch: "msgChs c d = Some ch" "chan_send ch msg = Some ch'"
      and eq: "OnPublish_message K topic payload c = c\<lparr>msgChs := (msgChs c)(d \<mapsto> ch')\<rparr>"
      by (auto simp: OnPublish_message_def split: option.splits sum.splits)
    have "length (chan_buf ch') \<le> 1024" "chan_cap ch' = 1024"
      using ch assms by (auto simp: dm_inv_def go_chan)
    then show ?thesis using queue_inv [OF assms] eq DPacket by simp
  qed
next
  case (DProcess name)
  show ?thesis
  proof (cases "processing_step K name c")
    case None
    with assms DProcess show ?thesis by simp
  next
    case (Some r)
    then obtain ch msg ch' where ch: "msgChs c name = Some ch" "chan_recv ch = Some (msg, ch')"
      and r: "r = dispatch K msg (c\<lparr>msgChs := (msgChs c)(name \<mapsto> ch')\<rparr>)"
      by (auto simp: processing_step_def split: option.splits)
    have "dm_inv (c\<lparr>msgChs := (msgChs c)(name \<mapsto> ch')\<rparr>)"
      using assms ch by (intro queue_inv) (fastforce simp: dm_inv_def go_chan)+
    from handler_inv [OF this dispatch_ok] have "dm_inv (snd r)" using r by simp
    with Some DProcess show ?thesis by (cases r) simp
  qed
qed (use assms in \<open>auto intro!: frame_inv [OF assms] simp: RegisterDeltaCallback_def RegisterEventCallback_def
      RegisterPropertyGetCallback_def gp_register_def gp_select_def gp_timeout_def\<close>)

interpretation dm_events: event_system "dm_step K" dm_inv for K
  by unfold_locales (rule dm_step_inv)

lemma dm_run_inv: "dm_inv c \<Longrightarrow> dm_inv (dm_run K c es)"
  unfolding dm_run_def by (rule dm_events.run_inv)


text \<open>A context with one device and one 16-bit property, for the witnesses; contents are values.\<close>

definition demo_device :: DeviceInfo where
  "demo_device = zero_device\<lparr>di_Name := ''dev1'', di_DeviceModel := ''model1'', di_AccessTemplate := ''tpl1''\<rparr>"

definition demo_property :: DeviceProperty where
  "demo_property = \<lparr>dp_Name = ''temp'', dp_Id = ''1'', dp_Type = TypeInt16, dp_Mode = ''rw'', dp_Unit = [],
     dp_Visitor = \<lparr>pv_Modbus = None, pv_Opcua = None, pv_Opcda = None, pv_Bacnet = None, pv_IEC104 = None, pv_Custom = None\<rparr>,
     dp_Format = [], dp_EnumType = \<lparr>et_Type = [], et_Values = None\<rparr>,
     dp_ArrayType = \<lparr>at_Type = [], at_Min = 0, at_Max = 0, at_Format = []\<rparr>, dp_ObjectType = None,
     dp_ObjectRequired = None, dp_Current = PNull, dp_Expect = PNull\<rparr>"

definition demo_message :: "pval Message" where
  "demo_message = \<lparr>Kind = MessageDeviceDelta, Metadata = [KeyDevice \<mapsto> ''dev1''],
     Content = Some (PObject [(''temp'', PNumber ''42'')])\<rparr>"

definition demo_dm_codec :: "pval codec" where
  "demo_dm_codec = \<lparr>as_blink = (\<lambda>v. Inr v), as_event = (\<lambda>_. Inr zero_event), as_shadow = (\<lambda>_. Inr None),
     of_payload = (\<lambda>_. Inr demo_message), to_payload = (\<lambda>_. Inr ''report''), device_payload = (\<lambda>_. Inr ''get''),
     float_of = (\<lambda>_ _. Inl ''unused'')\<rparr>"

definition demo_ctx :: "(pval, unit) DmCtx option" where
  "demo_ctx = NewContext ''node'' [''model1'' \<mapsto> [demo_property]] Map.empty
     \<lparr>cfg_devices = [demo_device], cfg_driver = []\<rparr> (\<lambda>_. Inr demo_client)"

definition demo_events :: "dm_event list" where
  "demo_events = [DDeltaCb (\<lambda>_ _. None), DPacket ''$baetyl/device/dev1/delta'' [], DProcess ''dev1'']"

lemma demo_events_run:
  "map_option (\<lambda>c. cb_calls (dm_run demo_dm_codec (Start c) demo_events)) demo_ctx =
     Some [DeltaCall demo_device [(''temp'', PInt16 42)]]"
proof -
  have topic: "ParseDeviceTopic ''$baetyl/device/dev1/delta'' = Some ''dev1''"
    using ParseDeviceTopic_parts [of "''p''" "''dev1''" "''delta''" "''a''" "''b''"]
    by (simp add: device_literal_def)
  have val: "parsePropertyValue pf TypeInt16 (PNumber ''42'') = Inr (PInt16 42)" for pf
    by (simp add: parsePropertyValue_def parse_int_def number_text_def ParseInt_def parse_unsigned_def
        is_digit_def digits_val_def digit_val_def)
  show ?thesis
    by (simp add: demo_ctx_def NewContext_def demo_events_def dm_run_def Start_def RegisterDeltaCallback_def
        OnPublish_message_def topic demo_dm_codec_def devices_by_name_def demo_device_def zero_device_def
        make_chan_def chan_send_def chan_full_def processing_step_def chan_recv_def dispatch_def demo_message_def
        processDelta_def decode_def device_name_def parsePropertyValues_def prop_configs_def demo_property_def val)
qed


section \<open>Fetching and filtering\<close>

text \<open>
  C29. A fetched shadow reaches the caller only if the caller is already waiting for it. A response processed
  while the fetching goroutine is blocked in its \<^verbatim>\<open>select\<close> is what it returns, with both maps parsed;
  one processed before the response channel is registered (the request is published first), or between the
  registration and the \<^verbatim>\<open>select\<close>, is dropped, and the caller is left to its timeout.
\<close>

theorem fetch_response:
  assumes "device_name msg = di_Name info" and "decode (as_shadow K) None msg = Inr (Some shad)"
    and "devices c (di_Name info) = Some info" and "map_of (shadows c) (di_Name info) = None"
    and "parsePropertyValues (float_of K) (deviceModels c) info (ds_Report shad) = Inr rep"
    and "parsePropertyValues (float_of K) (deviceModels c) info (ds_Desire shad) = Inr des"
  shows "(response c (di_Name info) = None \<longrightarrow>
        snd (processResponse K msg c) = c) \<and>
     (response c (di_Name info) = Some False \<longrightarrow>
        map_option fst (gp_receive info (gp_select info (snd (processResponse K msg c)))) = None) \<and>
     map_option fst (gp_receive info (snd (processResponse K msg (gp_select info c)))) =
        Some (shad\<lparr>ds_Report := rep, ds_Desire := des\<rparr>)"
  using assms
  by (auto simp: processResponse_def gp_receive_def gp_select_def Let_def map_add_def)

theorem fetch_response_witness:
  "\<exists>c info shad. device_name \<lparr>Kind = MessageResponse, Metadata = [KeyDevice \<mapsto> ''dev1''], Content = Some PNull\<rparr> = di_Name info \<and>
     map_option fst (gp_receive info (snd (processResponse
        (demo_dm_codec\<lparr>as_shadow := (\<lambda>_. Inr (Some shad))\<rparr>)
        \<lparr>Kind = MessageResponse, Metadata = [KeyDevice \<mapsto> ''dev1''], Content = Some PNull\<rparr>
        (gp_select info (c :: (pval, unit) DmCtx))))) = Some shad"
proof -
  let ?shad = "\<lparr>ds_Name = ''dev1'', ds_Report = [], ds_Desire = []\<rparr>"
  let ?K = "demo_dm_codec\<lparr>as_shadow := (\<lambda>_. Inr (Some ?shad))\<rparr>"
  let ?msg = "\<lparr>Kind = MessageResponse, Metadata = [KeyDevice \<mapsto> ''dev1''], Content = Some PNull\<rparr> :: pval Message"
  obtain c where c: "demo_ctx = Some c" by (simp add: demo_ctx_def NewContext_def)
  then have cfg: "devices c (di_Name demo_device) = Some demo_device" "shadows c = []"
    "deviceModels c (di_DeviceModel demo_device) = Some [demo_property]"
    by (auto simp: demo_ctx_def NewContext_def devices_by_name_def demo_device_def)
  have "device_name ?msg = di_Name demo_device" by (simp add: device_name_def demo_device_def)
  moreover have "decode (as_shadow ?K) None ?msg = Inr (Some ?shad)" by (simp add: decode_def)
  moreover have "parsePropertyValues (float_of ?K) (deviceModels c) demo_device [] = Inr []"
    by (simp add: parsePropertyValues_def cfg)
  ultimately have "map_option fst (gp_receive demo_device (snd (processResponse ?K ?msg (gp_select demo_device c)))) = Some ?shad"
    using fetch_response [of ?msg demo_device ?K ?shad c "[]" "[]"] cfg by simp
  then show ?thesis by (intro exI [of _ c] exI [of _ demo_device] exI [of _ ?shad])
    (simp add: device_name_def demo_device_def)
qed

text \<open>
  A response without content crashes the context: while a fetch for the device is registered, processing
  a response message whose content is absent (or the JSON null) dereferences a nil shadow.
\<close>

theorem empty_response_panics:
  assumes "response c (device_name msg) = Some b" and "Content msg = None \<or> decode (as_shadow K) None msg = Inr None"
  shows "fst (processResponse K msg c) = RPanic"
  using assms by (auto simp: processResponse_def decode_def)

theorem empty_response_panics_witness:
  "fst (processResponse demo_dm_codec \<lparr>Kind = MessageResponse, Metadata = [KeyDevice \<mapsto> ''dev1''], Content = None\<rparr>
      (gp_select demo_device (the demo_ctx))) = RPanic"
proof (rule empty_response_panics)
  show "response (gp_select demo_device (the demo_ctx))
      (device_name \<lparr>Kind = MessageResponse, Metadata = [KeyDevice \<mapsto> ''dev1''], Content = None\<rparr>) = Some True"
    by (simp add: gp_select_def device_name_def demo_device_def zero_device_def)
qed simp



text \<open>The filter only ever drops properties: what it reports is a part of the report, under mapped names.\<close>

lemma filter_property_sub:
  "map_of (fst (filter_property E now mapping key value st)) =
     (if fst (filter_property E now mapping key value st) = fst st then map_of (fst st)
      else (map_of (fst st))(key \<mapsto> value))"
  by (auto simp: filter_property_def Let_def split: option.splits sum.splits)

lemma filter_report_sub:
  "map_of (fst (filter_report E now pm report st)) k = Some v \<Longrightarrow>
     map_of (fst st) k = Some v \<or> ((k, v) \<in> set report \<and> pm k \<noteq> None)"
proof (induction E now pm report st rule: filter_report.induct)
  case (2 E now pm key "value" report st)
  then show ?case
    using filter_property_sub [of E now _ key "value" st]
    by (auto split: option.splits if_splits)
qed simp

section \<open>Getters of whole configurations\<close>

text \<open>\<open>keys\<close> are the names of the devices in the order in which the loop over the map meets them.\<close>

definition GetAllDevices :: "string list \<Rightarrow> ('c, 'tls) DmCtx \<Rightarrow> DeviceInfo list" where
  "GetAllDevices keys c = List.map_filter (devices c) keys"

definition GetDriverConfig where "GetDriverConfig c = driverConfig c"

definition GetAccessConfig where "GetAccessConfig c = accessConfig c"

definition GetPropertiesConfig where "GetPropertiesConfig c = propsConfig c"

definition GetAllDeviceModels where "GetAllDeviceModels c = deviceModels c"

definition GetAllAccessTemplates where "GetAllAccessTemplates c = accessTemplates c"

lemma GetAllDevices_complete:
  assumes "set keys = dom (devices c)"
  shows "set (GetAllDevices keys c) = ran (devices c)"
proof -
  have "set (List.map_filter f xs) = {y. \<exists>x \<in> set xs. f x = Some y}" for f :: "string \<Rightarrow> DeviceInfo option" and xs
    by (induction xs) (auto simp: List.map_filter_simps split: option.splits)
  then show ?thesis using assms by (auto simp: GetAllDevices_def ran_def dom_def)
qed

end
