(* ===== verification/Dm_Wire.thy ===== *)
theory Dm_Wire
  imports Dm_Context
begin

text \<open>
  The device management context over its MQTT client: the calls of a driver (\<^verbatim>\<open>dmcontext/context.go\<close>) put packets on the channel of
  the client, whose connecting goroutine (\<^verbatim>\<open>mqtt/client.go\<close>) hands them to the connections. The context holds a pointer to the client, so
  a call works on the client as the goroutine left it. The property relates what the driver reported to what the connections were handed.
\<close>

section \<open>The calls of a driver\<close>

datatype driver_call =
    CallReport string int DeviceInfo "(string \<times> pval) list"
  | CallReportFiltered string int DeviceInfo "(string \<times> pval) list"
  | CallEvents string int DeviceInfo "(string \<times> pval) list"
  | CallOnline string int DeviceInfo
  | CallOffline string int DeviceInfo
  | CallCustom QOSTopic string
  | CallFetch DeviceInfo

fun driver_op ::
  "'c codec \<Rightarrow> expr_env \<Rightarrow> bool \<Rightarrow> driver_call \<Rightarrow> ('c, 'tls) DmCtx \<Rightarrow> dm_result \<times> ('c, 'tls) DmCtx" where
  "driver_op K E pick (CallReport req now info props) c = ReportDeviceProperties K pick req now info props c"
| "driver_op K E pick (CallReportFiltered req now info props) c = ReportDevicePropertiesWithFilter K E pick req now info props c"
| "driver_op K E pick (CallEvents req now info props) c = ReportDeviceEvents K pick req now info props c"
| "driver_op K E pick (CallOnline req now info) c = Online K pick req now info c"
| "driver_op K E pick (CallOffline req now info) c = Offline K pick req now info c"
| "driver_op K E pick (CallCustom topic data) c = ReportCustomMsg pick topic data c"
| "driver_op K E pick (CallFetch info) c = gp_publish K pick info c"

text \<open>The topic and the payload that a call asks to publish; \<open>None\<close> when it fails before.\<close>

definition blink_payload ::
  "'c codec \<Rightarrow> string \<Rightarrow> BlinkData \<Rightarrow> DeviceInfo \<Rightarrow> ('c, 'tls) DmCtx \<Rightarrow> string option" where
  "blink_payload K kind bd info c =
     (case to_payload K \<lparr>bm_Kind = kind, bm_Metadata = genMetadata info c, bm_Blink = bd\<rparr> of
        Inl _ \<Rightarrow> None | Inr p \<Rightarrow> Some p)"

fun call_message :: "'c codec \<Rightarrow> expr_env \<Rightarrow> driver_call \<Rightarrow> ('c, 'tls) DmCtx \<Rightarrow> (string \<times> string) option" where
  "call_message K E (CallReport req now info props) c =
     map_option (Pair (qt_topic (Report (di_DeviceTopic info))))
       (blink_payload K MessageDeviceReport (GenPropertyReportBlinkData req now props) info c)"
| "call_message K E (CallReportFiltered req now info props) c =
     (case accessTemplates c (di_AccessTemplate info) of
        None \<Rightarrow> None
      | Some tpl \<Rightarrow>
          map_option (Pair (qt_topic (Report (di_DeviceTopic info))))
            (blink_payload K MessageDeviceReport (GenPropertyReportBlinkData req (now div 1000000)
               (fst (filter_report E now (mappings_by_attribute (atp_Mappings tpl)) props ([], lastReportProperties c)))) info c))"
| "call_message K E (CallEvents req now info props) c =
     map_option (Pair (qt_topic (EventReport (di_DeviceTopic info))))
       (blink_payload K MessageDeviceEventReport (GenEventReportBlinkData req now props) info c)"
| "call_message K E (CallOnline req now info) c =
     map_option (Pair (qt_topic (LifecycleReport (di_DeviceTopic info))))
       (blink_payload K MessageDeviceLifecycleReport (GenLifecycleReportBlinkData req now True) info c)"
| "call_message K E (CallOffline req now info) c =
     map_option (Pair (qt_topic (LifecycleReport (di_DeviceTopic info))))
       (blink_payload K MessageDeviceLifecycleReport (GenLifecycleReportBlinkData req now False) info c)"
| "call_message K E (CallCustom topic data) c = Some (qt_topic topic, data)"
| "call_message K E (CallFetch info) c =
     (case device_payload K info of Inl _ \<Rightarrow> None | Inr p \<Rightarrow> Some (qt_topic (GetTopic (di_DeviceTopic info)), p))"

section \<open>Context and client\<close>

text \<open>\<open>published\<close> are the topics and payloads of the calls that returned without an error.\<close>

record ('c, 'tls) edge =
  dmc :: "('c, 'tls) DmCtx"
  link :: "'tls sys"
  published :: "(string \<times> string) list"

definition with_link :: "('c, 'tls) edge \<Rightarrow> ('c, 'tls) DmCtx" where
  "with_link s = (dmc s)\<lparr>mqtt := Some (cli (link s))\<rparr>"

text \<open>The client after a call; a packet that is new in its channel has been accepted.\<close>

definition link_after :: "('c, 'tls) DmCtx \<Rightarrow> 'tls sys \<Rightarrow> 'tls sys" where
  "link_after c y =
     (case mqtt c of
        None \<Rightarrow> y
      | Some cl \<Rightarrow> y\<lparr>cli := cl, accepted := accepted y @ drop (length (chan_buf (cache (cli y)))) (chan_buf (cache cl))\<rparr>)"

text \<open>A call that waits for room in the channel is not a step (\<open>None\<close>).\<close>

definition edge_call :: "'c codec \<Rightarrow> expr_env \<Rightarrow> bool \<Rightarrow> driver_call \<Rightarrow> ('c, 'tls) edge \<Rightarrow> ('c, 'tls) edge option" where
  "edge_call K E pick call s =
     (case driver_op K E pick call (with_link s) of
        (RBlocked, _) \<Rightarrow> None
      | (ROk, c) \<Rightarrow> Some (s\<lparr>dmc := c, link := link_after c (link s),
          published := published s @ (case call_message K E call (with_link s) of None \<Rightarrow> [] | Some m \<Rightarrow> [m])\<rparr>)
      | (_, c) \<Rightarrow> Some (s\<lparr>dmc := c, link := link_after c (link s)\<rparr>))"

text \<open>The steps of the goroutines of the client; the driver is the only sender.\<close>

fun loop_event :: "client_event \<Rightarrow> bool" where
  "loop_event (EvSend _ _) = False"
| "loop_event (EvSendOrDrop _ _) = False"
| "loop_event (EvPublish _ _ _ _ _ _ _) = False"
| "loop_event _ = True"

datatype edge_event = DriverCall bool driver_call | ClientStep client_event

fun edge_step ::
  "'c codec \<Rightarrow> expr_env \<Rightarrow> Observer option \<Rightarrow> ('c, 'tls) edge \<Rightarrow> edge_event \<Rightarrow> ('c, 'tls) edge option" where
  "edge_step K E obs s (DriverCall pick call) = edge_call K E pick call s"
| "edge_step K E obs s (ClientStep ev) =
     (if loop_event ev then map_option (\<lambda>y. s\<lparr>link := y\<rparr>) (client_step obs (link s) ev) else None)"

fun edge_run ::
  "'c codec \<Rightarrow> expr_env \<Rightarrow> Observer option \<Rightarrow> ('c, 'tls) edge \<Rightarrow> edge_event list \<Rightarrow> ('c, 'tls) edge option" where
  "edge_run K E obs s [] = Some s"
| "edge_run K E obs s (e # es) = (case edge_step K E obs s e of None \<Rightarrow> None | Some s' \<Rightarrow> edge_run K E obs s' es)"

definition start_edge :: "('c, 'tls) DmCtx \<Rightarrow> 'tls Client \<Rightarrow> ('c, 'tls) edge" where
  "start_edge c cl = \<lparr>dmc = c, link = start_sys cl, published = []\<rparr>"

section \<open>Calls are publications\<close>

fun packet_message :: "Packet \<Rightarrow> (string \<times> string) option" where
  "packet_message (Publish _ _ m) = Some (Topic m, Payload m)"
| "packet_message _ = None"

text \<open>What a call does to the client: nothing, or one publication of its message.\<close>

definition call_effect :: "(string \<times> string) option \<Rightarrow> 'tls Client \<Rightarrow> dm_result \<Rightarrow> 'tls Client option \<Rightarrow> bool" where
  "call_effect m cl r cl' \<longleftrightarrow>
     (case r of
        ROk \<Rightarrow> (\<exists>t p pkt cnt. m = Some (t, p) \<and> packet_message pkt = Some (t, p) \<and>
          length (chan_buf (cache cl)) < chan_cap (cache cl) \<and>
          cl' = Some (cl\<lparr>ids := cnt, cache := (cache cl)\<lparr>chan_buf := chan_buf (cache cl) @ [pkt]\<rparr>\<rparr>))
      | RErr _ \<Rightarrow> (\<exists>cnt. cl' = Some (cl\<lparr>ids := cnt\<rparr>))
      | RPanic \<Rightarrow> False
      | RBlocked \<Rightarrow> True)"

lemma publish_packet_cases:
  "\<exists>pid' cnt. publish_packet qos t p pid retain dup cl =
     (Publish pid' dup \<lparr>Topic = t, Payload = p, MQOS = qos, Retain = retain\<rparr>, cl\<lparr>ids := cnt\<rparr>)"
proof (cases "qos \<noteq> 0 \<and> pid = 0")
  case True
  then show ?thesis by (cases "NextID (ids cl)") (auto simp: publish_packet_def)
next
  case False
  then have "publish_packet qos t p pid retain dup cl =
      (Publish pid dup \<lparr>Topic = t, Payload = p, MQOS = qos, Retain = retain\<rparr>, cl\<lparr>ids := ids cl\<rparr>)"
    by (auto simp: publish_packet_def Let_def)
  then show ?thesis by blast
qed

lemma call_effect_error: "call_effect m cl (RErr e) (Some (cl\<lparr>ids := cnt\<rparr>))" "call_effect m cl (RErr e) (Some cl)"
proof -
  show "call_effect m cl (RErr e) (Some (cl\<lparr>ids := cnt\<rparr>))" for cnt by (auto simp: call_effect_def)
  from this [of "ids cl"] show "call_effect m cl (RErr e) (Some cl)" by simp
qed

lemma call_effect_sent:
  "packet_message pkt = Some m \<Longrightarrow> length (chan_buf (cache cl)) < chan_cap (cache cl) \<Longrightarrow>
     call_effect (Some m) cl ROk (Some (cl\<lparr>ids := cnt, cache := (cache cl)\<lparr>chan_buf := chan_buf (cache cl) @ [pkt]\<rparr>\<rparr>))"
  unfolding call_effect_def by (cases m) auto

lemma mqtt_publish_effect:
  assumes "mqtt c = Some cl" "mqtt_publish pick t p c = (r, c')"
  shows "call_effect (Some (qt_topic t, p)) cl r (mqtt c')"
proof -
  obtain pid' cnt where pkt: "publish_packet (ucast (qt_qos t)) (qt_topic t) p 0 False False cl =
      (Publish pid' False \<lparr>Topic = qt_topic t, Payload = p, MQOS = ucast (qt_qos t), Retain = False\<rparr>, cl\<lparr>ids := cnt\<rparr>)"
    using publish_packet_cases by blast
  let ?pkt = "Publish pid' False \<lparr>Topic = qt_topic t, Payload = p, MQOS = ucast (qt_qos t), Retain = False\<rparr>"
  show ?thesis
  proof (cases "Client_Send pick ?pkt (cl\<lparr>ids := cnt\<rparr>)")
    case None
    with assms pkt show ?thesis by (auto simp: mqtt_publish_def Client_Publish_def call_effect_def)
  next
    case (Some ec)
    then obtain e cl' where ec: "ec = (e, cl')" by (cases ec)
    from Client_Send_cases [OF Some [unfolded ec]] show ?thesis
    proof (elim disjE conjE)
      assume "cl' = cl\<lparr>ids := cnt\<rparr>" "e = Some ErrClientAlreadyClosed"
      then have "r = RErr (MqttError ErrClientAlreadyClosed)" "mqtt c' = Some (cl\<lparr>ids := cnt\<rparr>)"
        using assms pkt Some ec by (auto simp: mqtt_publish_def Client_Publish_def)
      then show ?thesis using call_effect_error(1) by simp
    next
      assume sent: "e = None" "length (chan_buf (cache (cl\<lparr>ids := cnt\<rparr>))) < chan_cap (cache (cl\<lparr>ids := cnt\<rparr>))"
        "cl' = cl\<lparr>ids := cnt, cache := (cache (cl\<lparr>ids := cnt\<rparr>))\<lparr>chan_buf := chan_buf (cache (cl\<lparr>ids := cnt\<rparr>)) @ [?pkt]\<rparr>\<rparr>"
      then have "r = ROk" "mqtt c' = Some cl'"
        using assms pkt Some ec by (auto simp: mqtt_publish_def Client_Publish_def)
      then show ?thesis using call_effect_sent [of ?pkt "(qt_topic t, p)" cl cnt] sent by simp
    qed
  qed
qed

lemma publish_message_effect:
  assumes "mqtt c = Some cl" "publish_message K pick kind bd t info c = (r, c')"
  shows "call_effect (map_option (Pair (qt_topic t)) (blink_payload K kind bd info c)) cl r (mqtt c')"
proof (cases "to_payload K \<lparr>bm_Kind = kind, bm_Metadata = genMetadata info c, bm_Blink = bd\<rparr>")
  case (Inl e)
  then show ?thesis using assms call_effect_error(2) by (auto simp: publish_message_def)
next
  case (Inr p)
  with mqtt_publish_effect [OF assms(1), of pick t p r c'] assms(2) show ?thesis
    by (simp add: publish_message_def blink_payload_def)
qed

lemma driver_op_effect:
  assumes "mqtt c = Some cl" "driver_op K E pick call c = (r, c')"
  shows "call_effect (call_message K E call c) cl r (mqtt c')"
proof (cases call)
  case (CallReportFiltered req now info props)
  show ?thesis
  proof (cases "accessTemplates c (di_AccessTemplate info)")
    case None
    then show ?thesis
      using CallReportFiltered assms call_effect_error(2)
      by (auto simp: ReportDevicePropertiesWithFilter_def GetAccessTemplates_def)
  next
    case (Some tpl)
    let ?f = "filter_report E now (mappings_by_attribute (atp_Mappings tpl)) props ([], lastReportProperties c)"
    let ?c = "c\<lparr>lastReportProperties := snd ?f\<rparr>"
    have "publish_message K pick MessageDeviceReport (GenPropertyReportBlinkData req (now div 1000000) (fst ?f))
        (Report (di_DeviceTopic info)) info ?c = (r, c')"
      using CallReportFiltered assms(2) Some
      by (simp add: ReportDevicePropertiesWithFilter_def GetAccessTemplates_def ReportDeviceProperties_def split_beta)
    from publish_message_effect [OF _ this, of cl] assms(1) Some CallReportFiltered show ?thesis
      by (simp add: blink_payload_def genMetadata_def)
  qed
next
  case (CallFetch info)
  show ?thesis
  proof (cases "device_payload K info")
    case (Inl e)
    then show ?thesis using CallFetch assms call_effect_error(2) by (auto simp: gp_publish_def)
  next
    case (Inr p)
    with mqtt_publish_effect [OF assms(1)] assms(2) CallFetch show ?thesis by (simp add: gp_publish_def)
  qed
qed (use assms publish_message_effect [OF assms(1)] mqtt_publish_effect [OF assms(1)] in
    \<open>simp_all add: ReportDeviceProperties_def ReportDeviceEvents_def Online_def Offline_def ReportCustomMsg_def\<close>)


section \<open>What the connections were handed\<close>

lemma accepted_frame [simp]:
  "accepted (sending_packet obs pkt connErr st y) = accepted y"
  "accepted (loop_top obs discErr y) = accepted y"
  "accepted (loop_connect obs env y) = accepted y"
  by (simp_all add: sending_packet_def loop_top_def loop_connect_def Let_def split: option.splits prod.splits sum.splits)

lemma stream_side_accepted: "(\<And>b z. accepted (upd b z) = accepted z) \<Longrightarrow> accepted (stream_side r y upd) = accepted y"
  by (auto simp: stream_side_def split: option.splits prod.splits)

lemma loop_event_accepted:
  assumes "client_step obs y ev = Some y'" "loop_event ev"
  shows "accepted y' = accepted y"
  using assms
  by (cases ev) (auto simp: stream_side_accepted split: option.splits if_splits prod.splits loop_pc.splits)

definition edge_inv :: "('c, 'tls) edge \<Rightarrow> bool" where
  "edge_inv s \<longleftrightarrow> sys_inv (link s) \<and> map packet_message (accepted (link s)) = map Some (published s)"

lemma edge_call_inv:
  assumes "edge_inv s" "edge_call K E pick call s = Some s'"
  shows "edge_inv s'"
proof (cases "driver_op K E pick call (with_link s)")
  case (Pair r c)
  let ?cl = "cli (link s)"
  have eff: "call_effect (call_message K E call (with_link s)) ?cl r (mqtt c)"
    by (rule driver_op_effect [OF _ Pair]) (simp add: with_link_def)
  show ?thesis
  proof (cases r)
    case ROk
    then obtain t p pkt cnt where pkt: "call_message K E call (with_link s) = Some (t, p)"
      "packet_message pkt = Some (t, p)" "length (chan_buf (cache ?cl)) < chan_cap (cache ?cl)"
      "mqtt c = Some (?cl\<lparr>ids := cnt, cache := (cache ?cl)\<lparr>chan_buf := chan_buf (cache ?cl) @ [pkt]\<rparr>\<rparr>)"
      using eff by (auto simp: call_effect_def)
    then show ?thesis
      using assms Pair ROk
      by (auto simp: edge_call_def edge_inv_def link_after_def sys_inv_def fifo_inv_def chan_wf_def)
  next
    case (RErr e)
    with eff obtain cnt where "mqtt c = Some (?cl\<lparr>ids := cnt\<rparr>)" by (auto simp: call_effect_def)
    then show ?thesis
      using assms Pair RErr by (auto simp: edge_call_def edge_inv_def link_after_def sys_inv_def fifo_inv_def)
  qed (use eff assms(2) Pair in \<open>auto simp: call_effect_def edge_call_def\<close>)
qed

interpretation edge_events: partial_event_system "edge_step K E obs" edge_inv for K E obs
proof
  fix s s' :: "('a, 'b) edge" and e
  assume s: "edge_inv s" and step: "edge_step K E obs s e = Some s'"
  show "edge_inv s'"
  proof (cases e)
    case (ClientStep ev)
    with step obtain y where y: "client_step obs (link s) ev = Some y" "loop_event ev" "s' = s\<lparr>link := y\<rparr>"
      by (auto split: if_splits)
    with s client_step_inv [OF _ y(1)] loop_event_accepted [OF y(1,2)] show ?thesis by (simp add: edge_inv_def)
  qed (use s step edge_call_inv in auto)
qed

lemma edge_run_inv: "edge_inv s \<Longrightarrow> edge_run K E obs s evs = Some s' \<Longrightarrow> edge_inv s'"
  by (induction evs arbitrary: s) (auto intro: edge_events.try_inv split: option.splits)

lemma start_edge_inv: "NewClient o' = Some cl \<Longrightarrow> edge_inv (start_edge c cl)"
  using start_sys_inv by (auto simp: edge_inv_def start_edge_def) (auto simp: start_sys_def)

text \<open>
  C3. What a driver reports is what the broker connections are handed, in order. However the calls of the driver (reports, filtered reports,
  events, lifecycle messages, custom messages, requests for properties) interleave with the client connecting, losing streams and
  reconnecting: the messages of the calls that returned without an error are, in the order of the calls, those handed to some connection,
  then at most one that waits for the next stream, then those in the channel; a call that failed leaves nothing.
\<close>

theorem driver_reports_in_order:
  assumes "NewClient o' = Some cl" and "edge_run K E obs (start_edge c cl) evs = Some s"
  shows "map Some (published s) = map packet_message (handed (link s) @ opt_list (curr (link s)) @ chan_buf (cache (cli (link s))))"
proof -
  have "edge_inv s" using edge_run_inv [OF start_edge_inv [OF assms(1)] assms(2)] .
  then have "map Some (published s) = map packet_message (accepted (link s))" "fifo_inv (link s)"
    by (simp_all add: edge_inv_def sys_inv_def)
  then show ?thesis unfolding fifo_inv_def by presburger
qed

text \<open>A run for the witness: a report is lost with the first stream and taken by the second, a custom message waits in the channel.\<close>

definition demo_calls :: "edge_event list" where
  "demo_calls =
     [DriverCall False (CallReport ''r'' 0 demo_device []), ClientStep (EvTop None), ClientStep (EvConnect demo_env),
      ClientStep (EvSendCurr None), ClientStep (EvSendCache (Some (ConnError ''reset''))),
      DriverCall False (CallCustom \<lparr>qt_qos = 0, qt_topic = ''custom''\<rparr> ''data''), ClientStep (EvTop None),
      ClientStep (EvConnect demo_env), ClientStep (EvSendCurr None)]"

definition demo_packet :: "string \<Rightarrow> string \<Rightarrow> Packet" where
  "demo_packet t p = Publish 0 False \<lparr>Topic = t, Payload = p, MQOS = 0, Retain = False\<rparr>"

lemma demo_calls_run:
  "map_option (\<lambda>s. (handed (link s), curr (link s), chan_buf (cache (cli (link s)))))
     (edge_run demo_dm_codec E None (start_edge (the demo_ctx) demo_client) demo_calls) =
   Some ([demo_packet [] ''report''], None, [demo_packet ''custom'' ''data''])"
  by code_simp

theorem driver_reports_in_order_witness:
  "\<forall>E. \<exists>s. edge_run demo_dm_codec E None (start_edge (the demo_ctx) demo_client) demo_calls = Some s \<and>
     published s = [([], ''report''), (''custom'', ''data'')]"
proof
  fix E
  obtain s where s: "edge_run demo_dm_codec E None (start_edge (the demo_ctx) demo_client) demo_calls = Some s"
    "handed (link s) = [demo_packet [] ''report'']" "curr (link s) = None"
    "chan_buf (cache (cli (link s))) = [demo_packet ''custom'' ''data'']"
    using demo_calls_run [of E] by auto
  from driver_reports_in_order [OF demo_client s(1)] s(2-4) have "map Some (published s) = map Some [([], ''report''), (''custom'', ''data'')]"
    by (simp add: demo_packet_def)
  with s(1) show "\<exists>s. edge_run demo_dm_codec E None (start_edge (the demo_ctx) demo_client) demo_calls = Some s \<and>
     published s = [([], ''report''), (''custom'', ''data'')]"
    by auto
qed

end
