(* ===== verification/Dm_Inbox.thy ===== *)
theory Dm_Inbox
  imports Dm_Context
begin

text \<open>
  The way in: packets that the stream of the MQTT client receives (\<^verbatim>\<open>mqtt/stream.go\<close>), the observer that puts them into the queue of a device
  (\<^verbatim>\<open>dmcontext/observer.go\<close>) and the goroutines that process the queues (\<^verbatim>\<open>processing\<close> of \<^verbatim>\<open>dmcontext/context.go\<close>), side by side.
\<close>

section \<open>Stream, observer and queues\<close>

text \<open>Both methods of the observer return nil, whatever has become of the packet.\<close>

definition dm_Observer :: Observer where
  "dm_Observer = \<lparr>OnPublish = (\<lambda>_. None), OnPuback = (\<lambda>_. None)\<rparr>"

text \<open>The last three fields record what happened: the packets received, and for each device the messages queued and handled.\<close>

record ('c, 'tls) inbox =
  ictx :: "('c, 'tls) DmCtx"
  conn :: stream
  got :: "Packet list"
  queued :: "string \<Rightarrow> 'c Message list"
  handled :: "string \<Rightarrow> 'c Message list"

definition queue :: "('c, 'tls) DmCtx \<Rightarrow> string \<Rightarrow> 'c Message list" where
  "queue c name = (case msgChs c name of None \<Rightarrow> [] | Some ch \<Rightarrow> chan_buf ch)"

definition observe :: "'c codec \<Rightarrow> Packet \<Rightarrow> ('c, 'tls) DmCtx \<Rightarrow> ('c, 'tls) DmCtx" where
  "observe K pkt c = (case pkt of Publish _ _ m \<Rightarrow> OnPublish_message K (Topic m) (Payload m) c | _ \<Rightarrow> c)"

text \<open>A packet on a connection that takes what is sent. The run ends with the stream (\<open>None\<close>).\<close>

definition inbox_receive :: "'c codec \<Rightarrow> bool \<Rightarrow> Packet \<Rightarrow> ('c, 'tls) inbox \<Rightarrow> ('c, 'tls) inbox option" where
  "inbox_receive K d pkt s =
     (case receiving_step d (Some dm_Observer) None (Inr pkt) (conn s) of
        Some (True, st) \<Rightarrow>
          (let c = observe K pkt (ictx s)
           in Some (s\<lparr>ictx := c, conn := st, got := got s @ [pkt],
                queued := (\<lambda>n. queued s n @ drop (length (queue (ictx s) n)) (queue c n))\<rparr>))
      | _ \<Rightarrow> None)"

definition inbox_process :: "'c codec \<Rightarrow> string \<Rightarrow> ('c, 'tls) inbox \<Rightarrow> ('c, 'tls) inbox option" where
  "inbox_process K name s =
     (case processing_step K name (ictx s) of
        None \<Rightarrow> None
      | Some (RPanic, _) \<Rightarrow> None
      | Some (_, c) \<Rightarrow>
          Some (s\<lparr>ictx := c, handled := (handled s)(name := handled s name @ take 1 (queue (ictx s) name))\<rparr>))"

text \<open>Registrations and fetches of the driver go on meanwhile.\<close>

fun driver_event :: "dm_event \<Rightarrow> bool" where
  "driver_event (DPacket _ _) = False"
| "driver_event (DProcess _) = False"
| "driver_event _ = True"

datatype inbox_event = IReceive Packet | IProcess string | IDriver dm_event

fun inbox_step :: "'c codec \<Rightarrow> bool \<Rightarrow> ('c, 'tls) inbox \<Rightarrow> inbox_event \<Rightarrow> ('c, 'tls) inbox option" where
  "inbox_step K d s (IReceive pkt) = inbox_receive K d pkt s"
| "inbox_step K d s (IProcess name) = inbox_process K name s"
| "inbox_step K d s (IDriver e) = (if driver_event e then Some (s\<lparr>ictx := dm_step K (ictx s) e\<rparr>) else None)"

fun inbox_run :: "'c codec \<Rightarrow> bool \<Rightarrow> ('c, 'tls) inbox \<Rightarrow> inbox_event list \<Rightarrow> ('c, 'tls) inbox option" where
  "inbox_run K d s [] = Some s"
| "inbox_run K d s (e # es) = (case inbox_step K d s e of None \<Rightarrow> None | Some s' \<Rightarrow> inbox_run K d s' es)"

definition start_inbox :: "('c, 'tls) DmCtx \<Rightarrow> stream \<Rightarrow> ('c, 'tls) inbox" where
  "start_inbox c st = \<lparr>ictx = Start c, conn = st, got = [], queued = (\<lambda>_. []), handled = (\<lambda>_. [])\<rparr>"

section \<open>What is expected\<close>

text \<open>The message of a packet for a device, and the acknowledgement of a packet.\<close>

definition packet_for :: "'c codec \<Rightarrow> string \<Rightarrow> Packet \<Rightarrow> 'c Message option" where
  "packet_for K name pkt =
     (case pkt of
        Publish _ _ m \<Rightarrow>
          (if ParseDeviceTopic (Topic m) = Some name
           then (case of_payload K (Payload m) of Inl _ \<Rightarrow> None | Inr msg \<Rightarrow> Some msg) else None)
      | _ \<Rightarrow> None)"

definition messages_for :: "'c codec \<Rightarrow> string \<Rightarrow> Packet list \<Rightarrow> 'c Message list" where
  "messages_for K name pkts = List.map_filter (packet_for K name) pkts"

definition ack_of :: "bool \<Rightarrow> Packet \<Rightarrow> Packet option" where
  "ack_of d pkt = (case pkt of Publish pid _ m \<Rightarrow> if \<not> d \<and> MQOS m = 1 then Some (Puback pid) else None | _ \<Rightarrow> None)"

lemma map_filter_snoc [simp]: "List.map_filter f (xs @ [x]) = List.map_filter f xs @ (case f x of None \<Rightarrow> [] | Some y \<Rightarrow> [y])"
  by (induction xs) (auto simp: List.map_filter_simps split: option.splits)

text \<open>The observer puts the message at the end of one queue, if there is room.\<close>

definition has_room :: "('c, 'tls) DmCtx \<Rightarrow> string \<Rightarrow> bool" where
  "has_room c name = (case msgChs c name of None \<Rightarrow> False | Some ch \<Rightarrow> length (chan_buf ch) < chan_cap ch)"

lemma observe_queue:
  "queue (observe K pkt c) name = queue c name @
     (case packet_for K name pkt of Some msg \<Rightarrow> if has_room c name then [msg] else [] | None \<Rightarrow> [])"
  "map_option chan_cap (msgChs (observe K pkt c) name) = map_option chan_cap (msgChs c name)"
  by (cases pkt; auto simp: observe_def packet_for_def OnPublish_message_def queue_def has_room_def chan_send_def chan_full_def
      split: option.splits sum.splits)+

lemma stop_with_stops [simp]: "stop_with obs e st \<noteq> Some (True, st')"
  by (simp add: stop_with_def)

lemma receive_acknowledges:
  assumes "connacked st" "receiving_step d (Some dm_Observer) None (Inr pkt) st = Some (True, st')"
  shows "connacked st' \<and> wire st' = wire st @ (case ack_of d pkt of None \<Rightarrow> [] | Some a \<Rightarrow> [a])"
  using assms
  by (cases pkt) (auto simp: receiving_step_handle handle_def onPublish_def onPuback_def onSuback_def stream_send_ok dm_Observer_def ack_of_def
      split: option.splits if_splits)

text \<open>
  The invariant for one device: what was queued is what was handled followed by the queue, and a selection, in order, of what arrived; everything that arrived, as
  long as this is not more than the queue can hold.
\<close>

definition inbox_inv :: "'c codec \<Rightarrow> bool \<Rightarrow> Packet list \<Rightarrow> string \<Rightarrow> ('c, 'tls) inbox \<Rightarrow> bool" where
  "inbox_inv K d w0 name s \<longleftrightarrow>
     connacked (conn s) \<and> wire (conn s) = w0 @ List.map_filter (ack_of d) (got s) \<and>
     map_option chan_cap (msgChs (ictx s) name) = Some 1024 \<and>
     queued s name = handled s name @ queue (ictx s) name \<and>
     subseq (queued s name) (messages_for K name (got s)) \<and>
     (length (messages_for K name (got s)) \<le> 1024 \<longrightarrow> queued s name = messages_for K name (got s))"

lemma receive_inv:
  assumes inv: "inbox_inv K d w0 name s" and step: "inbox_receive K d pkt s = Some s'"
  shows "inbox_inv K d w0 name s'"
proof -
  obtain st where st: "receiving_step d (Some dm_Observer) None (Inr pkt) (conn s) = Some (True, st)"
    and s': "s' = s\<lparr>ictx := observe K pkt (ictx s), conn := st, got := got s @ [pkt],
      queued := (\<lambda>n. queued s n @ drop (length (queue (ictx s) n)) (queue (observe K pkt (ictx s)) n))\<rparr>"
    using step by (auto simp: inbox_receive_def Let_def split: option.splits prod.splits bool.splits)
  note ack = receive_acknowledges [OF _ st]
  define new where "new = (case packet_for K name pkt of Some msg \<Rightarrow> if has_room (ictx s) name then [msg] else [] | None \<Rightarrow> [])"
  have q: "queued s' name = queued s name @ new" "queue (ictx s') name = queue (ictx s) name @ new"
    by (simp_all add: s' observe_queue(1) new_def)
  have sub: "subseq new (case packet_for K name pkt of None \<Rightarrow> [] | Some msg \<Rightarrow> [msg])"
    by (simp add: new_def split: option.splits)
  have room: "has_room (ictx s) name" if "length (messages_for K name (got s)) < 1024"
  proof -
    have "length (queue (ictx s) name) < 1024" using inv that by (auto simp: inbox_inv_def)
    then show ?thesis using inv by (auto simp: inbox_inv_def has_room_def queue_def split: option.splits)
  qed
  have all: "queued s' name = messages_for K name (got s')" if "length (messages_for K name (got s')) \<le> 1024"
    using that inv room unfolding q(1) by (auto simp: new_def s' messages_for_def inbox_inv_def split: option.splits)
  have "subseq (queued s' name) (messages_for K name (got s'))"
  proof -
    have "subseq (queued s name) (messages_for K name (got s))" using inv unfolding inbox_inv_def by blast
    from list_emb_append_mono [OF this sub] show ?thesis unfolding q(1) by (simp add: s' messages_for_def)
  qed
  with all inv ack q show ?thesis by (simp add: inbox_inv_def s' observe_queue(2))
qed

lemma process_inv:
  assumes inv: "inbox_inv K d w0 name s" and step: "inbox_process K n s = Some s'"
  shows "inbox_inv K d w0 name s'"
proof -
  obtain r c where r: "processing_step K n (ictx s) = Some (r, c)"
    and s': "s' = s\<lparr>ictx := c, handled := (handled s)(n := handled s n @ take 1 (queue (ictx s) n))\<rparr>"
    using step by (auto simp: inbox_process_def split: option.splits prod.splits dm_result.splits)
  then obtain ch msg ch' where ch: "msgChs (ictx s) n = Some ch" "chan_recv ch = Some (msg, ch')"
    and c: "(r, c) = dispatch K msg ((ictx s)\<lparr>msgChs := (msgChs (ictx s))(n \<mapsto> ch')\<rparr>)"
    by (auto simp: processing_step_def split: option.splits)
  have "msgChs c = (msgChs (ictx s))(n \<mapsto> ch')"
    using dispatch_ok [of "(ictx s)\<lparr>msgChs := (msgChs (ictx s))(n \<mapsto> ch')\<rparr>" K msg] by (simp add: handler_ok_def c [symmetric])
  moreover have "chan_buf ch = msg # chan_buf ch'" "chan_cap ch' = chan_cap ch"
    using ch(2) by (auto simp: chan_recv_def split: list.splits)
  ultimately show ?thesis using inv ch(1) by (cases "n = name") (auto simp: inbox_inv_def s' queue_def)
qed

lemma driver_event_queues: "driver_event e \<Longrightarrow> msgChs (dm_step K c e) = msgChs c"
  by (cases e) (auto simp: RegisterDeltaCallback_def RegisterEventCallback_def RegisterPropertyGetCallback_def
      gp_register_def gp_select_def gp_timeout_def)

interpretation inbox_events: partial_event_system "inbox_step K d" "inbox_inv K d w0 name" for K d w0 name
proof (unfold_locales, goal_cases)
  case (1 s e s')
  then show ?case
  proof (cases e)
    case (IDriver x)
    with 1 have "s' = s\<lparr>ictx := dm_step K (ictx s) x\<rparr>" "msgChs (ictx s') = msgChs (ictx s)"
      by (auto simp: driver_event_queues split: if_splits)
    with 1(1) show ?thesis by (auto simp: inbox_inv_def queue_def)
  qed (auto intro: receive_inv process_inv)
qed

lemma inbox_run_inv: "inbox_inv K d w0 name s \<Longrightarrow> inbox_run K d s evs = Some s' \<Longrightarrow> inbox_inv K d w0 name s'"
  by (induction evs arbitrary: s) (auto intro: inbox_events.try_inv split: option.splits)

lemma start_inbox_inv:
  "devices c name \<noteq> None \<Longrightarrow> connacked st \<Longrightarrow> inbox_inv K d (wire st) name (start_inbox c st)"
  by (auto simp: inbox_inv_def start_inbox_def Start_def queue_def messages_for_def make_chan_def List.map_filter_simps)

section \<open>Properties\<close>

text \<open>
  C5. Messages reach a device in order, and every packet is acknowledged. Over every interleaving of received packets, processing of the queues and calls of the driver, from the start of the context on a
  connected stream: the messages handled for a device, followed by those in its queue, are a selection in order of the messages that arrived for it, and all of them if no more
  than 1024 arrived. The stream has meanwhile sent exactly one puback, in order, for each packet of level 1 (unless acknowledgement is off), also for the packets whose message was
  dropped, because its queue was full, its topic or text could not be read, or it was for no device.
\<close>

theorem device_messages_in_order:
  assumes "devices c name = Some dev" "connacked st" "inbox_run K d (start_inbox c st) evs = Some s"
  shows "subseq (handled s name @ queue (ictx s) name) (messages_for K name (got s)) \<and>
    (length (messages_for K name (got s)) \<le> 1024 \<longrightarrow>
       handled s name @ queue (ictx s) name = messages_for K name (got s)) \<and>
    wire (conn s) = wire st @ List.map_filter (ack_of d) (got s)"
proof -
  have "inbox_inv K d (wire st) name s"
    using inbox_run_inv [OF start_inbox_inv assms(3)] assms(1,2) by simp
  then show ?thesis unfolding inbox_inv_def by metis
qed

text \<open>A packet for a device with a full queue: the context stays as it is, and the packet is acknowledged.\<close>

lemma full_queue_acknowledged:
  assumes "connacked (conn s)" "\<not> has_room (ictx s) name" "ParseDeviceTopic (Topic m) = Some name" "MQOS m = 1"
  shows "\<exists>s'. inbox_receive K False (Publish pid dup m) s = Some s' \<and> ictx s' = ictx s \<and> wire (conn s') = wire (conn s) @ [Puback pid]"
  using assms
  by (auto simp: inbox_receive_def observe_def OnPublish_message_def has_room_def chan_send_def chan_full_def receiving_step_handle handle_def
      onPublish_def stream_send_ok dm_Observer_def Let_def split: option.splits sum.splits)

definition demo_packet :: "ID \<Rightarrow> Packet" where
  "demo_packet pid = Publish pid False \<lparr>Topic = ''$baetyl/device/dev1/delta'', Payload = [], MQOS = 1, Retain = False\<rparr>"

definition demo_inbox :: "inbox_event list" where
  "demo_inbox = [IReceive (demo_packet 1), IDriver (DDeltaCb (\<lambda>_ _. None)), IReceive (demo_packet 2), IProcess ''dev1'']"

theorem device_messages_in_order_witness:
  "\<exists>c s. demo_ctx = Some c \<and> devices c ''dev1'' = Some demo_device \<and>
     inbox_run demo_dm_codec False (start_inbox c ((new_stream [])\<lparr>connacked := True\<rparr>)) demo_inbox = Some s \<and>
     handled s ''dev1'' @ queue (ictx s) ''dev1'' = [demo_message, demo_message] \<and> handled s ''dev1'' = [demo_message] \<and>
     wire (conn s) = [Puback 1, Puback 2]"
proof -
  have topic: "ParseDeviceTopic ''$baetyl/device/dev1/delta'' = Some ''dev1''"
    using ParseDeviceTopic_parts [of "''p''" "''dev1''" "''delta''" "''a''" "''b''"] by (simp add: device_literal_def)
  obtain c where c: "demo_ctx = Some c" "devices c ''dev1'' = Some demo_device"
    by (auto simp: demo_ctx_def NewContext_def devices_by_name_def demo_device_def)
  have val: "parsePropertyValue pf TypeInt16 (PNumber ''42'') = Inr (PInt16 42)" for pf
    by (simp add: parsePropertyValue_def parse_int_def number_text_def ParseInt_def parse_unsigned_def
        is_digit_def digits_val_def digit_val_def)
  let ?st = "(new_stream [])\<lparr>connacked := True\<rparr>"
  have pay: "of_payload demo_dm_codec p = Inr demo_message" for p by (simp add: demo_dm_codec_def)
  have rec: "receiving_step False (Some dm_Observer) None (Inr (demo_packet pid)) st =
      Some (True, st\<lparr>calls := calls st @ [CallPublish (demo_packet pid)], tracker := tracker st @ [TReset], wire := wire st @ [Puback pid]\<rparr>)"
    if "connacked st" for pid st
    using that by (simp add: receiving_step_handle handle_def onPublish_def stream_send_ok dm_Observer_def demo_packet_def)
  have obs: "observe K (demo_packet pid) x = OnPublish_message K ''$baetyl/device/dev1/delta'' [] x"
    for K pid and x :: "(pval, unit) DmCtx" by (simp add: observe_def demo_packet_def)
  have "\<exists>s. inbox_run demo_dm_codec False (start_inbox c ?st) demo_inbox = Some s \<and> got s = [demo_packet 1, demo_packet 2] \<and>
      handled s ''dev1'' = [demo_message]"
  proof -
    have the: "c = the demo_ctx" by (rule option.sel [of c, folded c(1), symmetric])
    show ?thesis unfolding the
      by (simp add: demo_ctx_def NewContext_def demo_inbox_def start_inbox_def inbox_receive_def inbox_process_def rec obs
          RegisterDeltaCallback_def Start_def new_stream_def OnPublish_message_def topic demo_dm_codec_def devices_by_name_def demo_device_def
          zero_device_def make_chan_def chan_send_def chan_full_def processing_step_def chan_recv_def dispatch_def demo_message_def
          processDelta_def decode_def device_name_def parsePropertyValues_def prop_configs_def demo_property_def val queue_def Let_def)
  qed
  then obtain s where s: "inbox_run demo_dm_codec False (start_inbox c ?st) demo_inbox = Some s"
    "got s = [demo_packet 1, demo_packet 2]" "handled s ''dev1'' = [demo_message]" by blast
  have msgs: "messages_for demo_dm_codec ''dev1'' (got s) = [demo_message, demo_message]"
    by (simp add: s(2) messages_for_def packet_for_def demo_packet_def topic pay List.map_filter_simps)
  have acks: "wire ?st @ List.map_filter (ack_of False) (got s) = [Puback 1, Puback 2]"
    by (simp add: s(2) new_stream_def ack_of_def demo_packet_def List.map_filter_simps)
  have "connacked ?st" by simp
  from device_messages_in_order [OF c(2) this s(1)]
  have "handled s ''dev1'' @ queue (ictx s) ''dev1'' = [demo_message, demo_message]" "wire (conn s) = [Puback 1, Puback 2]"
    unfolding msgs acks by simp_all
  with c s(1,3) show ?thesis by blast
qed

end
