(* ===== verification/Dm_Views.thy ===== *)
theory Dm_Views
  imports Dm_Context
begin

text \<open>
  What the cloud shows of devices, models and drivers: the view types of \<^verbatim>\<open>dmcontext/device.go\<close>, \<^verbatim>\<open>dmcontext/device\_model.go\<close> and
  \<^verbatim>\<open>dmcontext/device\_driver.go\<close>, and the conversion of a model into its view. The copier, a library that copies the fields of the same
  name, is an argument. The rest of the observer of \<^verbatim>\<open>dmcontext/observer.go\<close> is here too.
\<close>

section \<open>Views\<close>

record DeviceConfigView =
  dcv_Modbus :: "ModbusConfig option"
  dcv_Opcua :: "OpcuaConfig option"
  dcv_Ipc :: "IpcDeviceConfig option"
  dcv_IEC104 :: "IEC104Config option"
  dcv_Opcda :: "OpcdaConfig option"
  dcv_Custom :: "string option"

record DeviceView =
  dv_Name :: string
  dv_Protocol :: string
  dv_Description :: string
  dv_Labels :: "(string \<times> string) list option"
  dv_Ready :: bool
  dv_DeviceModel :: string
  dv_Alias :: string
  dv_Status :: int
  dv_Bind :: bool
  dv_NodeName :: string
  dv_Attributes :: "DeviceAttribute list option"
  dv_Properties :: "DeviceProperty list option"
  dv_Config :: "DeviceConfigView option"
  dv_CreateTime :: int
  dv_UpdateTime :: int

record DeviceModelView =
  dmv_Name :: string
  dmv_Description :: string
  dmv_Protocol :: string
  dmv_Labels :: "(string \<times> string) list option"
  dmv_Attributes :: "DeviceModelAttribute list option"
  dmv_Properties :: "DeviceModelProperty list option"
  dmv_CreateTime :: int
  dmv_UpdateTime :: int

record DeviceModelPropertyYaml =
  dmy_Name :: string
  dmy_Type :: string
  dmy_Mode :: string
  dmy_Format :: string
  dmy_EnumType :: EnumType
  dmy_ArrayType :: ArrayType
  dmy_ObjectType :: "(string \<times> ObjectType) list option"
  dmy_ObjectRequired :: "string list option"

record DriverRef =
  drf_Name :: string
  drf_Type :: "8 word"
  drf_Protocol :: string
  drf_Description :: string
  drf_Bind :: bool

record DeviceDriverView =
  ddv_NodeName :: string
  ddv_DriverName :: string
  ddv_DriverInstName :: string
  ddv_Version :: string
  ddv_Protocol :: string
  ddv_DriverConfig :: "DriverConfig option"
  ddv_CreateTime :: int
  ddv_UpdateTime :: int

record DeviceDriverCsv =
  csv_DeviceName :: string
  csv_DeviceModel :: string
  csv_AccessTemplate :: string
  csv_Custom :: "string option"
  csv_Modbus :: "ModbusConfig option"
  csv_OpcUA :: "OpcuaConfig option"
  csv_Ipc :: "IpcDeviceConfig option"
  csv_IEC104 :: "IEC104Config option"
  csv_Opcda :: "OpcdaConfig option"
  csv_Bacnet :: "BacnetConfig option"

record ShadowState =
  ss_Report :: "(string \<times> pval) list"
  ss_Desire :: "(string \<times> pval) list"

record ShadowMetadata =
  sm_Report :: "(string \<times> pval) list"
  sm_Desire :: "(string \<times> pval) list"

record FullDeviceConfig =
  fdc_Infos :: "DeviceInfo option"
  fdc_Props :: pval

record FullDriverConfig =
  fdr_Devices :: "DeviceInfo list"
  fdr_Driver :: string

section \<open>The view of a model\<close>

definition zero_view :: DeviceModelView where
  "zero_view = \<lparr>dmv_Name = [], dmv_Description = [], dmv_Protocol = [], dmv_Labels = None, dmv_Attributes = None,
     dmv_Properties = None, dmv_CreateTime = 0, dmv_UpdateTime = 0\<rparr>"

text \<open>\<open>Copy\<close> is told the value to write into; it returns its error and the value it leaves.\<close>

definition ToDeviceModelView ::
  "(DeviceModelView \<Rightarrow> DeviceModel \<Rightarrow> string option \<times> DeviceModelView) \<Rightarrow> DeviceModel \<Rightarrow> (string, DeviceModelView) result" where
  "ToDeviceModelView Copy dm = (case Copy zero_view dm of (Some e, _) \<Rightarrow> Inl e | (None, res) \<Rightarrow> Inr res)"

text \<open>The fields that the two types share.\<close>

definition shared_fields :: "DeviceModel \<Rightarrow> DeviceModelView \<Rightarrow> DeviceModelView" where
  "shared_fields dm v = v\<lparr>dmv_Name := dm_Name dm, dmv_Description := dm_Description dm, dmv_Protocol := dm_Protocol dm,
     dmv_Labels := dm_Labels dm, dmv_Attributes := dm_Attributes dm, dmv_Properties := dm_Properties dm,
     dmv_CreateTime := dm_CreateTime dm, dmv_UpdateTime := dm_UpdateTime dm\<rparr>"

text \<open>
  Two models count as equal exactly when their views are the same but for the times, provided the copier copies the fields of the
  same name. So a change that the comparison misses (of the secret, say) is one that the view does not show.
\<close>

lemma EqualDeviceModel_view:
  assumes "\<And>v dm. Copy v dm = (None, shared_fields dm v)"
    and "ToDeviceModelView Copy old = Inr v" "ToDeviceModelView Copy new = Inr w"
  shows "EqualDeviceModel old new \<longleftrightarrow>
     v\<lparr>dmv_CreateTime := 0, dmv_UpdateTime := 0\<rparr> = w\<lparr>dmv_CreateTime := 0, dmv_UpdateTime := 0\<rparr>"
  using assms(2,3) by (auto simp: ToDeviceModelView_def assms(1) shared_fields_def EqualDeviceModel_def zero_view_def)

section \<open>The observer\<close>

text \<open>The observer shares the channels of the context. It accepts every acknowledgement and logs every error.\<close>

record 'c dm_observer =
  obs_msgChs :: "string \<rightharpoonup> 'c Dm_Context.Message chan"
  obs_log :: "string list"

definition newObserver :: "(string \<rightharpoonup> 'c Dm_Context.Message chan) \<Rightarrow> string list \<Rightarrow> 'c dm_observer" where
  "newObserver chs lg = \<lparr>obs_msgChs = chs, obs_log = lg\<rparr>"

definition observer_OnPuback :: "'c dm_observer \<Rightarrow> Packet \<Rightarrow> string option" where
  "observer_OnPuback ob pkt = None"

definition observer_OnError :: "'c dm_observer \<Rightarrow> string \<Rightarrow> 'c dm_observer" where
  "observer_OnError ob err = ob\<lparr>obs_log := obs_log ob @ [err]\<rparr>"

end
