(* ===== verification/Go_Time.thy ===== *)
theory Go_Time
  imports Go_Strconv
begin

text \<open>
  The part of the package \<^verbatim>\<open>time\<close> that \<^verbatim>\<open>dmcontext/format.go\<close> uses: a layout is cut into chunks, \<^verbatim>\<open>ParseInLocation\<close> reads
  a text chunk by chunk and \<^verbatim>\<open>Format\<close> writes a time chunk by chunk. The chunks are the numeric ones that occur in the layouts of that file
  (and those its misspelt layout is cut into); layouts with names of months or days, zones or fractions are not covered.
\<close>

section \<open>Layouts\<close>

datatype std =
    StdLongYear | StdYear | StdZeroMonth | StdZeroDay | StdDay | StdHour | StdZeroMinute | StdZeroSecond

datatype chunk = Std std | Lit char

function layout_chunks :: "string \<Rightarrow> chunk list" where
  "layout_chunks s =
     (if s = [] then []
      else if strings_HasPrefix s ''2006'' then Std StdLongYear # layout_chunks (drop 4 s)
      else if strings_HasPrefix s ''01'' then Std StdZeroMonth # layout_chunks (drop 2 s)
      else if strings_HasPrefix s ''02'' then Std StdZeroDay # layout_chunks (drop 2 s)
      else if strings_HasPrefix s ''04'' then Std StdZeroMinute # layout_chunks (drop 2 s)
      else if strings_HasPrefix s ''05'' then Std StdZeroSecond # layout_chunks (drop 2 s)
      else if strings_HasPrefix s ''06'' then Std StdYear # layout_chunks (drop 2 s)
      else if strings_HasPrefix s ''15'' then Std StdHour # layout_chunks (drop 2 s)
      else if hd s = CHR ''2'' then Std StdDay # layout_chunks (tl s)
      else Lit (hd s) # layout_chunks (tl s))"
  by auto
termination by (relation "measure length") auto

declare layout_chunks.simps [simp del]

lemma layout_chunks_Nil [simp]: "layout_chunks [] = []"
  by (simp add: layout_chunks.simps)

lemmas layout_chunks_Cons = layout_chunks.simps [of "c # s" for c s]

section \<open>Wall clock times\<close>

text \<open>The fields of \<^verbatim>\<open>time.Parse\<close>; a month or day that has not been read is \<open>- 1\<close>. Fractions of a second are not kept: no layout prints them.\<close>

record civil =
  year :: int
  month :: int
  day :: int
  hour :: int
  minute :: int
  second :: int

definition leap :: "int \<Rightarrow> bool" where
  "leap y \<longleftrightarrow> y mod 4 = 0 \<and> (y mod 100 \<noteq> 0 \<or> y mod 400 = 0)"

definition daysIn :: "int \<Rightarrow> int \<Rightarrow> int" where
  "daysIn m y = (if m = 2 \<and> leap y then 29 else [31, 28, 31, 30, 31, 30, 31, 31, 30, 31, 30, 31] ! nat (m - 1))"

section \<open>Writing\<close>

text \<open>\<^verbatim>\<open>appendInt\<close>: decimal, padded with zeros to the width.\<close>

definition append_int :: "int \<Rightarrow> nat \<Rightarrow> string" where
  "append_int x width =
     (let ds = nat_digits (nat \<bar>x\<bar>) in (if x < 0 then ''-'' else []) @ replicate (width - length ds) (CHR ''0'') @ ds)"

definition format_std :: "civil \<Rightarrow> std \<Rightarrow> string" where
  "format_std t s =
     (case s of
        StdLongYear \<Rightarrow> append_int (year t) 4
      | StdYear \<Rightarrow> append_int ((if year t < 0 then 0 else year t) mod 100) 2
      | StdZeroMonth \<Rightarrow> append_int (month t) 2
      | StdZeroDay \<Rightarrow> append_int (day t) 2
      | StdDay \<Rightarrow> append_int (day t) 0
      | StdHour \<Rightarrow> append_int (hour t) 2
      | StdZeroMinute \<Rightarrow> append_int (minute t) 2
      | StdZeroSecond \<Rightarrow> append_int (second t) 2)"

definition format_chunk :: "civil \<Rightarrow> chunk \<Rightarrow> string" where
  "format_chunk t c = (case c of Std s \<Rightarrow> format_std t s | Lit x \<Rightarrow> [x])"

definition time_Format :: "civil \<Rightarrow> string \<Rightarrow> string" where
  "time_Format t layout = concat (map (format_chunk t) (layout_chunks layout))"

section \<open>Reading\<close>

definition digit_at :: "string \<Rightarrow> nat \<Rightarrow> bool" where
  "digit_at s i \<longleftrightarrow> i < length s \<and> is_digit (s ! i)"

definition getnum :: "string \<Rightarrow> bool \<Rightarrow> (int \<times> string) option" where
  "getnum s fixed =
     (if \<not> digit_at s 0 then None
      else if \<not> digit_at s 1 then (if fixed then None else Some (int (digit_val (s ! 0)), drop 1 s))
      else Some (int (digit_val (s ! 0) * 10 + digit_val (s ! 1)), drop 2 s))"

definition skip_fraction :: "string \<Rightarrow> string" where
  "skip_fraction s =
     (if s \<noteq> [] \<and> hd s \<in> {CHR ''.'', CHR '',''} \<and> digit_at s 1 then dropWhile is_digit (tl s) else s)"

definition parse_std :: "std \<Rightarrow> civil \<times> string \<Rightarrow> (civil \<times> string) option" where
  "parse_std s = (\<lambda>(t, v).
     case s of
       StdLongYear \<Rightarrow>
         if length v < 4 \<or> \<not> digit_at v 0 then None
         else (case parse_unsigned (take 4 v) of None \<Rightarrow> None | Some y \<Rightarrow> Some (t\<lparr>year := int y\<rparr>, drop 4 v))
     | StdYear \<Rightarrow>
         if length v < 2 then None
         else (case ParseInt (take 2 v) 64 of
                 Inl _ \<Rightarrow> None
               | Inr y \<Rightarrow> Some (t\<lparr>year := (if y \<ge> 69 then y + 1900 else y + 2000)\<rparr>, drop 2 v))
     | StdZeroMonth \<Rightarrow>
         (case getnum v True of None \<Rightarrow> None | Some (n, v') \<Rightarrow> if n \<le> 0 \<or> 12 < n then None else Some (t\<lparr>month := n\<rparr>, v'))
     | StdZeroDay \<Rightarrow> (case getnum v True of None \<Rightarrow> None | Some (n, v') \<Rightarrow> Some (t\<lparr>day := n\<rparr>, v'))
     | StdDay \<Rightarrow> (case getnum v False of None \<Rightarrow> None | Some (n, v') \<Rightarrow> Some (t\<lparr>day := n\<rparr>, v'))
     | StdHour \<Rightarrow>
         (case getnum v False of None \<Rightarrow> None | Some (n, v') \<Rightarrow> if n < 0 \<or> 24 \<le> n then None else Some (t\<lparr>hour := n\<rparr>, v'))
     | StdZeroMinute \<Rightarrow>
         (case getnum v True of None \<Rightarrow> None | Some (n, v') \<Rightarrow> if n < 0 \<or> 60 \<le> n then None else Some (t\<lparr>minute := n\<rparr>, v'))
     | StdZeroSecond \<Rightarrow>
         (case getnum v True of
            None \<Rightarrow> None
          | Some (n, v') \<Rightarrow> if n < 0 \<or> 60 \<le> n then None else Some (t\<lparr>second := n\<rparr>, skip_fraction v')))"

fun parse_chunks :: "chunk list \<Rightarrow> civil \<times> string \<Rightarrow> civil option" where
  "parse_chunks [] (t, v) = (if v = [] then Some t else None)"
| "parse_chunks (Lit c # cs) (t, v) = (if v = [] \<or> hd v \<noteq> c then None else parse_chunks cs (t, tl v))"
| "parse_chunks (Std s # cs) (t, v) = (case parse_std s (t, v) of None \<Rightarrow> None | Some p \<Rightarrow> parse_chunks cs p)"

text \<open>
  \<open>loc\<close> is the location: the wall clock it shows at the time \<^verbatim>\<open>time.Date\<close> makes of these fields. It is not always the
  same: a wall clock skipped by a change of the offset is moved.
\<close>

definition ParseInLocation :: "(civil \<Rightarrow> civil) \<Rightarrow> string \<Rightarrow> string \<Rightarrow> civil option" where
  "ParseInLocation loc layout v =
     (case parse_chunks (layout_chunks layout)
             (\<lparr>year = 0, month = - 1, day = - 1, hour = 0, minute = 0, second = 0\<rparr>, v) of
        None \<Rightarrow> None
      | Some t \<Rightarrow>
          let m = (if month t < 0 then 1 else month t); d = (if day t < 0 then 1 else day t)
          in if d < 1 \<or> daysIn m (year t) < d then None else Some (loc (t\<lparr>month := m, day := d\<rparr>)))"

section \<open>Numbers of two and four digits\<close>

definition digit :: "nat \<Rightarrow> char" where
  "digit d = char_of (48 + d)"

lemma digit_simps [simp]:
  "d < 10 \<Longrightarrow> is_digit (digit d)" "d < 10 \<Longrightarrow> digit_val (digit d) = d"
  by (simp_all add: digit_def digit_char)

lemma nat_digits_small: "n < 10 \<Longrightarrow> nat_digits n = [digit n]"
  by (simp add: nat_digits.simps digit_def)

lemma nat_digits_step: "10 \<le> n \<Longrightarrow> nat_digits n = nat_digits (n div 10) @ [digit (n mod 10)]"
  by (subst nat_digits.simps) (simp add: digit_def)

lemma digit_0: "digit 0 = CHR ''0''"
  by code_simp

lemma two_digits:
  assumes "n < 100"
  shows "append_int (int n) 2 = [digit (n div 10), digit (n mod 10)]"
proof (cases "n < 10")
  case True
  then show ?thesis by (simp add: append_int_def nat_digits_small digit_0)
next
  case False
  with assms show ?thesis by (simp add: append_int_def nat_digits_step [of n] nat_digits_small)
qed

lemma pad_step:
  assumes "1 < w"
  shows "append_int (int n) w = append_int (int (n div 10)) (w - 1) @ [digit (n mod 10)]"
proof (cases "n < 10")
  case True
  obtain v where "w = Suc (Suc v)" using assms that [of "w - 2"] by simp
  moreover from True have "n div 10 = 0" "n mod 10 = n" by simp_all
  ultimately show ?thesis
    using True by (simp add: append_int_def nat_digits_small digit_0 Let_def flip: replicate_append_same)
next
  case False
  then show ?thesis by (simp add: append_int_def nat_digits_step [of n] Let_def)
qed

lemma four_digits:
  assumes "n < 10000"
  shows "append_int (int n) 4 =
    [digit (n div 1000), digit (n div 100 mod 10), digit (n div 10 mod 10), digit (n mod 10)]"
  using two_digits [of "n div 100"] pad_step [of 4 n] pad_step [of 3 "n div 10"] assms
  by (simp add: div_mult2_eq [symmetric])

end
