(* ===== verification/Dm_Format.thy ===== *)
theory Dm_Format
  imports Dm_Property Go_Time
begin

text \<open>
  Conversion of a value to the type a device model declares (\<^verbatim>\<open>dmcontext/format.go\<close>). The numeric and text conversions of
  \<^verbatim>\<open>github.com/spf13/cast\<close> are the parameter \<open>cast\<close>, by the name of the target type; \<open>loc\<close> is \<^verbatim>\<open>time.Local\<close>.
\<close>

section \<open>Values and arguments\<close>

text \<open>
  A value of type \<^verbatim>\<open>interface{}\<close> with its dynamic type. Arrays and slices are different kinds in Go. \<open>AOther\<close> is a value of
  any other type without a length, with the type's name.
\<close>

datatype any =
    ANil | ABool bool | AInt int | AInt16 "16 word" | AInt32 "32 word" | AInt64 "64 word"
  | AFloat32 f64 | AFloat64 f64 | AString string | ATime civil
  | AArr "any list" | ASlice "any list" | AMap "(string \<times> any) list" | AOther string string

datatype fmt_arg =
    ArgNil | ArgString string | ArgArray ArrayType | ArgEnum EnumType | ArgObject "(string \<times> ObjectType) list"

text \<open>Results: a value, an error or a panic of the reflection package.\<close>

datatype 'a outcome = Got 'a | Err string | Panic

definition ErrUnsupportedValueType :: string where
  "ErrUnsupportedValueType = ''unsupported value type''"

text \<open>\<^verbatim>\<open>reflect.TypeOf(value).Name()\<close>, which panics for a nil interface.\<close>

definition type_Name :: "any \<Rightarrow> string option" where
  "type_Name v =
     (case v of
        ANil \<Rightarrow> None
      | ABool _ \<Rightarrow> Some TypeBool | AInt _ \<Rightarrow> Some TypeInt | AInt16 _ \<Rightarrow> Some TypeInt16 | AInt32 _ \<Rightarrow> Some TypeInt32
      | AInt64 _ \<Rightarrow> Some TypeInt64 | AFloat32 _ \<Rightarrow> Some TypeFloat32 | AFloat64 _ \<Rightarrow> Some TypeFloat64
      | AString _ \<Rightarrow> Some TypeString | ATime _ \<Rightarrow> Some ''Time''
      | AArr _ \<Rightarrow> Some [] | ASlice _ \<Rightarrow> Some [] | AMap _ \<Rightarrow> Some [] | AOther n _ \<Rightarrow> Some n)"

text \<open>\<^verbatim>\<open>reflect.ValueOf(value).Len()\<close>, which panics for a kind without a length.\<close>

definition value_Len :: "any \<Rightarrow> int option" where
  "value_Len v =
     (case v of AString s \<Rightarrow> Some (int (length s)) | AArr xs \<Rightarrow> Some (int (length xs)) | ASlice xs \<Rightarrow> Some (int (length xs))
      | AMap m \<Rightarrow> Some (int (length m)) | _ \<Rightarrow> None)"

text \<open>\<^verbatim>\<open>==\<close> on interfaces: a panic when both hold the same type and it is not comparable.\<close>

definition f64_eq :: "f64 \<Rightarrow> f64 \<Rightarrow> bool" where
  "f64_eq a b = (case (a, b) of (NaN, _) \<Rightarrow> False | (_, NaN) \<Rightarrow> False | (Zero _, Zero _) \<Rightarrow> True | _ \<Rightarrow> a = b)"

definition iface_eq :: "any \<Rightarrow> any \<Rightarrow> bool option" where
  "iface_eq a b =
     (case (a, b) of
        (AFloat32 x, AFloat32 y) \<Rightarrow> Some (f64_eq x y)
      | (AFloat64 x, AFloat64 y) \<Rightarrow> Some (f64_eq x y)
      | (ASlice _, ASlice _) \<Rightarrow> None
      | (AMap _, AMap _) \<Rightarrow> None
      | _ \<Rightarrow> Some (a = b))"

section \<open>Loops with an early return\<close>

fun collect :: "('a \<Rightarrow> 'b outcome) \<Rightarrow> 'a list \<Rightarrow> 'b list outcome" where
  "collect f [] = Got []"
| "collect f (x # xs) =
     (case f x of
        Panic \<Rightarrow> Panic
      | Err e \<Rightarrow> Err e
      | Got y \<Rightarrow> (case collect f xs of Panic \<Rightarrow> Panic | Err e \<Rightarrow> Err e | Got ys \<Rightarrow> Got (y # ys)))"

lemma collect_cong [fundef_cong]:
  "xs = ys \<Longrightarrow> (\<And>x. x \<in> set ys \<Longrightarrow> f x = g x) \<Longrightarrow> collect f xs = collect g ys"
  by (induction xs arbitrary: ys) (auto split: outcome.splits)

lemma collect_Got: "collect f xs = Got ys \<longleftrightarrow> list_all2 (\<lambda>x y. f x = Got y) xs ys"
proof (induction xs arbitrary: ys)
  case Nil
  then show ?case by auto
next
  case (Cons x xs)
  show ?case
  proof
    assume "collect f (x # xs) = Got ys"
    then show "list_all2 (\<lambda>x y. f x = Got y) (x # xs) ys"
      using Cons.IH by (auto split: outcome.splits)
  next
    assume "list_all2 (\<lambda>x y. f x = Got y) (x # xs) ys"
    then obtain y zs where "ys = y # zs" "f x = Got y" "list_all2 (\<lambda>x y. f x = Got y) xs zs"
      by (auto simp: list_all2_Cons1)
    moreover from this(3) have "collect f xs = Got zs" by (simp add: Cons.IH)
    ultimately show "collect f (x # xs) = Got ys" by simp
  qed
qed

text \<open>The search loop of \<^verbatim>\<open>parseEnum\<close> over the values converted to the declared type.\<close>

fun find_enum :: "(EnumValue \<Rightarrow> any outcome) \<Rightarrow> any \<Rightarrow> EnumValue list \<Rightarrow> any outcome" where
  "find_enum parse val [] = Err ''no matching enum value''"
| "find_enum parse val (v # vs) =
     (case parse v of
        Panic \<Rightarrow> Panic
      | Err e \<Rightarrow> Err e
      | Got enumValue \<Rightarrow>
          (case iface_eq enumValue val of
             None \<Rightarrow> Panic
           | Some True \<Rightarrow> Got (AString (evl_Name v))
           | Some False \<Rightarrow> find_enum parse val vs))"

lemma find_enum_cong [fundef_cong]:
  "vs = ws \<Longrightarrow> val = w \<Longrightarrow> (\<And>v. v \<in> set ws \<Longrightarrow> parse v = parse' v) \<Longrightarrow> find_enum parse val vs = find_enum parse' w ws"
  by (induction vs arbitrary: ws) (auto split: outcome.splits option.splits bool.splits)

section \<open>Times and dates\<close>

definition timeFormats :: "(string \<times> string) list" where
  "timeFormats =
     [(''yyyy-mm-dd'', ''2006-01-02''), (''yyyy.mm.dd'', ''2006.01.02''), (''yyyy/mm/dd'', ''2006/01/02''),
      (''mm-dd-yyyy'', ''06-01-2020''), (''hh:mm:ss'', ''15:04:05''), (''HH:MM:SS'', ''15:04:05'')]"

definition parseLayout :: "string list" where
  "parseLayout = [''2006-01-02'', ''2006.01.02'', ''2006/01/02'', ''15:04:05'', ''15-04-05'', ''15.04.05'']"

fun parse_layouts :: "(civil \<Rightarrow> civil) \<Rightarrow> string list \<Rightarrow> string \<Rightarrow> civil option" where
  "parse_layouts loc [] val = None"
| "parse_layouts loc (layout # layouts) val =
     (case ParseInLocation loc layout val of None \<Rightarrow> parse_layouts loc layouts val | Some t \<Rightarrow> Some t)"

definition parseTime :: "(civil \<Rightarrow> civil) \<Rightarrow> any \<Rightarrow> fmt_arg \<Rightarrow> any outcome" where
  "parseTime loc val args =
     (case args of
        ArgString format \<Rightarrow>
          (case map_of timeFormats (strings_ToLower format) of
             None \<Rightarrow> Err ErrUnsupportedValueType
           | Some timeFormat \<Rightarrow>
               (case type_Name val of
                  None \<Rightarrow> Panic
                | Some n \<Rightarrow>
                    if n = TypeString
                    then (case val of
                            AString s \<Rightarrow>
                              (case parse_layouts loc parseLayout s of
                                 Some t \<Rightarrow> Got (AString (time_Format t timeFormat))
                               | None \<Rightarrow> Err ErrUnsupportedValueType)
                          | _ \<Rightarrow> Panic)
                    else if n = ''Time''
                    then (case val of ATime t \<Rightarrow> Got (AString (time_Format t timeFormat)) | _ \<Rightarrow> Panic)
                    else Err ErrUnsupportedValueType))
      | _ \<Rightarrow> Err ErrUnsupportedValueType)"

section \<open>Conversion\<close>

definition array_type :: "fmt_arg \<Rightarrow> ArrayType" where
  "array_type args =
     (case args of ArgArray a \<Rightarrow> a | _ \<Rightarrow> \<lparr>at_Type = [], at_Min = 0, at_Max = 0, at_Format = []\<rparr>)"

definition elements :: "any \<Rightarrow> any list" where
  "elements v = (case v of AArr xs \<Rightarrow> xs | ASlice xs \<Rightarrow> xs | _ \<Rightarrow> [])"

definition scalar_types :: "string list" where
  "scalar_types = [TypeInt, TypeInt16, TypeInt32, TypeInt64, TypeFloat32, TypeFloat64, TypeBool, TypeString]"

definition from_cast :: "(string, any) result \<Rightarrow> any outcome" where
  "from_cast r = (case r of Inl e \<Rightarrow> Err e | Inr v \<Rightarrow> Got v)"

definition is_array :: "any \<Rightarrow> bool" where
  "is_array v = (case v of AArr _ \<Rightarrow> True | _ \<Rightarrow> False)"

definition is_ArgArray :: "fmt_arg \<Rightarrow> bool" where
  "is_ArgArray args = (case args of ArgArray _ \<Rightarrow> True | _ \<Rightarrow> False)"

text \<open>
  \<^verbatim>\<open>parseArray\<close>, \<^verbatim>\<open>parseEnum\<close> and \<^verbatim>\<open>parseObject\<close>, with the conversion of the parts as the argument \<open>parse\<close>. A string or map
  reaches the loop of \<^verbatim>\<open>parseArray\<close> only when it is empty. The entries of an object type are in the order the loop meets them.
\<close>

definition parseArray :: "(string \<Rightarrow> any \<Rightarrow> fmt_arg \<Rightarrow> any outcome) \<Rightarrow> any \<Rightarrow> fmt_arg \<Rightarrow> any outcome" where
  "parseArray parse val args =
     (if is_ArgArray args \<and> val = ANil then Panic
      else if is_ArgArray args \<and> \<not> is_array val then Err ErrUnsupportedValueType
      else case value_Len val of
             None \<Rightarrow> Panic
           | Some n \<Rightarrow>
               if at_Max (array_type args) < n \<or> n < at_Min (array_type args)
               then Err ''the length of the array does not conform to the range''
               else (case collect (\<lambda>x. parse (at_Type (array_type args)) x (ArgString (at_Format (array_type args)))) (elements val) of
                       Panic \<Rightarrow> Panic | Err e \<Rightarrow> Err e | Got ys \<Rightarrow> Got (ASlice ys)))"

definition parseEnum :: "(string \<Rightarrow> any \<Rightarrow> fmt_arg \<Rightarrow> any outcome) \<Rightarrow> any \<Rightarrow> fmt_arg \<Rightarrow> any outcome" where
  "parseEnum parse val args =
     (case args of
        ArgEnum enumType \<Rightarrow>
          (case type_Name val of
             None \<Rightarrow> Panic
           | Some n \<Rightarrow>
               if n \<noteq> et_Type enumType then Err ErrUnsupportedValueType
               else find_enum (\<lambda>v. parse (et_Type enumType) (AString (evl_Value v)) ArgNil) val
                      (case et_Values enumType of None \<Rightarrow> [] | Some vs \<Rightarrow> vs))
      | _ \<Rightarrow> find_enum (\<lambda>v. Panic) val [])"

definition present :: "(string \<times> ObjectType) list \<Rightarrow> (string \<times> any) list \<Rightarrow> (string \<times> ObjectType \<times> any) list" where
  "present objectTypes originMap =
     List.map_filter (\<lambda>(key, ot). map_option (\<lambda>v. (key, ot, v)) (map_of originMap key)) objectTypes"

definition parseObject :: "(string \<Rightarrow> any \<Rightarrow> fmt_arg \<Rightarrow> any outcome) \<Rightarrow> any \<Rightarrow> fmt_arg \<Rightarrow> any outcome" where
  "parseObject parse val args =
     (case (args, val) of
        (ArgObject objectTypes, AMap originMap) \<Rightarrow>
          (case collect (\<lambda>(key, ot, v). case parse (ot_Type ot) v (ArgString (ot_Format ot)) of
                           Panic \<Rightarrow> Panic | Err e \<Rightarrow> Err e | Got w \<Rightarrow> Got (key, w))
                  (present objectTypes originMap) of
             Panic \<Rightarrow> Panic | Err e \<Rightarrow> Err e | Got m \<Rightarrow> Got (AMap m))
      | _ \<Rightarrow> Err ErrUnsupportedValueType)"

text \<open>The parts are converted with a text or no argument, so the recursion has depth two.\<close>

definition nested :: "fmt_arg \<Rightarrow> nat" where
  "nested args = (case args of ArgNil \<Rightarrow> 0 | ArgString _ \<Rightarrow> 0 | _ \<Rightarrow> 1)"

lemma parseArray_cong [fundef_cong]:
  assumes "val = w" "args = b"
    and "\<And>t x f. nested b = 1 \<Longrightarrow> parse t x (ArgString f) = parse' t x (ArgString f)"
  shows "parseArray parse val args = parseArray parse' w b"
proof (cases b)
  case (ArgArray a)
  with assms(3) have "(\<lambda>x. parse t x (ArgString f)) = (\<lambda>x. parse' t x (ArgString f))" for t f
    by (simp add: nested_def)
  then show ?thesis unfolding parseArray_def assms(1,2) by (simp split: option.split)
qed (use assms in \<open>auto simp: parseArray_def is_ArgArray_def array_type_def value_Len_def elements_def split: any.splits option.splits\<close>)

lemma parseEnum_cong [fundef_cong]:
  assumes "val = w" "args = b"
    and "\<And>t x. nested b = 1 \<Longrightarrow> parse t x ArgNil = parse' t x ArgNil"
  shows "parseEnum parse val args = parseEnum parse' w b"
  using assms by (cases b) (auto simp: parseEnum_def nested_def split: option.splits)

lemma parseObject_cong [fundef_cong]:
  assumes "val = w" "args = b"
    and "\<And>t x f. nested b = 1 \<Longrightarrow> parse t x (ArgString f) = parse' t x (ArgString f)"
  shows "parseObject parse val args = parseObject parse' w b"
  using assms by (cases b) (auto simp: parseObject_def nested_def split: any.splits)

function ParseValue ::
  "(string \<Rightarrow> any \<Rightarrow> (string, any) result) \<Rightarrow> (civil \<Rightarrow> civil) \<Rightarrow> string \<Rightarrow> any \<Rightarrow> fmt_arg \<Rightarrow> any outcome" where
  "ParseValue cast loc typ val args =
     (if typ \<in> set scalar_types then from_cast (cast typ val)
      else if typ = TypeDate \<or> typ = TypeTime then parseTime loc val args
      else if typ = TypeArray then parseArray (ParseValue cast loc) val args
      else if typ = TypeEnum then parseEnum (ParseValue cast loc) val args
      else if typ = TypeObject then parseObject (ParseValue cast loc) val args
      else Err (''unsupported type: '' @ typ))"
  by pat_completeness auto
termination
  by (relation "measure (\<lambda>(cast, loc, typ, val, args). nested args)") (auto simp: nested_def split: fmt_arg.splits)

declare ParseValue.simps [simp del]

lemma composite_not_scalar [simp]:
  "TypeArray \<notin> set scalar_types" "TypeEnum \<notin> set scalar_types" "TypeObject \<notin> set scalar_types"
  "TypeDate \<notin> set scalar_types" "TypeTime \<notin> set scalar_types"
  by (simp_all add: scalar_types_def type_names)

lemma ParseValue_composite:
  "ParseValue cast loc TypeArray val args = parseArray (ParseValue cast loc) val args"
  "ParseValue cast loc TypeEnum val args = parseEnum (ParseValue cast loc) val args"
  "ParseValue cast loc TypeObject val args = parseObject (ParseValue cast loc) val args"
  "ParseValue cast loc TypeDate val args = parseTime loc val args"
  "ParseValue cast loc TypeTime val args = parseTime loc val args"
  by (simp_all add: ParseValue.simps [of _ _ TypeArray] ParseValue.simps [of _ _ TypeEnum]
      ParseValue.simps [of _ _ TypeObject] ParseValue.simps [of _ _ TypeDate] ParseValue.simps [of _ _ TypeTime])
    (simp_all add: type_names)

section \<open>Arrays, enumerations and objects\<close>

text \<open>
  Arrays. Conversion to a declared array type succeeds exactly for a Go array whose length is within the declared bounds
  and each of whose elements converts to the element type; the result is the list of the converted elements, in order. A slice, which
  is what the JSON decoder makes of an array, is always refused.
\<close>

theorem array_converted:
  "ParseValue cast loc TypeArray val (ArgArray a) = Got r \<longleftrightarrow>
     (\<exists>xs ys. val = AArr xs \<and> at_Min a \<le> int (length xs) \<and> int (length xs) \<le> at_Max a \<and> r = ASlice ys \<and>
       list_all2 (\<lambda>x y. ParseValue cast loc (at_Type a) x (ArgString (at_Format a)) = Got y) xs ys)"
proof (cases val)
  case (AArr xs)
  then show ?thesis
    by (auto simp: ParseValue_composite parseArray_def is_ArgArray_def is_array_def value_Len_def array_type_def elements_def
        collect_Got [symmetric] split: outcome.splits)
qed (auto simp: ParseValue_composite parseArray_def is_ArgArray_def is_array_def)

lemma slice_refused: "ParseValue cast loc TypeArray (ASlice xs) (ArgArray a) = Err ErrUnsupportedValueType"
  by (simp add: ParseValue_composite parseArray_def is_ArgArray_def is_array_def)

text \<open>An object keeps exactly the declared keys that are present, converted; undeclared keys are dropped.\<close>

lemma object_keys:
  assumes "ParseValue cast loc TypeObject (AMap m) (ArgObject ots) = Got r"
  shows "\<exists>m'. r = AMap m' \<and> map fst m' = filter (\<lambda>k. map_of m k \<noteq> None) (map fst ots)"
proof -
  from assms obtain m' where r: "r = AMap m'"
    and "collect (\<lambda>(key, ot, v). case ParseValue cast loc (ot_Type ot) v (ArgString (ot_Format ot)) of
             Panic \<Rightarrow> Panic | Err e \<Rightarrow> Err e | Got w \<Rightarrow> Got (key, w)) (present ots m) = Got m'"
    by (auto simp: ParseValue_composite parseObject_def split: outcome.splits)
  then have "list_all2 (\<lambda>(key, ot, v) kw. fst kw = key) (present ots m) m'"
    by (auto simp: collect_Got elim!: list_all2_mono split: outcome.splits)
  then have "map fst m' = map fst (present ots m)"
    by (induction rule: list_all2_induct) auto
  moreover have "map fst (present ots m) = filter (\<lambda>k. map_of m k \<noteq> None) (map fst ots)"
    by (induction ots) (auto simp: present_def List.map_filter_simps)
  ultimately show ?thesis using r by simp
qed

section \<open>Dates\<close>

definition date_text :: "char \<Rightarrow> nat \<Rightarrow> nat \<Rightarrow> nat \<Rightarrow> string" where
  "date_text sep y m d = append_int (int y) 4 @ sep # append_int (int m) 2 @ sep # append_int (int d) 2"

definition valid_date :: "nat \<Rightarrow> nat \<Rightarrow> nat \<Rightarrow> bool" where
  "valid_date y m d \<longleftrightarrow> y < 10000 \<and> 1 \<le> m \<and> m \<le> 12 \<and> 1 \<le> d \<and> int d \<le> daysIn (int m) (int y)"

definition midnight :: "nat \<Rightarrow> nat \<Rightarrow> nat \<Rightarrow> civil" where
  "midnight y m d = \<lparr>year = int y, month = int m, day = int d, hour = 0, minute = 0, second = 0\<rparr>"

lemma layouts [simp]:
  "layout_chunks ''2006-01-02'' = [Std StdLongYear, Lit CHR ''-'', Std StdZeroMonth, Lit CHR ''-'', Std StdZeroDay]"
  "layout_chunks ''2006.01.02'' = [Std StdLongYear, Lit CHR ''.'', Std StdZeroMonth, Lit CHR ''.'', Std StdZeroDay]"
  "layout_chunks ''2006/01/02'' = [Std StdLongYear, Lit CHR ''/'', Std StdZeroMonth, Lit CHR ''/'', Std StdZeroDay]"
  "layout_chunks ''15:04:05'' = [Std StdHour, Lit CHR '':'', Std StdZeroMinute, Lit CHR '':'', Std StdZeroSecond]"
  "layout_chunks ''15-04-05'' = [Std StdHour, Lit CHR ''-'', Std StdZeroMinute, Lit CHR ''-'', Std StdZeroSecond]"
  "layout_chunks ''15.04.05'' = [Std StdHour, Lit CHR ''.'', Std StdZeroMinute, Lit CHR ''.'', Std StdZeroSecond]"
  "layout_chunks ''06-01-2020'' =
     [Std StdYear, Lit CHR ''-'', Std StdZeroMonth, Lit CHR ''-'', Std StdDay, Std StdZeroDay, Lit CHR ''0'']"
  by (simp_all add: layout_chunks_Cons strings_HasPrefix_def)

lemma daysIn_le: "1 \<le> m \<Longrightarrow> m \<le> 12 \<Longrightarrow> daysIn (int m) y \<le> 31"
proof -
  assume "1 \<le> m" "m \<le> 12"
  then have "m \<in> set [1..<13]" by simp
  then show ?thesis by (auto simp: daysIn_def upt_rec numeral_nat)
qed

lemma digits_val4: "digits_val [a, b, c, e] = ((digit_val a * 10 + digit_val b) * 10 + digit_val c) * 10 + digit_val e"
  by (simp add: digits_val_def)

lemma year_digits:
  assumes "y < 10000"
  shows "parse_unsigned [digit (y div 1000), digit (y div 100 mod 10), digit (y div 10 mod 10), digit (y mod 10)] = Some y"
proof -
  have "y div 1000 * 10 + y div 100 mod 10 = y div 100" "y div 100 * 10 + y div 10 mod 10 = y div 10"
    using div_mult_mod_eq [of "y div 100" 10] div_mult_mod_eq [of "y div 10" 10] by (simp_all add: div_mult2_eq [symmetric])
  then have "((y div 1000 * 10 + y div 100 mod 10) * 10 + y div 10 mod 10) * 10 + y mod 10 = y" by simp
  moreover have "y div 1000 < 10" using assms by simp
  ultimately show ?thesis by (simp add: parse_unsigned_def digits_val4)
qed

lemma getnum_two:
  assumes "n < 100"
  shows "getnum (digit (n div 10) # digit (n mod 10) # s) fixed = Some (int n, s)"
proof -
  have "n div 10 < 10" using assms by simp
  then show ?thesis by (simp add: getnum_def digit_at_def)
qed

lemma parse_date_chunks:
  assumes "valid_date y m d"
  shows "parse_chunks [Std StdLongYear, Lit c, Std StdZeroMonth, Lit c, Std StdZeroDay] (t, date_text sep y m d) =
    (if sep = c then Some (t\<lparr>year := int y, month := int m, day := int d\<rparr>) else None)"
proof -
  have y: "y < 10000" "y div 1000 < 10" and m: "m < 100" "1 \<le> m" "m \<le> 12" and d: "d < 100"
    using assms daysIn_le [of m "int y"] by (auto simp: valid_date_def)
  show ?thesis
    using y m d
    by (simp add: date_text_def four_digits two_digits parse_std_def digit_at_def year_digits getnum_two del: One_nat_def)
qed

lemma ParseInLocation_date:
  assumes "valid_date y m d"
    and "layout_chunks layout = [Std StdLongYear, Lit c, Std StdZeroMonth, Lit c, Std StdZeroDay]"
  shows "ParseInLocation loc layout (date_text sep y m d) = (if sep = c then Some (loc (midnight y m d)) else None)"
  using assms(1)
  unfolding ParseInLocation_def assms(2) parse_date_chunks [OF assms(1)]
  by (simp add: midnight_def valid_date_def)

lemma parse_layouts_date:
  assumes "valid_date y m d" "sep \<in> {CHR ''-'', CHR ''.'', CHR ''/''}"
  shows "parse_layouts loc parseLayout (date_text sep y m d) = Some (loc (midnight y m d))"
  using assms(2) by (auto simp: parseLayout_def ParseInLocation_date [OF assms(1)])

lemma Format_date:
  "time_Format (midnight y m d) ''2006-01-02'' = date_text CHR ''-'' y m d"
  "time_Format (midnight y m d) ''2006.01.02'' = date_text CHR ''.'' y m d"
  "time_Format (midnight y m d) ''2006/01/02'' = date_text CHR ''/'' y m d"
  "time_Format (midnight y m d) ''06-01-2020'' =
     append_int (int y mod 100) 2 @ ''-'' @ append_int (int m) 2 @ ''-'' @ append_int (int d) 0 @ append_int (int d) 2 @ ''0''"
  by (simp_all add: time_Format_def format_chunk_def format_std_def midnight_def date_text_def)

text \<open>
  C39. Dates. A date text with one of the separators \<^verbatim>\<open>-\<close>, \<^verbatim>\<open>.\<close> or \<^verbatim>\<open>/\<close> is converted to the declared format \<^verbatim>\<open>yyyy-mm-dd\<close>, \<^verbatim>\<open>yyyy.mm.dd\<close>
  or \<^verbatim>\<open>yyyy/mm/dd\<close>, in any letter case, with the same year, month and day, provided midnight of that day exists in
  the local time zone. The format \<^verbatim>\<open>mm-dd-yyyy\<close> gives instead the last two digits of the year, the month, then the day twice (the
  first time without padding) and a zero.
\<close>

theorem date_reformatted:
  assumes date: "valid_date y m d" and sep: "sep \<in> {CHR ''-'', CHR ''.'', CHR ''/''}"
    and local: "loc (midnight y m d) = midnight y m d"
    and format: "strings_ToLower f \<in> {''yyyy-mm-dd'', ''yyyy.mm.dd'', ''yyyy/mm/dd'', ''mm-dd-yyyy''}"
  shows "ParseValue cast loc TypeDate (AString (date_text sep y m d)) (ArgString f) =
    Got (AString (if strings_ToLower f = ''mm-dd-yyyy''
      then append_int (int y mod 100) 2 @ ''-'' @ append_int (int m) 2 @ ''-'' @ append_int (int d) 0 @ append_int (int d) 2 @ ''0''
      else date_text (strings_ToLower f ! 4) y m d))"
  using format
  by (auto simp: ParseValue_composite parseTime_def timeFormats_def type_Name_def parse_layouts_date [OF date sep] local Format_date)

theorem date_reformatted_witness:
  "ParseValue (\<lambda>_ v. Inr v) id TypeDate (AString ''2024/02/29'') (ArgString ''YYYY-MM-DD'') = Got (AString ''2024-02-29'') \<and>
   ParseValue (\<lambda>_ v. Inr v) id TypeDate (AString ''2024/02/29'') (ArgString ''mm-dd-yyyy'') = Got (AString ''24-02-29290'')"
proof -
  have "valid_date 2024 2 29" by (simp add: valid_date_def daysIn_def leap_def)
  moreover have "date_text CHR ''/'' 2024 2 29 = ''2024/02/29''" "date_text CHR ''-'' 2024 2 29 = ''2024-02-29''"
    "strings_ToLower ''YYYY-MM-DD'' = ''yyyy-mm-dd''" "strings_ToLower ''mm-dd-yyyy'' = ''mm-dd-yyyy''"
    "append_int (int 2024 mod 100) 2 @ ''-'' @ append_int (int 2) 2 @ ''-'' @ append_int (int 29) 0 @ append_int (int 29) 2 @ ''0'' = ''24-02-29290''"
    by code_simp+
  ultimately show ?thesis
    using date_reformatted [of 2024 2 29 "CHR ''/''" id "''YYYY-MM-DD''" "\<lambda>_ v. Inr v"]
      date_reformatted [of 2024 2 29 "CHR ''/''" id "''mm-dd-yyyy''" "\<lambda>_ v. Inr v"]
    by simp
qed

end
