(* ===== verification/Dm_Duration.thy ===== *)
theory Dm_Duration
  imports Dm_Expression Go_Strconv
begin

text \<open>
  Durations in device configurations: \<^verbatim>\<open>Duration\<close> of \<^verbatim>\<open>dmcontext/device.go\<close> with its codecs, over the text of a duration as package \<^verbatim>\<open>time\<close>
  writes and reads it. Reading a fraction multiplies floats; their rounding is a parameter. Durations are nanoseconds.
\<close>

section \<open>Writing\<close>

text \<open>\<^verbatim>\<open>fmtFrac\<close> writes the digits of a fraction from the right, without trailing zeros, in front of \<open>w\<close>.\<close>

fun frac_loop :: "nat \<Rightarrow> bool \<Rightarrow> string \<Rightarrow> nat \<Rightarrow> bool \<times> string \<times> nat" where
  "frac_loop 0 prt w v = (prt, w, v)"
| "frac_loop (Suc n) prt w v =
     (let prt' = prt \<or> v mod 10 \<noteq> 0
      in frac_loop n prt' (if prt' then char_of (48 + v mod 10) # w else w) (v div 10))"

definition fmtFrac :: "string \<Rightarrow> nat \<Rightarrow> nat \<Rightarrow> string \<times> nat" where
  "fmtFrac w v prec = (let (prt, w', v') = frac_loop prec False w v in (if prt then CHR ''.'' # w' else w', v'))"

abbreviation Second :: nat where "Second \<equiv> 1000000000"

definition micro :: string where "micro = [CHR 0xC2, CHR 0xB5, CHR ''s'']"

definition small_text :: "string \<Rightarrow> nat \<Rightarrow> nat \<Rightarrow> string" where
  "small_text unit u prec = (let (w, v) = fmtFrac unit u prec in nat_digits v @ w)"

definition text_of_nanos :: "nat \<Rightarrow> string" where
  "text_of_nanos u =
     (if u < Second then
        if u = 0 then ''0s''
        else if u < 1000 then small_text ''ns'' u 0
        else if u < 1000000 then small_text micro u 3
        else small_text ''ms'' u 6
      else
        let (w, secs) = fmtFrac ''s'' u 9;
            w = nat_digits (secs mod 60) @ w;
            mins = secs div 60
        in if 0 < mins then
             let w = nat_digits (mins mod 60) @ CHR ''m'' # w;
                 hours = mins div 60
             in if 0 < hours then nat_digits hours @ CHR ''h'' # w else w
           else w)"

definition Duration_String :: "int \<Rightarrow> string" where
  "Duration_String d = (if d < 0 then CHR ''-'' # text_of_nanos (nat (- d)) else text_of_nanos (nat d))"

section \<open>Reading\<close>

text \<open>\<^verbatim>\<open>leadingInt\<close>, with its checks against overflow.\<close>

fun leadingInt :: "nat \<Rightarrow> string \<Rightarrow> (nat \<times> string) option" where
  "leadingInt x [] = Some (x, [])"
| "leadingInt x (c # s) =
     (if \<not> is_digit c then Some (x, c # s)
      else if 2 ^ 63 div 10 < x then None
      else if 2 ^ 63 < x * 10 + digit_val c then None
      else leadingInt (x * 10 + digit_val c) s)"

text \<open>\<^verbatim>\<open>leadingFraction\<close>: the digits that fit, and the power of ten they are over, as a float.\<close>

fun leadingFraction :: "rounding \<Rightarrow> nat \<Rightarrow> f64 \<Rightarrow> bool \<Rightarrow> string \<Rightarrow> nat \<times> f64 \<times> string" where
  "leadingFraction r x scale over [] = (x, scale, [])"
| "leadingFraction r x scale over (c # s) =
     (if \<not> is_digit c then (x, scale, c # s)
      else if over \<or> (2 ^ 63 - 1) div 10 < x \<or> 2 ^ 63 < x * 10 + digit_val c then leadingFraction r x scale True s
      else leadingFraction r (x * 10 + digit_val c) (fmul r scale (Fin 10)) False s)"

definition unit_char :: "char \<Rightarrow> bool" where
  "unit_char c \<longleftrightarrow> c \<noteq> CHR ''.'' \<and> \<not> is_digit c"

definition unitMap :: "(string \<times> nat) list" where
  "unitMap = [(''ns'', 1), (''us'', 1000), (micro, 1000), ([CHR 0xCE, CHR 0xBC, CHR ''s''], 1000), (''ms'', 1000000),
     (''s'', Second), (''m'', 60 * Second), (''h'', 3600 * Second)]"

definition float_of_nat :: "rounding \<Rightarrow> nat \<Rightarrow> f64" where
  "float_of_nat r n = (if n = 0 then Zero False else r (of_nat n))"

text \<open>\<open>uint64(float64(f) * (float64(unit) / scale))\<close>.\<close>

definition fraction_nanos :: "rounding \<Rightarrow> nat \<Rightarrow> nat \<Rightarrow> f64 \<Rightarrow> nat" where
  "fraction_nanos r f unit scale = nat \<lfloor>fval (fmul r (float_of_nat r f) (fdiv r (float_of_nat r unit) scale))\<rfloor>"

text \<open>One round of the loop: a number with its unit, and the rest of the text.\<close>

definition parse_part :: "rounding \<Rightarrow> string \<Rightarrow> (nat \<times> string) option" where
  "parse_part r s =
     (if s = [] \<or> \<not> (hd s = CHR ''.'' \<or> is_digit (hd s)) then None
      else case leadingInt 0 s of
        None \<Rightarrow> None
      | Some (v, s1) \<Rightarrow>
          let (f, scale, s2) = (if s1 \<noteq> [] \<and> hd s1 = CHR ''.'' then leadingFraction r 0 (Fin 1) False (tl s1) else (0, Fin 1, s1));
              pre = (length s \<noteq> length s1);
              post = (s1 \<noteq> [] \<and> hd s1 = CHR ''.'' \<and> length (tl s1) \<noteq> length s2)
          in if \<not> pre \<and> \<not> post then None
             else if takeWhile unit_char s2 = [] then None
             else case map_of unitMap (takeWhile unit_char s2) of
                    None \<Rightarrow> None
                  | Some unit \<Rightarrow>
                      if 2 ^ 63 div unit < v then None
                      else if 0 < f then
                        (if 2 ^ 63 < v * unit + fraction_nanos r f unit scale then None
                         else Some (v * unit + fraction_nanos r f unit scale, dropWhile unit_char s2))
                      else Some (v * unit, dropWhile unit_char s2))"

lemma leadingInt_suffix: "leadingInt x s = Some (v, s') \<Longrightarrow> length s' \<le> length s"
  by (induction x s rule: leadingInt.induct) (auto split: if_splits)

lemma leadingFraction_suffix: "leadingFraction r x sc ov s = (f, sc', s') \<Longrightarrow> length s' \<le> length s"
  by (induction r x sc ov s rule: leadingFraction.induct) (auto split: if_splits)

lemma parse_part_shorter:
  assumes "parse_part r s = Some (v, s')"
  shows "length s' < length s"
proof -
  obtain n s1 where s1: "leadingInt 0 s = Some (n, s1)" using assms by (auto simp: parse_part_def split: if_splits option.splits)
  obtain f sc s2 where s2: "(if s1 \<noteq> [] \<and> hd s1 = CHR ''.'' then leadingFraction r 0 (Fin 1) False (tl s1) else (0, Fin 1, s1)) = (f, sc, s2)"
    by (metis prod_cases3)
  have "s' = dropWhile unit_char s2" "takeWhile unit_char s2 \<noteq> []"
    using assms unfolding parse_part_def s1 s2
    by (simp_all add: s2 split: if_splits option.splits)
  moreover have "length (takeWhile unit_char s2) + length (dropWhile unit_char s2) = length s2"
    by (metis length_append takeWhile_dropWhile_id)
  ultimately have "length s' < length s2" by (cases "takeWhile unit_char s2") auto
  moreover have "length s2 \<le> length s1"
    using s2 leadingFraction_suffix [of r 0 "Fin 1" False "tl s1" f sc s2] by (auto split: if_splits)
  ultimately show ?thesis using leadingInt_suffix [OF s1] by simp
qed

text \<open>The sum is a \<^verbatim>\<open>uint64\<close>.\<close>

function parse_parts :: "rounding \<Rightarrow> nat \<Rightarrow> string \<Rightarrow> nat option" where
  "parse_parts r d s =
     (if s = [] then Some d
      else case parse_part r s of
             None \<Rightarrow> None
           | Some (v, s') \<Rightarrow>
               if 2 ^ 63 < (d + v) mod 2 ^ 64 then None else parse_parts r ((d + v) mod 2 ^ 64) s')"
  by auto
termination
  by (relation "measure (\<lambda>(r, d, s). length s)") (auto dest: parse_part_shorter)

declare parse_parts.simps [simp del]

definition ParseDuration :: "rounding \<Rightarrow> string \<Rightarrow> int option" where
  "ParseDuration r s =
     (let signed = (s \<noteq> [] \<and> hd s \<in> {CHR ''-'', CHR ''+''});
          neg = (signed \<and> hd s = CHR ''-'');
          body = (if signed then tl s else s)
      in if body = ''0'' then Some 0
         else if body = [] then None
         else case parse_parts r 0 body of
                None \<Rightarrow> None
              | Some d \<Rightarrow> if neg then Some (- int d) else if 2 ^ 63 - 1 < d then None else Some (int d))"

section \<open>Fractions\<close>

lemma digit_of: "is_digit (char_of (48 + v mod 10 :: nat))" "digit_val (char_of (48 + v mod 10 :: nat)) = v mod 10"
  by (simp_all add: digit_char)

lemma digits_val_Cons: "digits_val (c # ds) = digit_val c * 10 ^ length ds + digits_val ds"
  by (induction ds rule: rev_induct) (simp_all add: digits_val_snoc digits_val_snoc [of "c # _", simplified] algebra_simps, simp add: digits_val_def)

lemma mod_step: "v div 10 mod 10 ^ n * 10 + v mod 10 = v mod (10 :: nat) ^ Suc n"
  using mod_mult2_eq [of v 10 "10 ^ n"] by simp

lemma frac_loop_True:
  "\<exists>ds. frac_loop n True w v = (True, ds @ w, v div 10 ^ n) \<and> length ds = n \<and> list_all is_digit ds \<and> digits_val ds = v mod 10 ^ n"
proof (induction n arbitrary: w v)
  case 0
  then show ?case by (simp add: digits_val_def)
next
  case (Suc n)
  let ?c = "char_of (48 + v mod 10 :: nat)"
  obtain ds where "frac_loop n True (?c # w) (v div 10) = (True, ds @ ?c # w, v div 10 div 10 ^ n)" "length ds = n"
    "list_all is_digit ds" "digits_val ds = v div 10 mod 10 ^ n"
    using Suc.IH [of "?c # w" "v div 10"] by blast
  then have "frac_loop (Suc n) True w v = (True, (ds @ [?c]) @ w, v div 10 ^ Suc n) \<and> length (ds @ [?c]) = Suc n \<and>
      list_all is_digit (ds @ [?c]) \<and> digits_val (ds @ [?c]) = v mod 10 ^ Suc n"
    using mod_step [of v n] by (simp add: digit_of digits_val_snoc div_mult2_eq)
  then show ?case by blast
qed

lemma frac_loop_False:
  "\<exists>ds. frac_loop n False w v = (v mod 10 ^ n \<noteq> 0, ds @ w, v div 10 ^ n) \<and> length ds \<le> n \<and> list_all is_digit ds \<and>
     digits_val ds * 10 ^ (n - length ds) = v mod 10 ^ n \<and> (v mod 10 ^ n = 0 \<longrightarrow> ds = [])"
proof (induction n arbitrary: w v)
  case 0
  then show ?case by (simp add: digits_val_def)
next
  case (Suc n)
  show ?case
  proof (cases "v mod 10 = 0")
    case True
    obtain ds where ds: "frac_loop n False w (v div 10) = (v div 10 mod 10 ^ n \<noteq> 0, ds @ w, v div 10 div 10 ^ n)" "length ds \<le> n"
      "list_all is_digit ds" "digits_val ds * 10 ^ (n - length ds) = v div 10 mod 10 ^ n" "v div 10 mod 10 ^ n = 0 \<longrightarrow> ds = []"
      using Suc.IH [of w "v div 10"] by (elim exE conjE) (rule that)
    have m: "v mod 10 ^ Suc n = v div 10 mod 10 ^ n * 10" using mod_step [of v n] True by simp
    have "digits_val ds * 10 ^ (Suc n - length ds) = v mod 10 ^ Suc n"
      unfolding m ds(4) [symmetric] using ds(2) by (simp add: Suc_diff_le)
    moreover have "frac_loop (Suc n) False w v = (v mod 10 ^ Suc n \<noteq> 0, ds @ w, v div 10 ^ Suc n)"
    proof -
      have "v div 10 ^ Suc n = v div 10 div 10 ^ n" by (simp add: div_mult2_eq)
      then show ?thesis unfolding m using ds(1) True by simp
    qed
    moreover have "v mod 10 ^ Suc n = 0 \<longrightarrow> ds = []" unfolding m using ds(5) by simp
    moreover have "length ds \<le> Suc n" using ds(2) by simp
    ultimately show ?thesis using ds(3) by (intro exI [of _ ds] conjI)
  next
    case False
    let ?c = "char_of (48 + v mod 10 :: nat)"
    obtain ds where "frac_loop n True (?c # w) (v div 10) = (True, ds @ ?c # w, v div 10 div 10 ^ n)" "length ds = n"
      "list_all is_digit ds" "digits_val ds = v div 10 mod 10 ^ n"
      using frac_loop_True [of n "?c # w" "v div 10"] by (elim exE conjE) (rule that)
    then show ?thesis
      using mod_step [of v n] False
      by (intro exI [of _ "ds @ [?c]"]) (simp add: digit_of digits_val_snoc div_mult2_eq)
  qed
qed

lemma fmtFrac_zero: "v mod 10 ^ n = 0 \<Longrightarrow> fmtFrac w v n = (w, v div 10 ^ n)"
  using frac_loop_False [of n w v] by (auto simp: fmtFrac_def)

lemma fmtFrac_digits:
  assumes "v mod 10 ^ n \<noteq> 0"
  obtains ds where "fmtFrac w v n = (CHR ''.'' # ds @ w, v div 10 ^ n)" "ds \<noteq> []" "length ds \<le> n" "list_all is_digit ds"
    "digits_val ds * 10 ^ (n - length ds) = v mod 10 ^ n"
proof -
  obtain ds where ds: "frac_loop n False w v = (True, ds @ w, v div 10 ^ n)" "length ds \<le> n" "list_all is_digit ds"
    "digits_val ds * 10 ^ (n - length ds) = v mod 10 ^ n"
    using frac_loop_False [of n w v] assms by auto
  then have "ds \<noteq> []" using assms by (auto simp: digits_val_def)
  with ds that show thesis by (simp add: fmtFrac_def)
qed

section \<open>Numbers with a unit\<close>

lemma leadingInt_digits:
  assumes "list_all is_digit ds" "x * 10 ^ length ds + digits_val ds \<le> 2 ^ 63" "rest = [] \<or> \<not> is_digit (hd rest)"
  shows "leadingInt x (ds @ rest) = Some (x * 10 ^ length ds + digits_val ds, rest)"
  using assms(1,2)
proof (induction ds arbitrary: x)
  case Nil
  then show ?case using assms(3) by (cases rest) (simp_all add: digits_val_def)
next
  case (Cons c ds)
  let ?x = "x * 10 + digit_val c"
  have eq: "x * 10 ^ length (c # ds) + digits_val (c # ds) = ?x * 10 ^ length ds + digits_val ds"
    by (simp add: digits_val_Cons algebra_simps)
  have "?x * 10 ^ length ds \<le> 2 ^ 63" using Cons.prems(2) unfolding eq by (rule add_leD1)
  then have "?x \<le> 2 ^ 63" by (rule order_trans [rotated]) simp
  moreover from this have "x \<le> 2 ^ 63 div 10" by simp
  ultimately show ?case
    using Cons.IH [of ?x] Cons.prems unfolding eq by simp
qed

definition integers_exact :: "rounding \<Rightarrow> bool" where
  "integers_exact r \<longleftrightarrow> (\<forall>n::nat. 0 < n \<and> n \<le> 2 ^ 53 \<longrightarrow> r (of_nat n) = Fin (of_nat n))"

lemma fmul_nats:
  assumes "integers_exact r" "0 < a" "0 < b" "a * b \<le> 2 ^ 53"
  shows "fmul r (Fin (of_nat a)) (Fin (of_nat b)) = Fin (of_nat (a * b))"
proof -
  have "0 < a * b" using assms(2,3) by simp
  then have "r (of_nat (a * b)) = Fin (of_nat (a * b))" using assms(1,4) unfolding integers_exact_def by blast
  then show ?thesis using assms(2,3) by (simp add: fmul_def finite_f_def)
qed

lemma leadingFraction_digits:
  assumes "integers_exact r" "rest = [] \<or> \<not> is_digit (hd rest)"
  shows "list_all is_digit ds \<Longrightarrow> 0 < m \<Longrightarrow> m * 10 ^ length ds \<le> Second \<Longrightarrow> x * 10 ^ length ds + digits_val ds \<le> Second \<Longrightarrow>
    leadingFraction r x (Fin (of_nat m)) False (ds @ rest) =
      (x * 10 ^ length ds + digits_val ds, Fin (of_nat (m * 10 ^ length ds)), rest)"
proof (induction ds arbitrary: x m)
  case Nil
  then show ?case using assms(2) by (cases rest) (simp_all add: digits_val_def)
next
  case (Cons c ds)
  let ?x = "x * 10 + digit_val c"
  have eq: "x * 10 ^ length (c # ds) + digits_val (c # ds) = ?x * 10 ^ length ds + digits_val ds"
    by (simp add: digits_val_Cons algebra_simps)
  have "?x * 10 ^ length ds \<le> Second" using Cons.prems(4) unfolding eq by (rule add_leD1)
  then have "?x \<le> Second" by (rule order_trans [rotated]) simp
  have "m * 10 * 10 ^ length ds \<le> Second" using Cons.prems(3) by (simp add: mult.assoc)
  then have "m * 10 \<le> Second" by (rule order_trans [rotated]) simp
  moreover note \<open>?x \<le> Second\<close>
  moreover have "fmul r (Fin (of_nat m)) (Fin 10) = Fin (of_nat (m * 10))"
    using fmul_nats [OF assms(1), of m 10] Cons.prems(2) \<open>m * 10 \<le> Second\<close> by simp
  ultimately show ?case
    using Cons.IH [of "m * 10" ?x] Cons.prems unfolding eq by (simp add: mult.assoc)
qed

lemma fdiv_nats:
  assumes "integers_exact r" "0 < a" "0 < b" "b dvd a" "a \<le> 2 ^ 53"
  shows "fdiv r (Fin (of_nat a)) (Fin (of_nat b)) = Fin (of_nat (a div b))"
proof -
  have q: "0 < a div b" "a div b \<le> 2 ^ 53" using assms by (auto elim!: dvdE intro: order_trans [OF div_le_dividend])
  then have "r (of_nat (a div b)) = Fin (of_nat (a div b))" using assms(1) unfolding integers_exact_def by blast
  moreover have "rat_of_nat a / rat_of_nat b = of_nat (a div b)" using assms(3,4) by (auto elim!: dvdE)
  ultimately show ?thesis using assms(2,3) q by (simp add: fdiv_def finite_f_def is_zero_def)
qed

lemma fraction_nanos_exact:
  assumes "integers_exact r" "0 < f" "f < 10 ^ n" "n \<le> p" "p \<le> 9"
  shows "fraction_nanos r f (10 ^ p) (Fin (of_nat (10 ^ n))) = f * 10 ^ (p - n)"
proof -
  have p: "(10::nat) ^ p \<le> 10 ^ 9" using assms(5) by (rule power_increasing) simp
  have n: "(10::nat) ^ n \<le> 10 ^ 9" using assms(4,5) by (intro power_increasing) simp_all
  have split: "(10::nat) ^ p = 10 ^ n * 10 ^ (p - n)" using assms(4) by (simp flip: power_add)
  then have div: "(10::nat) ^ p div 10 ^ n = 10 ^ (p - n)" and dvd: "(10::nat) ^ n dvd 10 ^ p" by simp_all
  have "f * 10 ^ (p - n) \<le> 10 ^ p" unfolding split using assms(3) by simp
  then have le: "f * 10 ^ (p - n) \<le> 2 ^ 53" using p by simp
  have "float_of_nat r f = Fin (of_nat f)" "float_of_nat r (10 ^ p) = Fin (of_nat (10 ^ p))"
    using assms(1) [unfolded integers_exact_def, rule_format, of f]
      assms(1) [unfolded integers_exact_def, rule_format, of "10 ^ p"] assms(2,3) n p
    by (simp_all add: float_of_nat_def)
  moreover have "fdiv r (Fin (of_nat (10 ^ p))) (Fin (of_nat (10 ^ n))) = Fin (of_nat (10 ^ (p - n)))"
    using fdiv_nats [OF assms(1) _ _ dvd] p div by simp
  moreover have "fmul r (Fin (of_nat f)) (Fin (of_nat (10 ^ (p - n)))) = Fin (of_nat (f * 10 ^ (p - n)))"
    using fmul_nats [OF assms(1,2) _ le] by simp
  ultimately show ?thesis by (simp add: fraction_nanos_def del: of_nat_power of_nat_mult)
qed

lemma unit_split:
  assumes "list_all unit_char u" "rest = [] \<or> \<not> unit_char (hd rest)"
  shows "takeWhile unit_char (u @ rest) = u" "dropWhile unit_char (u @ rest) = rest"
  using assms by (cases rest; simp add: list_all_iff takeWhile_append2 dropWhile_append2)+

lemma unit_hd: "list_all unit_char u \<Longrightarrow> u \<noteq> [] \<Longrightarrow> \<not> is_digit (hd u) \<and> hd u \<noteq> CHR ''.''"
  by (cases u) (simp_all add: unit_char_def)

lemma parse_part_int:
  assumes "list_all is_digit ds" "ds \<noteq> []" "list_all unit_char u" "u \<noteq> []" "rest = [] \<or> \<not> unit_char (hd rest)"
    and "map_of unitMap u = Some k" "0 < k" "digits_val ds * k \<le> 2 ^ 63"
  shows "parse_part r (ds @ u @ rest) = Some (digits_val ds * k, rest)"
proof -
  have v: "digits_val ds \<le> 2 ^ 63 div k" using assms(7,8) by (simp add: less_eq_div_iff_mult_less_eq)
  then have "digits_val ds \<le> 2 ^ 63" by (rule order_trans) simp
  then have "leadingInt 0 (ds @ u @ rest) = Some (digits_val ds, u @ rest)"
    using leadingInt_digits [OF assms(1), of 0 "u @ rest"] unit_hd [OF assms(3,4)] assms(4) by simp
  moreover have "is_digit (hd (ds @ u @ rest))" using assms(1,2) by (cases ds) simp_all
  ultimately show ?thesis
    using assms(2,4,6) v unit_hd [OF assms(3,4)] unit_split [OF assms(3,5)] by (simp add: parse_part_def)
qed

lemma parse_part_frac:
  assumes "integers_exact r" "list_all is_digit ds" "ds \<noteq> []" "list_all is_digit fs" "fs \<noteq> []" "0 < digits_val fs" "digits_val fs < 10 ^ length fs"
    and "length fs \<le> p" "p \<le> 9" "list_all unit_char u" "u \<noteq> []" "map_of unitMap u = Some (10 ^ p)"
    and "digits_val ds * 10 ^ p + digits_val fs * 10 ^ (p - length fs) \<le> 2 ^ 63"
  shows "parse_part r (ds @ CHR ''.'' # fs @ u) = Some (digits_val ds * 10 ^ p + digits_val fs * 10 ^ (p - length fs), [])"
proof -
  have p9: "(10::nat) ^ length fs \<le> 10 ^ 9" using assms(8,9) by (intro power_increasing) simp_all
  have "digits_val ds * 10 ^ p \<le> 2 ^ 63" using assms(13) by (rule add_leD1)
  then have v: "digits_val ds \<le> 2 ^ 63 div 10 ^ p" by (simp add: less_eq_div_iff_mult_less_eq)
  then have "digits_val ds \<le> 2 ^ 63" by (rule order_trans) simp
  then have "leadingInt 0 (ds @ CHR ''.'' # fs @ u) = Some (digits_val ds, CHR ''.'' # fs @ u)"
    using leadingInt_digits [OF assms(2), of 0 "CHR ''.'' # fs @ u"] by (simp add: is_digit_def)
  moreover have "leadingFraction r 0 (Fin 1) False (fs @ u) = (digits_val fs, Fin (of_nat (10 ^ length fs)), u)"
    using leadingFraction_digits [OF assms(1) _ assms(4), of u 1 0] unit_hd [OF assms(10,11)] p9 assms(7) by simp
  moreover have "is_digit (hd (ds @ CHR ''.'' # fs @ u))" using assms(2,3) by (cases ds) simp_all
  moreover have "fraction_nanos r (digits_val fs) (10 ^ p) (Fin (of_nat (10 ^ length fs))) = digits_val fs * 10 ^ (p - length fs)"
    by (rule fraction_nanos_exact [OF assms(1,6,7,8,9)])
  moreover have "takeWhile unit_char u = u" "dropWhile unit_char u = []" using unit_split [OF assms(10), of "[]"] by simp_all
  ultimately show ?thesis
    using assms(3,5,6,11,12,13) v by (simp add: parse_part_def del: of_nat_power takeWhile_eq_all_conv dropWhile_eq_Nil_conv)
qed

lemma digits_val_less: "list_all is_digit ds \<Longrightarrow> digits_val ds < 10 ^ length ds"
proof (induction ds)
  case Nil
  then show ?case by (simp add: digits_val_def)
next
  case (Cons c ds)
  have "of_char c \<le> (57::nat)" using Cons.prems by (simp add: is_digit_def)
  then have "digit_val c \<le> 9" unfolding digit_val_def by linarith
  then have "digit_val c * 10 ^ length ds \<le> 9 * 10 ^ length ds" by (rule mult_le_mono1)
  moreover have "digits_val ds < 10 ^ length ds" using Cons by simp
  ultimately show ?case unfolding digits_val_Cons list.size(4) add_Suc_right power_Suc add_0_right by linarith
qed

text \<open>A number and the fraction \<^verbatim>\<open>fmtFrac\<close> writes behind it, with a decimal unit.\<close>

lemma parse_decimal:
  assumes "integers_exact r" "p \<le> 9" "list_all unit_char u" "u \<noteq> []" "map_of unitMap u = Some (10 ^ p)"
    and "m * 10 ^ p + n mod 10 ^ p \<le> 2 ^ 63"
  shows "parse_part r (nat_digits m @ fst (fmtFrac u n p)) = Some (m * 10 ^ p + n mod 10 ^ p, [])"
proof -
  have m: "list_all is_digit (nat_digits m)" "nat_digits m \<noteq> []" "digits_val (nat_digits m) = m" using nat_digits_ok by simp_all
  show ?thesis
  proof (cases "n mod 10 ^ p = 0")
    case True
    then show ?thesis
      using parse_part_int [OF m(1,2) assms(3,4), of "[]" "10 ^ p" r] assms(5,6) m(3) by (simp add: fmtFrac_zero)
  next
    case False
    obtain fs where fs: "fmtFrac u n p = (CHR ''.'' # fs @ u, n div 10 ^ p)" "fs \<noteq> []" "length fs \<le> p" "list_all is_digit fs"
      "digits_val fs * 10 ^ (p - length fs) = n mod 10 ^ p"
      by (rule fmtFrac_digits [OF False])
    have pos: "0 < digits_val fs" using fs(5) False by (cases "digits_val fs") auto
    have le: "digits_val (nat_digits m) * 10 ^ p + digits_val fs * 10 ^ (p - length fs) \<le> 2 ^ 63"
      using assms(6) fs(5) m(3) by simp
    show ?thesis
      using parse_part_frac [OF assms(1) m(1,2) fs(4,2) pos digits_val_less [OF fs(4)] fs(3) assms(2-5) le] fs(1,5) m(3) by simp
  qed
qed

lemma snd_fmtFrac: "snd (fmtFrac w v n) = v div 10 ^ n"
proof (cases "v mod 10 ^ n = 0")
  case True
  then show ?thesis by (simp add: fmtFrac_zero)
next
  case False
  then obtain ds where "fmtFrac w v n = (CHR ''.'' # ds @ w, v div 10 ^ n)" by (rule fmtFrac_digits)
  then show ?thesis by simp
qed

lemma units:
  "map_of unitMap ''ns'' = Some (10 ^ 0)" "map_of unitMap micro = Some (10 ^ 3)" "map_of unitMap ''ms'' = Some (10 ^ 6)"
  "map_of unitMap ''s'' = Some (10 ^ 9)" "map_of unitMap ''m'' = Some (60 * Second)" "map_of unitMap ''h'' = Some (3600 * Second)"
  by (simp_all add: unitMap_def micro_def)

lemma unit_texts:
  "list_all unit_char ''ns''" "list_all unit_char micro" "list_all unit_char ''ms''" "list_all unit_char ''s''"
  "list_all unit_char ''m''" "list_all unit_char ''h''"
  by (simp_all add: unit_char_def is_digit_def micro_def)

lemma parse_parts_step:
  assumes "parse_part r s = Some (v, s')" "d + v \<le> 2 ^ 63"
  shows "parse_parts r d s = parse_parts r (d + v) s'"
proof -
  have "s \<noteq> []" using assms(1) by (auto simp: parse_part_def)
  moreover have "(d + v) mod 2 ^ 64 = d + v" using assms(2) by simp
  ultimately show ?thesis using assms by (simp add: parse_parts.simps [of r d s])
qed

lemma parse_parts_Nil [simp]: "parse_parts r d [] = Some d"
  by (simp add: parse_parts.simps)

lemma small_text_parses:
  assumes "integers_exact r" "p \<le> 9" "list_all unit_char unit" "unit \<noteq> []" "map_of unitMap unit = Some (10 ^ p)" "u \<le> 2 ^ 63"
  shows "parse_parts r 0 (small_text unit u p) = Some u"
proof -
  have eq: "u div 10 ^ p * 10 ^ p + u mod 10 ^ p = u" by (rule div_mult_mod_eq)
  have "small_text unit u p = nat_digits (u div 10 ^ p) @ fst (fmtFrac unit u p)"
    using snd_fmtFrac [of unit u p] by (cases "fmtFrac unit u p") (simp add: small_text_def)
  moreover have "parse_part r (nat_digits (u div 10 ^ p) @ fst (fmtFrac unit u p)) = Some (u, [])"
    using parse_decimal [OF assms(1-5), of "u div 10 ^ p" u] assms(6) unfolding eq by simp
  ultimately show ?thesis using parse_parts_step [of r _ u "[]" 0] assms(6) by simp
qed

lemma parse_number_unit:
  assumes "map_of unitMap [c] = Some k" "unit_char c" "0 < k" "n * k \<le> 2 ^ 63" "rest \<noteq> []" "\<not> unit_char (hd rest)"
  shows "parse_part r (nat_digits n @ c # rest) = Some (n * k, rest)"
  using parse_part_int [of "nat_digits n" "[c]" rest k r] nat_digits_ok [of n] assms by simp

lemma hd_digits: "nat_digits n @ w \<noteq> []" "\<not> unit_char (hd (nat_digits n @ w))"
  using nat_digits_ok [of n] by (cases "nat_digits n"; simp add: unit_char_def)+

lemma hms_sum: "h * 3600 + m * 60 + s = t \<Longrightarrow> t * 10 ^ 9 + r = u \<Longrightarrow> h * (3600 * Second) + m * (60 * Second) + (s * 10 ^ 9 + r) = u"
  by simp

lemma small_parses:
  assumes "integers_exact r" "u \<le> 2 ^ 63" "u < Second"
  shows "parse_parts r 0 (text_of_nanos u) = Some u"
proof (cases "u = 0")
  case True
  have "''0s'' = small_text ''s'' 0 9" by (simp add: small_text_def fmtFrac_zero nat_digits.simps) code_simp
  with small_text_parses [OF assms(1) _ unit_texts(4) _ units(4), of 0] True show ?thesis by (simp add: text_of_nanos_def)
next
  case False
  then show ?thesis
    using small_text_parses [OF assms(1) _ unit_texts(1) _ units(1) assms(2)] small_text_parses [OF assms(1) _ unit_texts(2) _ units(2) assms(2)]
      small_text_parses [OF assms(1) _ unit_texts(3) _ units(3) assms(2)] assms(3)
    by (simp add: text_of_nanos_def micro_def)
qed

lemma large_parses:
  assumes "integers_exact r" "u \<le> 2 ^ 63" "\<not> u < Second"
  shows "parse_parts r 0 (text_of_nanos u) = Some u"
proof -
  let ?s = "u div 10 ^ 9" and ?w = "fst (fmtFrac ''s'' u 9)"
  let ?m = "?s div 60" let ?h = "?m div 60"
  have s: "snd (fmtFrac ''s'' u 9) = ?s" by (rule snd_fmtFrac)
  have u: "?s * 10 ^ 9 + u mod 10 ^ 9 = u" by (rule div_mult_mod_eq)
  have parts: "?h * 3600 + ?m mod 60 * 60 + ?s mod 60 = ?s"
    using div_mult_mod_eq [of ?s 60] div_mult_mod_eq [of ?m 60] by linarith
  let ?hs = "?h * (3600 * Second)" and ?ms = "?m mod 60 * (60 * Second)" and ?ss = "?s mod 60 * 10 ^ 9 + u mod 10 ^ 9"
  have sum: "?hs + ?ms + ?ss = u" using hms_sum [OF parts u] by simp
  have secs: "parse_part r (nat_digits (?s mod 60) @ ?w) = Some (?ss, [])"
    by (rule parse_decimal [OF assms(1) _ unit_texts(4) _ units(4)]) (use sum assms(2) in simp_all)
  have mins: "parse_part r (nat_digits (?m mod 60) @ CHR ''m'' # nat_digits (?s mod 60) @ ?w) = Some (?ms, nat_digits (?s mod 60) @ ?w)"
    by (rule parse_number_unit [OF units(5) _ _ _ hd_digits]) (use sum assms(2) unit_texts in simp_all)
  have hours: "parse_part r (nat_digits ?h @ CHR ''h'' # nat_digits (?m mod 60) @ CHR ''m'' # nat_digits (?s mod 60) @ ?w) =
      Some (?hs, nat_digits (?m mod 60) @ CHR ''m'' # nat_digits (?s mod 60) @ ?w)"
    by (rule parse_number_unit [OF units(6) _ _ _ hd_digits]) (use sum assms(2) unit_texts in simp_all)
  have txt_eq: "text_of_nanos u =
      (if 0 < ?m then
         if 0 < ?h then nat_digits ?h @ CHR ''h'' # nat_digits (?m mod 60) @ CHR ''m'' # nat_digits (?s mod 60) @ ?w
         else nat_digits (?m mod 60) @ CHR ''m'' # nat_digits (?s mod 60) @ ?w
       else nat_digits (?s mod 60) @ ?w)"
  proof -
    obtain w where "fmtFrac ''s'' u 9 = (w, ?s)" using s by (cases "fmtFrac ''s'' u 9") simp
    then show ?thesis using assms(3) unfolding text_of_nanos_def Let_def by simp
  qed
  have 1: "parse_parts r d (nat_digits (?s mod 60) @ ?w) = Some u" if "d + ?ss = u" for d
    using parse_parts_step [OF secs, of d] that assms(2) by simp
  have 2: "parse_parts r d (nat_digits (?m mod 60) @ CHR ''m'' # nat_digits (?s mod 60) @ ?w) = Some u" if "d + ?ms + ?ss = u" for d
  proof -
    have "d + ?ms \<le> 2 ^ 63" using that assms(2) by linarith
    from parse_parts_step [OF mins this] 1 [OF that] show ?thesis by simp
  qed
  have 3: "parse_parts r 0 (nat_digits ?h @ CHR ''h'' # nat_digits (?m mod 60) @ CHR ''m'' # nat_digits (?s mod 60) @ ?w) = Some u"
  proof -
    have "0 + ?hs \<le> 2 ^ 63" using sum assms(2) by linarith
    from parse_parts_step [OF hours this] 2 [of "0 + ?hs"] sum show ?thesis by simp
  qed
  show ?thesis
  proof (cases "0 < ?h")
    case True
    then have "0 < ?m" by simp
    with True 3 txt_eq show ?thesis by simp
  next
    case h: False
    then have ms: "0 + ?ms + ?ss = u" using sum by (simp only: not_gr_zero mult_zero_left)
    show ?thesis
    proof (cases "0 < ?m")
      case True
      then show ?thesis using 2 [OF ms] h unfolding txt_eq by (simp only: if_True if_False)
    next
      case False
      then have "0 + ?ss = u" using ms by (simp only: not_gr_zero mod_0 mult_zero_left)
      then show ?thesis using 1 False unfolding txt_eq by (simp only: if_False)
    qed
  qed
qed

lemma text_of_nanos_parses:
  assumes "integers_exact r" "u \<le> 2 ^ 63"
  shows "parse_parts r 0 (text_of_nanos u) = Some u"
  using small_parses [OF assms] large_parses [OF assms] by blast

lemma text_of_nanos_digits: "\<exists>n w. text_of_nanos u = nat_digits n @ w"
proof -
  have "''0s'' = nat_digits 0 @ ''s''" by (simp add: nat_digits.simps) code_simp
  then have zero: "\<exists>n w. ''0s'' = nat_digits n @ w" by blast
  have small: "\<exists>n w. small_text t u p = nat_digits n @ w" for t p
    by (auto simp: small_text_def split: prod.splits)
  show ?thesis
    using zero small by (auto simp: text_of_nanos_def Let_def split: prod.splits)
qed

lemma ParseDuration_text:
  assumes "integers_exact r" "- (2 ^ 63) \<le> d" "d < 2 ^ 63"
  shows "ParseDuration r (Duration_String d) = Some d"
proof -
  let ?u = "nat \<bar>d\<bar>"
  have "\<bar>d\<bar> \<le> 2 ^ 63" using assms(2,3) by auto
  then have u: "?u \<le> 2 ^ 63" by (simp add: nat_le_iff)
  note parses = text_of_nanos_parses [OF assms(1) u]
  obtain n w where nw: "text_of_nanos ?u = nat_digits n @ w" using text_of_nanos_digits by blast
  have hd: "text_of_nanos ?u \<noteq> []" "hd (text_of_nanos ?u) \<notin> {CHR ''-'', CHR ''+''}"
    using nat_digits_ok [of n] nat_digits_hd [of n] unfolding nw by auto
  have "parse_parts r 0 ''0'' = None"
    by (simp add: parse_parts.simps parse_part_def is_digit_def digit_val_def)
  then have not0: "text_of_nanos ?u \<noteq> ''0''" using parses by auto
  show ?thesis
  proof (cases "d < 0")
    case True
    then have "Duration_String d = CHR ''-'' # text_of_nanos ?u" by (simp add: Duration_String_def)
    with parses hd not0 True show ?thesis by (simp add: ParseDuration_def)
  next
    case False
    then have "Duration_String d = text_of_nanos ?u" by (simp add: Duration_String_def)
    moreover have "?u < 2 ^ 63" using assms(3) False by (simp add: nat_less_iff)
    ultimately show ?thesis using parses hd not0 False by (simp add: ParseDuration_def)
  qed
qed

section \<open>The codecs\<close>

text \<open>
  What \<^verbatim>\<open>json.Unmarshal\<close> stores in an interface; \<open>quote\<close> is \<^verbatim>\<open>json.Marshal\<close> of a text, \<open>json\<close> the decoder, \<open>yaml\<close> is \<^verbatim>\<open>yaml.Marshal\<close> of a
  text, whose bytes \<^verbatim>\<open>MarshalYAML\<close> hands to the encoder as the value. The conversion of a float to an integer drops the
  fraction; outside the range of the integer it is left to the platform, the argument \<open>conv\<close>.
\<close>

datatype json_any = JFloat f64 | JText string | JElse

definition Duration_MarshalJSON :: "(string \<Rightarrow> string) \<Rightarrow> int \<Rightarrow> string" where
  "Duration_MarshalJSON quote d = quote (Duration_String d)"

definition Duration_MarshalYAML :: "(string \<Rightarrow> string) \<Rightarrow> int \<Rightarrow> string" where
  "Duration_MarshalYAML yaml d = yaml (Duration_String d)"

definition Duration_UnmarshalJSON ::
  "rounding \<Rightarrow> (f64 \<Rightarrow> int) \<Rightarrow> (string \<Rightarrow> (string, json_any) result) \<Rightarrow> string \<Rightarrow> (string, int) result" where
  "Duration_UnmarshalJSON r conv json b =
     (case json b of
        Inl e \<Rightarrow> Inl e
      | Inr (JFloat x) \<Rightarrow> Inr (conv x)
      | Inr (JText s) \<Rightarrow> (case ParseDuration r s of None \<Rightarrow> Inl (''time: invalid duration '' @ s) | Some d \<Rightarrow> Inr d)
      | Inr JElse \<Rightarrow> Inl ''invalid duration'')"

text \<open>
  C38. Durations survive JSON. Every duration of 64 bits, written as its text and read back, is the same to the nanosecond, whatever units and fraction the text
  uses; all that is needed of floats is that integers up to two to the power 53 are exact, and of the JSON codec that it returns the text it was given.
\<close>

theorem duration_roundtrip:
  assumes "integers_exact r" "- (2 ^ 63) \<le> d" "d < 2 ^ 63"
    and "json (quote (Duration_String d)) = Inr (JText (Duration_String d))"
  shows "Duration_UnmarshalJSON r conv json (Duration_MarshalJSON quote d) = Inr d"
  using ParseDuration_text [OF assms(1-3)] assms(4) by (simp add: Duration_UnmarshalJSON_def Duration_MarshalJSON_def)

theorem duration_roundtrip_witness:
  "Duration_UnmarshalJSON Fin (\<lambda>_. 0) (Inr \<circ> JText) (Duration_MarshalJSON id (- 3723004005006)) = Inr (- 3723004005006)"
  by (rule duration_roundtrip) (simp_all add: integers_exact_def)

end
