(* ===== verification/Http_Client.thy ===== *)
theory Http_Client
  imports Utils_Cert Go_Strconv
begin

text \<open>
  The HTTP client and server helpers: \<^verbatim>\<open>http/client.go\<close>, \<^verbatim>\<open>http/options.go\<close>, \<^verbatim>\<open>http/responses.go\<close>
  and \<^verbatim>\<open>http/server.go\<close>. Of the standard library the model writes out header maps with their
  canonical keys and the checks of \<^verbatim>\<open>NewRequest\<close>; the URL parser, the network (\<^verbatim>\<open>http.Client.Do\<close>,
  \<^verbatim>\<open>net.Listen\<close>), the JSON codec and the package \<^verbatim>\<open>fasthttp\<close> are arguments.
\<close>

named_theorems http_defs \<open>definitions of the HTTP model\<close>

section \<open>Header maps\<close>

text \<open>
  \<^verbatim>\<open>http.Header\<close> maps canonical keys to lists of values. A key all of whose bytes are token
  bytes is written with a capital at the start and after each hyphen; any other is left alone.
\<close>

type_synonym http_Header = "string \<rightharpoonup> string list"

definition is_lower :: "char \<Rightarrow> bool" where
  "is_lower c = ((97::nat) \<le> of_char c \<and> of_char c \<le> (122::nat))"

definition is_upper :: "char \<Rightarrow> bool" where
  "is_upper c = ((65::nat) \<le> of_char c \<and> of_char c \<le> (90::nat))"

definition byte_upper :: "char \<Rightarrow> char" where
  "byte_upper c = (if is_lower c then char_of (of_char c - (32::nat)) else c)"

definition token_byte :: "char \<Rightarrow> bool" where
  "token_byte c = (is_lower c \<or> is_upper c \<or> ((48::nat) \<le> of_char c \<and> of_char c \<le> (57::nat)) \<or>
     c \<in> set ''!#$%&*+-.^_|~'' \<or> of_char c \<in> {39::nat, 96})"

fun canonical :: "bool \<Rightarrow> string \<Rightarrow> string" where
  "canonical up [] = []"
| "canonical up (c # cs) =
     (let c' = if up then byte_upper c else byte_lower c in c' # canonical (c' = CHR ''-'') cs)"

definition CanonicalMIMEHeaderKey :: "string \<Rightarrow> string" where
  "CanonicalMIMEHeaderKey s = (if list_all token_byte s then canonical True s else s)"

definition Header_Set :: "http_Header \<Rightarrow> string \<Rightarrow> string \<Rightarrow> http_Header" where
  "Header_Set h k v = h(CanonicalMIMEHeaderKey k \<mapsto> [v])"

definition Header_Get :: "http_Header \<Rightarrow> string \<Rightarrow> string" where
  "Header_Get h k = (case h (CanonicalMIMEHeaderKey k) of Some (v # vs) \<Rightarrow> v | _ \<Rightarrow> [])"

definition strings_TrimRight :: "char \<Rightarrow> string \<Rightarrow> string" where
  "strings_TrimRight c s = rev (dropWhile ((=) c) (rev s))"

lemma canonical_content_type [simp]:
  "CanonicalMIMEHeaderKey ''Content-Type'' = ''Content-Type''"
  "CanonicalMIMEHeaderKey ''content-type'' = ''Content-Type''"
  by code_simp+

lemma Get_Set [simp]: "Header_Get (Header_Set h k v) k = v"
  by (simp add: Header_Get_def Header_Set_def)

lemma TrimRight_split: "\<exists>n. s = strings_TrimRight c s @ replicate n c"
proof -
  have "s = strings_TrimRight c s @ rev (takeWhile ((=) c) (rev s))"
    unfolding strings_TrimRight_def rev_append [symmetric] takeWhile_dropWhile_id by simp
  moreover have "takeWhile ((=) c) (rev s) = replicate (length (takeWhile ((=) c) (rev s))) c"
    by (rule replicate_length_same [symmetric]) (auto dest: set_takeWhileD)
  ultimately show ?thesis by (metis rev_replicate)
qed

lemma TrimRight_last: "strings_TrimRight c s \<noteq> [] \<Longrightarrow> last (strings_TrimRight c s) \<noteq> c"
  by (metis (full_types) hd_dropWhile last_rev rev_is_Nil_conv strings_TrimRight_def)

lemma TrimRight_Nil: "strings_TrimRight c s = [] \<longleftrightarrow> set s \<subseteq> {c}"
  unfolding strings_TrimRight_def rev_is_Nil_conv dropWhile_eq_Nil_conv set_rev by auto

section \<open>Options\<close>

text \<open>Durations are in nanoseconds, as \<^verbatim>\<open>time.Duration\<close> is.\<close>

abbreviation (input) Second :: int where
  "Second \<equiv> 1000000000"

record 'tls HttpClientOptions =
  ho_Address :: string
  ho_TLSConfig :: "'tls option"
  ho_Timeout :: int
  ho_KeepAlive :: int
  ho_MaxIdleConns :: int
  ho_IdleConnTimeout :: int
  ho_TLSHandshakeTimeout :: int
  ho_ExpectContinueTimeout :: int

definition NewHttpClientOptions :: "'tls HttpClientOptions" where
  "NewHttpClientOptions = \<lparr>ho_Address = [], ho_TLSConfig = None, ho_Timeout = 30 * Second,
     ho_KeepAlive = 30 * Second, ho_MaxIdleConns = 100, ho_IdleConnTimeout = 90 * Second,
     ho_TLSHandshakeTimeout = 10 * Second, ho_ExpectContinueTimeout = 1 * Second\<rparr>"

record HttpClientConfig =
  hc_Address :: string
  hc_Timeout :: int
  hc_KeepAlive :: int
  hc_MaxIdleConns :: int
  hc_IdleConnTimeout :: int
  hc_TLSHandshakeTimeout :: int
  hc_ExpectContinueTimeout :: int
  hc_Certificate :: Certificate

definition HttpToClientOptions ::
  "(tls_options \<Rightarrow> (string, 'tls) result) \<Rightarrow> HttpClientConfig \<Rightarrow>
     (string, 'tls HttpClientOptions) result" where
  "HttpToClientOptions tlsconfig_Client cc =
     rbind (NewTLSConfigClient tlsconfig_Client (hc_Certificate cc))
       (\<lambda>tls. Inr \<lparr>ho_Address = hc_Address cc, ho_TLSConfig = Some tls, ho_Timeout = hc_Timeout cc,
          ho_KeepAlive = hc_KeepAlive cc, ho_MaxIdleConns = hc_MaxIdleConns cc,
          ho_IdleConnTimeout = hc_IdleConnTimeout cc,
          ho_TLSHandshakeTimeout = hc_TLSHandshakeTimeout cc,
          ho_ExpectContinueTimeout = hc_ExpectContinueTimeout cc\<rparr>)"

section \<open>The client\<close>

record 'tls gohttp_Client =
  gh_Timeout :: int
  tr_DialTimeout :: int
  tr_KeepAlive :: int
  tr_TLSClientConfig :: "'tls option"
  tr_MaxIdleConns :: int
  tr_IdleConnTimeout :: int
  tr_TLSHandshakeTimeout :: int
  tr_ExpectContinueTimeout :: int

record 'tls HttpClient =
  cl_ops :: "'tls HttpClientOptions"
  cl_http :: "'tls gohttp_Client"

definition NewHttpClient :: "'tls HttpClientOptions \<Rightarrow> 'tls HttpClient" where
  "NewHttpClient ops =
     \<lparr>cl_ops = ops,
      cl_http = \<lparr>gh_Timeout = ho_Timeout ops, tr_DialTimeout = ho_Timeout ops,
        tr_KeepAlive = ho_KeepAlive ops, tr_TLSClientConfig = ho_TLSConfig ops,
        tr_MaxIdleConns = ho_MaxIdleConns ops, tr_IdleConnTimeout = ho_IdleConnTimeout ops,
        tr_TLSHandshakeTimeout = ho_TLSHandshakeTimeout ops,
        tr_ExpectContinueTimeout = ho_ExpectContinueTimeout ops\<rparr>\<rparr>"

record http_Request =
  rq_Method :: string
  rq_URL :: string
  rq_Body :: "string option"
  rq_Header :: http_Header

text \<open>The body of a response is what reading it gives: the bytes read and the read error.\<close>

record http_Response =
  rs_StatusCode :: int
  rs_Status :: string
  rs_Body :: "string \<times> string option"

text \<open>
  What the client calls: \<open>URL_Parse\<close> is the URL check of \<^verbatim>\<open>gohttp.NewRequest\<close>, \<open>Do\<close> one exchange
  over the network.
\<close>

record 'tls http_net =
  URL_Parse :: "string \<Rightarrow> string option"
  Do :: "'tls gohttp_Client \<Rightarrow> http_Request \<Rightarrow> (string, http_Response) result"

definition NewRequest ::
  "(string \<Rightarrow> string option) \<Rightarrow> string \<Rightarrow> string \<Rightarrow> string option \<Rightarrow> (string, http_Request) result" where
  "NewRequest parse method url body =
     (let method = (if method = [] then ''GET'' else method)
      in if \<not> list_all token_byte method then Inl ''net/http: invalid method''
         else case parse url of
                Some e \<Rightarrow> Inl e
              | None \<Rightarrow> Inr \<lparr>rq_Method = method, rq_URL = url, rq_Body = body, rq_Header = Map.empty\<rparr>)"

text \<open>A header argument is a Go map in the order \<^verbatim>\<open>range\<close> visits it.\<close>

type_synonym header_arg = "(string \<times> string) list"

definition set_headers :: "http_Header \<Rightarrow> header_arg list \<Rightarrow> http_Header" where
  "set_headers h hs = foldl (\<lambda>h v. foldl (\<lambda>h (kk, vv). Header_Set h kk vv) h v) h hs"

definition resolve_url :: "'tls HttpClient \<Rightarrow> string \<Rightarrow> string" where
  "resolve_url c url =
     (if \<not> strings_HasPrefix url ''http'' then ho_Address (cl_ops c) @ ''/'' @ url else url)"

definition SendUrl ::
  "'tls http_net \<Rightarrow> 'tls HttpClient \<Rightarrow> string \<Rightarrow> string \<Rightarrow> string option \<Rightarrow> header_arg list \<Rightarrow>
     (string, http_Response) result" where
  "SendUrl net c method url body header =
     rbind (NewRequest (URL_Parse net) method (resolve_url c url) body)
       (\<lambda>req. Do net (cl_http c) (req\<lparr>rq_Header := set_headers (rq_Header req) header\<rparr>))"

definition GetURL where
  "GetURL net c url header = SendUrl net c ''GET'' url None header"

definition DeleteURL where
  "DeleteURL net c url header = SendUrl net c ''DELETE'' url None header"

definition PostURL where
  "PostURL net c url body header = SendUrl net c ''POST'' url body header"

definition PutURL where
  "PutURL net c url body header = SendUrl net c ''PUT'' url body header"

definition jsonHeaders :: header_arg where
  "jsonHeaders = [(''Content-Type'', ''application/json'')]"

text \<open>
  A function that returns data and error gives both: the data is there even when the status is
  an error.
\<close>

type_synonym data_err = "string option \<times> string option"

definition response_message :: "http_Response \<Rightarrow> string" where
  "response_message r =
     (let msg = strings_TrimRight (CHR 0x0A) (fst (rs_Body r)) in if msg = [] then rs_Status r else msg)"

definition HandleResponse :: "http_Response \<Rightarrow> data_err" where
  "HandleResponse r =
     (let (data, err) = rs_Body r
      in (Some data,
          if rs_StatusCode r \<noteq> 200
          then Some (''['' @ int_text (rs_StatusCode r) @ ''] '' @ response_message r) else err))"

definition handle_result :: "(string, http_Response) result \<Rightarrow> data_err" where
  "handle_result res = (case res of Inl e \<Rightarrow> (None, Some e) | Inr r \<Rightarrow> HandleResponse r)"

definition Call :: "'tls http_net \<Rightarrow> 'tls HttpClient \<Rightarrow> string \<Rightarrow> string \<Rightarrow> data_err" where
  "Call net c function payload = handle_result (PostURL net c function (Some payload) [jsonHeaders])"

definition PostJSON ::
  "'tls http_net \<Rightarrow> 'tls HttpClient \<Rightarrow> string \<Rightarrow> string \<Rightarrow> header_arg list \<Rightarrow> data_err" where
  "PostJSON net c url payload headers =
     handle_result (PostURL net c url (Some payload) (headers @ [jsonHeaders]))"

definition GetJSON :: "'tls http_net \<Rightarrow> 'tls HttpClient \<Rightarrow> string \<Rightarrow> header_arg list \<Rightarrow> data_err" where
  "GetJSON net c url headers = handle_result (GetURL net c url (headers @ [jsonHeaders]))"

lemmas [http_defs] = GetURL_def DeleteURL_def PostURL_def PutURL_def Call_def PostJSON_def GetJSON_def

section \<open>What is sent and what is returned\<close>

text \<open>The flat list of all settings decides: for each key the last one wins.\<close>

definition last_setting :: "header_arg \<Rightarrow> string \<Rightarrow> string list option" where
  "last_setting kvs k =
     map_option (\<lambda>v. [v]) (map_of (rev (map (\<lambda>(kk, vv). (CanonicalMIMEHeaderKey kk, vv)) kvs)) k)"

lemma last_setting_append:
  "last_setting (xs @ ys) k = (case last_setting ys k of None \<Rightarrow> last_setting xs k | Some v \<Rightarrow> Some v)"
  by (simp add: last_setting_def map_add_def split: option.splits)

lemma last_setting_single:
  "last_setting [(kk, vv)] k = (if CanonicalMIMEHeaderKey kk = k then Some [vv] else None)"
  by (simp add: last_setting_def)

lemma set_headers_concat: "set_headers h hs = foldl (\<lambda>h (kk, vv). Header_Set h kk vv) h (concat hs)"
  unfolding set_headers_def by (induction hs arbitrary: h) auto

lemma foldl_Header_Set:
  "foldl (\<lambda>h (kk, vv). Header_Set h kk vv) h kvs k =
     (case last_setting kvs k of None \<Rightarrow> h k | Some v \<Rightarrow> Some v)"
proof (induction kvs arbitrary: h)
  case (Cons kv kvs)
  obtain kk vv where "kv = (kk, vv)" by (cases kv)
  with Cons [of "Header_Set h kk vv"] last_setting_append [of "[kv]" kvs k] show ?case
    by (auto simp: last_setting_single Header_Set_def split: option.splits)
qed (simp add: last_setting_def)

lemma set_headers_lookup: "set_headers Map.empty hs k = last_setting (concat hs) k"
  by (simp add: set_headers_concat foldl_Header_Set split: option.splits)

lemma SendUrl_ok:
  assumes "m \<noteq> []" "list_all token_byte m" "URL_Parse net (resolve_url c url) = None"
  shows "SendUrl net c m url body hs = Do net (cl_http c)
    \<lparr>rq_Method = m, rq_URL = resolve_url c url, rq_Body = body, rq_Header = set_headers Map.empty hs\<rparr>"
  using assms by (simp add: SendUrl_def NewRequest_def)

lemma methods_valid [simp]:
  "list_all token_byte ''GET''" "list_all token_byte ''POST''"
  "list_all token_byte ''PUT''" "list_all token_byte ''DELETE''"
  by code_simp+

lemma handle_result_HandleResponse:
  "handle_result res =
     (case res of Inl e \<Rightarrow> (None, Some e)
      | Inr r \<Rightarrow> (Some (fst (rs_Body r)),
          if rs_StatusCode r = 200 then snd (rs_Body r)
          else Some (''['' @ int_text (rs_StatusCode r) @ ''] '' @ response_message r)))"
  by (simp add: handle_result_def HandleResponse_def split: sum.splits prod.splits)

text \<open>
  The JSON post of the HTTP client. When the URL parses, exactly one POST request is made with
  the payload as its body, to the address of the client if the URL is not already absolute; its
  content type is \<^verbatim>\<open>application/json\<close> whatever the caller's headers say, and every other header
  is the last value any of the caller's maps gives for that canonical key. The answer is the body with no error
  exactly when the status is 200 and the body could be read; a network error gives no data.
\<close>

theorem PostJSON_request:
  assumes "URL_Parse net (resolve_url c url) = None"
  shows "\<exists>h. h ''Content-Type'' = Some [''application/json''] \<and>
     (\<forall>k. k \<noteq> ''Content-Type'' \<longrightarrow> h k = last_setting (concat hs) k) \<and>
     PostJSON net c url payload hs =
       (case Do net (cl_http c)
          \<lparr>rq_Method = ''POST'', rq_URL = resolve_url c url, rq_Body = Some payload, rq_Header = h\<rparr>
        of Inl e \<Rightarrow> (None, Some e)
         | Inr r \<Rightarrow> (Some (fst (rs_Body r)),
             if rs_StatusCode r = 200 then snd (rs_Body r)
             else Some (''['' @ int_text (rs_StatusCode r) @ ''] '' @ response_message r)))"
proof -
  let ?h = "set_headers Map.empty (hs @ [jsonHeaders])"
  have "?h ''Content-Type'' = Some [''application/json'']"
    by (simp add: set_headers_lookup last_setting_append jsonHeaders_def last_setting_single)
  moreover have "\<forall>k. k \<noteq> ''Content-Type'' \<longrightarrow> ?h k = last_setting (concat hs) k"
    unfolding set_headers_lookup jsonHeaders_def concat_append last_setting_append
    by (simp add: last_setting_single)
  ultimately show ?thesis
    using SendUrl_ok [OF _ methods_valid(2) assms, of "Some payload" "hs @ [jsonHeaders]"]
    by (intro exI [where x = ?h]) (simp add: http_defs handle_result_HandleResponse)
qed

text \<open>A network for the witnesses: it answers with the content type and body it was sent.\<close>

definition echo_net :: "unit http_net" where
  "echo_net = \<lparr>URL_Parse = (\<lambda>u. None),
     Do = (\<lambda>_ r. Inr \<lparr>rs_StatusCode = 200, rs_Status = ''200 OK'',
       rs_Body = (Header_Get (rq_Header r) ''Content-Type'' @ '' '' @ rq_URL r, None)\<rparr>)\<rparr>"

definition fail_net :: "unit http_net" where
  "fail_net = \<lparr>URL_Parse = (\<lambda>u. None),
     Do = (\<lambda>_ r. Inr \<lparr>rs_StatusCode = 404, rs_Status = ''404 Not Found'',
       rs_Body = ([CHR 0x0A, CHR 0x0A], None)\<rparr>)\<rparr>"

definition demo_http :: "unit HttpClient" where
  "demo_http = NewHttpClient (NewHttpClientOptions\<lparr>ho_Address := ''https://f''\<rparr>)"

theorem PostJSON_request_witness:
  "PostJSON echo_net demo_http ''fn'' ''{}'' [[(''content-type'', ''text/plain'')]] =
     (Some ''application/json https://f/fn'', None)"
proof -
  have url: "resolve_url demo_http ''fn'' = ''https://f/fn''" by code_simp
  have "URL_Parse echo_net (resolve_url demo_http ''fn'') = None" by (simp add: echo_net_def)
  from PostJSON_request [OF this, of "[[(''content-type'', ''text/plain'')]]" "''{}''"]
  show ?thesis by (auto simp: url echo_net_def Header_Get_def)
qed

lemma Call_sent:
  assumes "URL_Parse net (resolve_url c function) = None"
  shows "Call net c function payload = handle_result (Do net (cl_http c)
     \<lparr>rq_Method = ''POST'', rq_URL = resolve_url c function, rq_Body = Some payload,
      rq_Header = [''Content-Type'' \<mapsto> [''application/json'']]\<rparr>)"
proof -
  have "set_headers Map.empty [jsonHeaders] = [''Content-Type'' \<mapsto> [''application/json'']]"
    by (simp add: set_headers_def jsonHeaders_def Header_Set_def)
  then show ?thesis
    using SendUrl_ok [OF _ methods_valid(2) assms, of "Some payload" "[jsonHeaders]"]
    by (simp add: http_defs)
qed

text \<open>
  Calling a function. Over a network that answers, a call of a function whose name does not
  begin with \<^verbatim>\<open>http\<close> posts the payload to the function's path under the client's address and
  returns the body of a 200 answer. Any other status is an error that carries the status code,
  then the body without its trailing newlines, or the status line when nothing else is left.
\<close>

theorem Call_function:
  assumes "\<not> strings_HasPrefix function ''http''"
    and "URL_Parse net (ho_Address (cl_ops c) @ ''/'' @ function) = None"
    and "Do net (cl_http c) \<lparr>rq_Method = ''POST'', rq_URL = ho_Address (cl_ops c) @ ''/'' @ function,
           rq_Body = Some payload, rq_Header = [''Content-Type'' \<mapsto> [''application/json'']]\<rparr> = Inr r"
    and "rs_Body r = (body, None)"
  shows "if rs_StatusCode r = 200 then Call net c function payload = (Some body, None)
     else \<exists>msg n. Call net c function payload =
            (Some body, Some (''['' @ int_text (rs_StatusCode r) @ ''] '' @ msg)) \<and>
            (if set body \<subseteq> {CHR 0x0A} then msg = rs_Status r
             else body = msg @ replicate n (CHR 0x0A) \<and> last msg \<noteq> CHR 0x0A)"
proof -
  have url: "resolve_url c function = ho_Address (cl_ops c) @ ''/'' @ function"
    using assms(1) by (simp add: resolve_url_def)
  have call: "Call net c function payload = handle_result (Inr r)"
    using Call_sent [of net c "function" payload] assms(2,3) by (simp add: url)
  let ?msg = "strings_TrimRight (CHR 0x0A) body"
  have empty: "?msg = [] \<longleftrightarrow> set body \<subseteq> {CHR 0x0A}"
    by (rule TrimRight_Nil)
  have msg: "response_message r = (if set body \<subseteq> {CHR 0x0A} then rs_Status r else ?msg)"
    using assms(4) empty by (simp add: response_message_def Let_def)
  have "set body \<subseteq> {CHR 0x0A} \<or> last ?msg \<noteq> CHR 0x0A"
    using empty TrimRight_last by blast
  then show ?thesis
    using TrimRight_split [of body "CHR 0x0A"] msg assms(4)
    unfolding call handle_result_HandleResponse by (auto split: if_splits)
qed

theorem Call_function_witness:
  "\<exists>msg. Call fail_net demo_http ''fn'' [] =
     (Some [CHR 0x0A, CHR 0x0A], Some (''['' @ int_text 404 @ ''] '' @ msg)) \<and> msg = ''404 Not Found''"
proof -
  have pre: "\<not> strings_HasPrefix ''fn'' ''http''" by code_simp
  show ?thesis
    using Call_function [OF pre, of fail_net demo_http "[]"
        "\<lparr>rs_StatusCode = 404, rs_Status = ''404 Not Found'', rs_Body = ([CHR 0x0A, CHR 0x0A], None)\<rparr>"]
    by (simp add: fail_net_def)
qed

text \<open>
  A function whose name begins with \<^verbatim>\<open>http\<close> is taken for an absolute URL: the call goes to the
  bare name and never to the client's address.
\<close>

theorem http_named_function_misrouted:
  assumes "URL_Parse net (''http'' @ name) = None"
  shows "Call net c (''http'' @ name) payload = handle_result (Do net (cl_http c)
     \<lparr>rq_Method = ''POST'', rq_URL = ''http'' @ name, rq_Body = Some payload,
      rq_Header = [''Content-Type'' \<mapsto> [''application/json'']]\<rparr>)"
proof -
  have url: "resolve_url c (''http'' @ name) = ''http'' @ name"
    by (simp add: resolve_url_def strings_HasPrefix_def)
  have "URL_Parse net (resolve_url c (''http'' @ name)) = None"
    unfolding url by (rule assms)
  from Call_sent [OF this, of payload] show ?thesis unfolding url .
qed

theorem http_named_function_misrouted_witness:
  "Call echo_net demo_http ''http-echo'' [] = (Some ''application/json http-echo'', None)"
  using http_named_function_misrouted [of echo_net "''-echo''" demo_http "[]"]
  by (simp add: echo_net_def handle_result_HandleResponse Header_Get_def)

end
