(* ===== verification/Http_Server.thy ===== *)
theory Http_Server
  imports Http_Client
begin

text \<open>
  The HTTP server wrapper and its replies: \<^verbatim>\<open>http/server.go\<close> and \<^verbatim>\<open>http/responses.go\<close>. The package
  \<^verbatim>\<open>fasthttp\<close>, the listener, key pairs and files are arguments; the model says which of the
  three serving functions runs and with which TLS configuration, and what happens to the
  sockets on every error path.
\<close>

section \<open>Replies\<close>

record http_reply =
  rep_status :: int
  rep_body :: string
  rep_stream :: "int option"
  rep_contentType :: "string option"

record Response =
  Code :: string
  Message :: string

definition jsonContentTypeHeader :: string where
  "jsonContentTypeHeader = ''application/json''"

definition NewResponse :: "string \<Rightarrow> string \<Rightarrow> Response" where
  "NewResponse c msg = \<lparr>Code = c, Message = msg\<rparr>"

definition Respond :: "(string \<Rightarrow> bool) \<Rightarrow> http_reply \<Rightarrow> int \<Rightarrow> string \<Rightarrow> http_reply" where
  "Respond json_Valid c httpCode obj =
     (let c = c\<lparr>rep_status := httpCode, rep_body := obj, rep_stream := None\<rparr>
      in if json_Valid obj then c\<lparr>rep_contentType := Some jsonContentTypeHeader\<rparr> else c)"

definition RespondMsg ::
  "(string \<Rightarrow> bool) \<Rightarrow> (Response \<Rightarrow> string) \<Rightarrow> http_reply \<Rightarrow> int \<Rightarrow> string \<Rightarrow> string \<Rightarrow> http_reply" where
  "RespondMsg json_Valid json_Marshal c httpCode code msg =
     Respond json_Valid c httpCode (json_Marshal (NewResponse code msg))"

definition RespondStream :: "http_reply \<Rightarrow> int \<Rightarrow> string \<Rightarrow> int \<Rightarrow> http_reply" where
  "RespondStream c httpCode bodyStream bodySize =
     c\<lparr>rep_status := httpCode, rep_body := bodyStream, rep_stream := Some bodySize\<rparr>"

lemma Respond_fields:
  "rep_status (Respond v c n obj) = n" "rep_body (Respond v c n obj) = obj"
  "rep_contentType (Respond v c n obj) = (if v obj then Some ''application/json'' else rep_contentType c)"
  by (simp_all add: Respond_def jsonContentTypeHeader_def Let_def)

section \<open>Serving\<close>

record ServerConfig =
  sv_Address :: string
  sv_Concurrency :: int
  sv_DisableKeepalive :: bool
  sv_TCPKeepalive :: bool
  sv_MaxRequestBodySize :: int
  sv_ReadTimeout :: int
  sv_WriteTimeout :: int
  sv_IdleTimeout :: int
  sv_Certificate :: Certificate

record 'h fasthttp_Server =
  fs_Handler :: 'h
  fs_Concurrency :: int
  fs_DisableKeepalive :: bool
  fs_TCPKeepalive :: bool
  fs_TCPKeepalivePeriod :: int
  fs_MaxRequestBodySize :: int
  fs_ReadTimeout :: int
  fs_WriteTimeout :: int
  fs_IdleTimeout :: int

record 'h Server =
  s_conf :: ServerConfig
  s_Server :: "'h fasthttp_Server"

definition NewServer :: "ServerConfig \<Rightarrow> 'h \<Rightarrow> 'h Server" where
  "NewServer cfg handler =
     \<lparr>s_conf = cfg,
      s_Server = \<lparr>fs_Handler = handler, fs_Concurrency = sv_Concurrency cfg,
        fs_DisableKeepalive = sv_DisableKeepalive cfg, fs_TCPKeepalive = sv_TCPKeepalive cfg,
        fs_TCPKeepalivePeriod = 0, fs_MaxRequestBodySize = sv_MaxRequestBodySize cfg,
        fs_ReadTimeout = sv_ReadTimeout cfg, fs_WriteTimeout = sv_WriteTimeout cfg,
        fs_IdleTimeout = sv_IdleTimeout cfg\<rparr>\<rparr>"

text \<open>\<open>Close\<close> shuts the server of the library down; a server made by \<open>NewServer\<close> has one.\<close>

definition Server_Close :: "('h fasthttp_Server \<Rightarrow> 'w \<Rightarrow> 'w) \<Rightarrow> 'h Server \<Rightarrow> 'w \<Rightarrow> 'w" where
  "Server_Close Shutdown s w = Shutdown (s_Server s) w"

text \<open>
  The outside of \<^verbatim>\<open>ListenAndServeMTLS\<close>: opening a listener (and whether it is a TCP listener),
  loading a key pair, reading a file, and reading certificates out of a PEM text.
\<close>

record ('ln, 'crt) serve_env =
  net_Listen :: "string \<Rightarrow> (string, 'ln) result"
  is_TCPListener :: "'ln \<Rightarrow> bool"
  LoadX509KeyPair :: "string \<Rightarrow> string \<Rightarrow> (string, 'crt) result"
  ReadFile :: "string \<Rightarrow> (string, string) result"
  CertsFromPEM :: "string \<Rightarrow> 'crt list"

record 'crt tls_Config =
  Certificates :: "'crt list"
  ClientAuth :: int
  ClientCAs :: "'crt list option"

text \<open>
  \<open>Serving ln ka cfg\<close>: the server accepts on \<open>ln\<close> under the TLS configuration \<open>cfg\<close>, through the
  keep-alive wrapper with period \<open>p\<close> when \<open>ka = Some p\<close>. \<open>Failed ln e\<close>: it returns the error
  \<open>e\<close>, and \<open>ln\<close> is a listener it opened and did not close.
\<close>

datatype ('ln, 'crt) serve_outcome =
    Serving 'ln "int option" "'crt tls_Config"
  | Failed "'ln option" string

definition mtls_config ::
  "('ln, 'crt) serve_env \<Rightarrow> 'h Server \<Rightarrow> 'crt \<Rightarrow> (string, 'crt tls_Config) result" where
  "mtls_config env s cert =
     (let cfg = \<lparr>Certificates = [cert], ClientAuth = 0, ClientCAs = None\<rparr>;
          crt = sv_Certificate (s_conf s)
      in if CA crt \<noteq> []
         then rbind (ReadFile env (CA crt))
                (\<lambda>caCrt. Inr (cfg\<lparr>ClientAuth := ClientAuthType crt,
                                  ClientCAs := Some (CertsFromPEM env caCrt)\<rparr>))
         else Inr cfg)"

definition ListenAndServeMTLS ::
  "('ln, 'crt) serve_env \<Rightarrow> 'h Server \<Rightarrow> string \<Rightarrow> string \<Rightarrow> string \<Rightarrow> ('ln, 'crt) serve_outcome" where
  "ListenAndServeMTLS env s addr certFile keyFile =
     (case net_Listen env addr of
        Inl e \<Rightarrow> Failed None e
      | Inr ln \<Rightarrow>
          (case rbind (LoadX509KeyPair env certFile keyFile) (mtls_config env s) of
             Inl e \<Rightarrow> Failed (Some ln) e
           | Inr cfg \<Rightarrow>
               Serving ln
                 (if fs_TCPKeepalive (s_Server s) \<and> is_TCPListener env ln
                  then Some (fs_TCPKeepalivePeriod (s_Server s)) else None)
                 cfg))"

datatype serve_call =
    ListenAndServe string
  | ListenAndServeTLS string string string
  | CallMTLS string string string

definition Server_Start :: "'h Server \<Rightarrow> serve_call" where
  "Server_Start s =
     (let conf = s_conf s; crt = sv_Certificate conf
      in if Cert crt \<noteq> [] \<or> Key crt \<noteq> []
         then if CA crt \<noteq> [] then CallMTLS (sv_Address conf) (Cert crt) (Key crt)
              else ListenAndServeTLS (sv_Address conf) (Cert crt) (Key crt)
         else ListenAndServe (sv_Address conf))"

section \<open>Accepting with keep-alive\<close>

text \<open>
  One \<^verbatim>\<open>Accept\<close> of the keep-alive listener: the accepted connection, the answers of the two
  socket options, the connections closed, the periods set, and the result.
\<close>

record ('conn) accept_env =
  AcceptTCP :: "(string, 'conn) result"
  SetKeepAlive :: "string option"
  SetKeepAlivePeriod :: "string option"

record ('conn) accept_outcome =
  acc_closed :: "'conn list"
  acc_period :: "int option"
  acc_result :: "(string, 'conn) result"

definition Accept :: "'conn accept_env \<Rightarrow> int \<Rightarrow> 'conn accept_outcome" where
  "Accept env keepalivePeriod =
     (case AcceptTCP env of
        Inl e \<Rightarrow> \<lparr>acc_closed = [], acc_period = None, acc_result = Inl e\<rparr>
      | Inr tc \<Rightarrow>
          (case SetKeepAlive env of
             Some e \<Rightarrow> \<lparr>acc_closed = [tc], acc_period = None, acc_result = Inl e\<rparr>
           | None \<Rightarrow>
               if keepalivePeriod > 0
               then (case SetKeepAlivePeriod env of
                       Some e \<Rightarrow> \<lparr>acc_closed = [tc], acc_period = None, acc_result = Inl e\<rparr>
                     | None \<Rightarrow> \<lparr>acc_closed = [], acc_period = Some keepalivePeriod, acc_result = Inr tc\<rparr>)
               else \<lparr>acc_closed = [], acc_period = None, acc_result = Inr tc\<rparr>))"

text \<open>An accepted connection is either returned, open, or closed; never both and never neither.\<close>

lemma Accept_no_leak:
  assumes "AcceptTCP env = Inr tc"
  shows "acc_result (Accept env p) = Inr tc \<and> acc_closed (Accept env p) = [] \<or>
     (\<exists>e. acc_result (Accept env p) = Inl e \<and> acc_closed (Accept env p) = [tc])"
  using assms by (auto simp: Accept_def split: option.splits)

text \<open>
  The period of the wrapper is that of the embedded \<^verbatim>\<open>fasthttp\<close> server, which \<^verbatim>\<open>NewServer\<close> leaves at
  zero: connections are accepted with the keep-alive period of the operating system.
\<close>

lemma NewServer_default_period:
  "ListenAndServeMTLS env (NewServer cfg h) a c k = Serving ln (Some p) tc \<Longrightarrow>
     p = 0 \<and> acc_period (Accept aenv p) = None"
  by (auto simp: ListenAndServeMTLS_def NewServer_def Accept_def split: sum.splits if_splits option.splits)

section \<open>What a started server enforces\<close>

text \<open>
  Mutual TLS. A server started with a certificate or key and a CA serves under the given key
  pair, checks client certificates against exactly the certificates of the CA file with the
  configured policy, and serves only if the listener, the key pair and the CA file could all be
  opened. A server with neither certificate nor key serves plain HTTP, even when a CA is set.
  When loading fails after the listener was opened, the listener stays open.
\<close>

theorem Start_mutual_tls:
  assumes "CA (sv_Certificate (s_conf s)) \<noteq> []"
  shows "case Server_Start s of
     ListenAndServe a \<Rightarrow> Cert (sv_Certificate (s_conf s)) = [] \<and> Key (sv_Certificate (s_conf s)) = []
   | ListenAndServeTLS a c k \<Rightarrow> False
   | CallMTLS a c k \<Rightarrow>
       (case ListenAndServeMTLS env s a c k of
          Serving ln ka cfg \<Rightarrow>
            net_Listen env (sv_Address (s_conf s)) = Inr ln \<and>
            (\<exists>crt pem. LoadX509KeyPair env (Cert (sv_Certificate (s_conf s))) (Key (sv_Certificate (s_conf s))) = Inr crt \<and>
               ReadFile env (CA (sv_Certificate (s_conf s))) = Inr pem \<and>
               cfg = \<lparr>Certificates = [crt], ClientAuth = ClientAuthType (sv_Certificate (s_conf s)),
                      ClientCAs = Some (CertsFromPEM env pem)\<rparr>)
        | Failed None e \<Rightarrow> net_Listen env (sv_Address (s_conf s)) = Inl e
        | Failed (Some ln) e \<Rightarrow>
            net_Listen env (sv_Address (s_conf s)) = Inr ln \<and>
            (LoadX509KeyPair env (Cert (sv_Certificate (s_conf s))) (Key (sv_Certificate (s_conf s))) = Inl e \<or>
             ReadFile env (CA (sv_Certificate (s_conf s))) = Inl e))"
  using assms
  by (auto simp: Server_Start_def ListenAndServeMTLS_def mtls_config_def Let_def go_result
      split: serve_call.splits serve_outcome.splits option.splits sum.splits if_splits)

definition demo_cert :: Certificate where
  "demo_cert = \<lparr>CA = ''ca.pem'', Key = ''k'', Cert = ''c'', CertName = [], InsecureSkipVerify = False,
     ClientAuthType = 4\<rparr>"

definition demo_server :: "unit Server" where
  "demo_server = NewServer \<lparr>sv_Address = '':80'', sv_Concurrency = 0, sv_DisableKeepalive = False,
     sv_TCPKeepalive = True, sv_MaxRequestBodySize = 0, sv_ReadTimeout = 0, sv_WriteTimeout = 0,
     sv_IdleTimeout = 0, sv_Certificate = demo_cert\<rparr> ()"

definition demo_serve_env :: "(nat, string) serve_env" where
  "demo_serve_env = \<lparr>net_Listen = (\<lambda>a. Inr 7), is_TCPListener = (\<lambda>l. True),
     LoadX509KeyPair = (\<lambda>c k. Inr c), ReadFile = (\<lambda>f. Inl ''no such file''), CertsFromPEM = (\<lambda>p. [])\<rparr>"

theorem Start_mutual_tls_witness:
  "ListenAndServeMTLS demo_serve_env demo_server '':80'' ''c'' ''k'' = Failed (Some 7) ''no such file'' \<and>
   net_Listen demo_serve_env '':80'' = Inr 7"
proof -
  have "CA (sv_Certificate (s_conf demo_server)) \<noteq> []"
    by (simp add: demo_server_def demo_cert_def NewServer_def)
  from Start_mutual_tls [OF this, of demo_serve_env] show ?thesis
    by (simp add: demo_server_def demo_cert_def NewServer_def demo_serve_env_def Server_Start_def
        ListenAndServeMTLS_def mtls_config_def)
qed

end
