(* ===== verification/Cache_Http.thy ===== *)
theory Cache_Http
  imports Http_Client "HOL-Library.List_Lexorder" "HOL-Library.Char_ord" "HOL-Library.Multiset"
begin

text \<open>
  The HTTP response cache: \<^verbatim>\<open>cache/*.go\<close> with its stores \<^verbatim>\<open>cache/persist\<close>. The web framework, the
  URL parser, the packages \<^verbatim>\<open>go-cache\<close> and \<^verbatim>\<open>go-redis\<close> and the gob codec are not part of the repository: a
  handler is the sequence of calls it makes on its response writer, and the rest are
  arguments. \<^verbatim>\<open>singleflight\<close> appears as the answer of a call for the same key that is in flight.
\<close>

section \<open>Stores\<close>

datatype cache_error = ErrCacheMiss | ErrNotStored | CacheErr string

text \<open>
  \<^verbatim>\<open>InMemoryStore\<close> over a cache whose \<^verbatim>\<open>Get\<close>, \<^verbatim>\<open>Set\<close> and \<^verbatim>\<open>Delete\<close> are arguments. Its \<^verbatim>\<open>Get\<close> writes
  through the pointer it is given; \<open>settable\<close> is whether that is possible.
\<close>

definition InMemory_Get ::
  "('c \<Rightarrow> string \<Rightarrow> 'v option) \<Rightarrow> 'c \<Rightarrow> string \<Rightarrow> bool \<Rightarrow> (cache_error, 'v) result" where
  "InMemory_Get cache_Get c key settable =
     (case cache_Get c key of
        None \<Rightarrow> Inl ErrCacheMiss
      | Some val \<Rightarrow> if settable then Inr val else Inl ErrNotStored)"

definition InMemory_Set ::
  "('c \<Rightarrow> string \<Rightarrow> 'v \<Rightarrow> int \<Rightarrow> 'c) \<Rightarrow> 'c \<Rightarrow> string \<Rightarrow> 'v \<Rightarrow> int \<Rightarrow> cache_error option \<times> 'c" where
  "InMemory_Set cache_Set c key v expires = (None, cache_Set c key v expires)"

definition InMemory_Delete ::
  "('c \<Rightarrow> string \<Rightarrow> bool \<times> 'c) \<Rightarrow> 'c \<Rightarrow> string \<Rightarrow> cache_error option \<times> 'c" where
  "InMemory_Delete cache_Delete c key =
     (let (found, c') = cache_Delete c key in (if \<not> found then Some ErrCacheMiss else None, c'))"

text \<open>\<^verbatim>\<open>RedisStore\<close>: values travel as gob bytes; \<^verbatim>\<open>redis.Nil\<close>, the reply for a missing key, is \<open>Inr None\<close>.\<close>

definition Redis_Set ::
  "('v \<Rightarrow> (string, string) result) \<Rightarrow> ('c \<Rightarrow> string \<Rightarrow> string \<Rightarrow> int \<Rightarrow> string option \<times> 'c) \<Rightarrow>
     'c \<Rightarrow> string \<Rightarrow> 'v \<Rightarrow> int \<Rightarrow> cache_error option \<times> 'c" where
  "Redis_Set Serialize client_Set c key v expire =
     (case Serialize v of
        Inl e \<Rightarrow> (Some (CacheErr e), c)
      | Inr payload \<Rightarrow> (let (err, c') = client_Set c key payload expire in (map_option CacheErr err, c')))"

definition Redis_Delete ::
  "('c \<Rightarrow> string \<Rightarrow> string option \<times> 'c) \<Rightarrow> 'c \<Rightarrow> string \<Rightarrow> cache_error option \<times> 'c" where
  "Redis_Delete client_Del c key = (let (err, c') = client_Del c key in (map_option CacheErr err, c'))"

definition Redis_Get ::
  "(string \<Rightarrow> (string, 'v) result) \<Rightarrow> ('c \<Rightarrow> string \<Rightarrow> (string, string option) result) \<Rightarrow>
     'c \<Rightarrow> string \<Rightarrow> (cache_error, 'v) result" where
  "Redis_Get Deserialize client_Get c key =
     (case client_Get c key of
        Inl e \<Rightarrow> Inl (CacheErr e)
      | Inr None \<Rightarrow> Inl ErrCacheMiss
      | Inr (Some payload) \<Rightarrow> (case Deserialize payload of Inl e \<Rightarrow> Inl (CacheErr e) | Inr v \<Rightarrow> Inr v))"

text \<open>Both stores give back what was set, when their packages do and the codec inverts itself.\<close>

lemma InMemory_Set_Get:
  "cache_Get (cache_Set c k v d) k = Some v \<Longrightarrow>
     InMemory_Get cache_Get (snd (InMemory_Set cache_Set c k v d)) k True = Inr v"
  by (simp add: InMemory_Get_def InMemory_Set_def)

lemma Redis_Set_Get:
  assumes "\<And>payload. ser v = Inr payload \<Longrightarrow> des payload = Inr v"
    and "\<And>payload c'. client_Set c k payload d = (None, c') \<Longrightarrow> client_Get c' k = Inr (Some payload)"
    and "Redis_Set ser client_Set c k v d = (None, c')"
  shows "Redis_Get des client_Get c' k = Inr v"
  using assms by (auto simp: Redis_Set_def Redis_Get_def split: sum.splits prod.splits)

section \<open>Requests, writers and handlers\<close>

text \<open>
  A header map in iteration order, and the calls on a response writer. \<open>HeaderAdd\<close> is how a handler gives a header
  several values.
\<close>

type_synonym header_map = "(string \<times> string list) list"

datatype wcall = WriteHeader int | HeaderSet string string | HeaderAdd string string | Write string

fun header_call :: "header_map \<Rightarrow> wcall \<Rightarrow> header_map" where
  "header_call h (HeaderSet k v) = alist_put (CanonicalMIMEHeaderKey k) [v] h"
| "header_call h (HeaderAdd k v) =
     alist_put (CanonicalMIMEHeaderKey k)
       ((case map_of h (CanonicalMIMEHeaderKey k) of None \<Rightarrow> [] | Some vs \<Rightarrow> vs) @ [v]) h"
| "header_call h _ = h"

definition writer_Header :: "wcall list \<Rightarrow> header_map" where
  "writer_Header calls = foldl header_call [] calls"

definition hdr_Get :: "header_map \<Rightarrow> string \<Rightarrow> string" where
  "hdr_Get h k = Header_Get (map_of h) k"

fun body_of :: "wcall list \<Rightarrow> string" where
  "body_of [] = []"
| "body_of (Write b # cs) = b @ body_of cs"
| "body_of (_ # cs) = body_of cs"

record gin_Context =
  RequestURI :: string
  URLPath :: string
  GetString :: "string \<Rightarrow> string"
  calls :: "wcall list"
  aborted :: bool

text \<open>A handler: the calls it makes on the writer, and whether it aborts the chain.\<close>

type_synonym handler = "gin_Context \<Rightarrow> wcall list \<times> bool"

definition run_handler :: "handler \<Rightarrow> gin_Context \<Rightarrow> gin_Context" where
  "run_handler h c = c\<lparr>calls := calls c @ fst (h c), aborted := aborted c \<or> snd (h c)\<rparr>"

record ResponseCache =
  rc_Status :: int
  rc_Header :: header_map
  rc_Data :: string

section \<open>Configuration\<close>

record Strategy =
  CacheKey :: string
  CacheStore :: "nat option"
  CacheDuration :: int

record CacheConfig =
  getCacheStrategyByRequest :: "(gin_Context \<Rightarrow> Strategy \<times> bool) option"
  hitCacheCallback :: "gin_Context \<Rightarrow> gin_Context"
  missCacheCallback :: "gin_Context \<Rightarrow> gin_Context"
  beforeReplyWithCacheCallback :: "gin_Context \<Rightarrow> ResponseCache \<Rightarrow> gin_Context \<times> ResponseCache"
  shareSingleFlightCallback :: "gin_Context \<Rightarrow> gin_Context"
  singleFlightForgetTimeout :: int
  ignoreQueryOrder :: bool
  withoutHeader :: bool
  withoutHeaderIgnore :: "string list"
  prefixKey :: string
  keyWithGinContext :: "string list"

text \<open>The options; a nil callback is \<open>None\<close> and changes nothing.\<close>

datatype Option =
    WithCacheStrategyByRequest "(gin_Context \<Rightarrow> Strategy \<times> bool) option"
  | WithOnHitCache "(gin_Context \<Rightarrow> gin_Context) option"
  | WithOnMissCache "(gin_Context \<Rightarrow> gin_Context) option"
  | WithBeforeReplyWithCache "(gin_Context \<Rightarrow> ResponseCache \<Rightarrow> gin_Context \<times> ResponseCache) option"
  | WithOnShareSingleFlight "(gin_Context \<Rightarrow> gin_Context) option"
  | WithSingleFlightForgetTimeout int
  | IgnoreQueryOrder
  | WithPrefixKey string
  | WithoutHeader
  | WithoutHeaderIgnore "string list"
  | KeyWithGinContext "string list"

fun apply_option :: "CacheConfig \<Rightarrow> Option \<Rightarrow> CacheConfig" where
  "apply_option c (WithCacheStrategyByRequest f) = (if f \<noteq> None then c\<lparr>getCacheStrategyByRequest := f\<rparr> else c)"
| "apply_option c (WithOnHitCache f) = (case f of Some cb \<Rightarrow> c\<lparr>hitCacheCallback := cb\<rparr> | None \<Rightarrow> c)"
| "apply_option c (WithOnMissCache f) = (case f of Some cb \<Rightarrow> c\<lparr>missCacheCallback := cb\<rparr> | None \<Rightarrow> c)"
| "apply_option c (WithBeforeReplyWithCache f) =
     (case f of Some cb \<Rightarrow> c\<lparr>beforeReplyWithCacheCallback := cb\<rparr> | None \<Rightarrow> c)"
| "apply_option c (WithOnShareSingleFlight f) =
     (case f of Some cb \<Rightarrow> c\<lparr>shareSingleFlightCallback := cb\<rparr> | None \<Rightarrow> c)"
| "apply_option c (WithSingleFlightForgetTimeout t) = (if t > 0 then c\<lparr>singleFlightForgetTimeout := t\<rparr> else c)"
| "apply_option c IgnoreQueryOrder = c\<lparr>ignoreQueryOrder := True\<rparr>"
| "apply_option c (WithPrefixKey p) = c\<lparr>prefixKey := p\<rparr>"
| "apply_option c WithoutHeader = c\<lparr>withoutHeader := True\<rparr>"
| "apply_option c (WithoutHeaderIgnore ks) = c\<lparr>withoutHeaderIgnore := ks\<rparr>"
| "apply_option c (KeyWithGinContext ks) = c\<lparr>keyWithGinContext := ks\<rparr>"

definition newConfigByOpts :: "Option list \<Rightarrow> CacheConfig" where
  "newConfigByOpts opts =
     foldl apply_option
       \<lparr>getCacheStrategyByRequest = None, hitCacheCallback = (\<lambda>c. c), missCacheCallback = (\<lambda>c. c),
        beforeReplyWithCacheCallback = Pair, shareSingleFlightCallback = (\<lambda>c. c), singleFlightForgetTimeout = 0,
        ignoreQueryOrder = False, withoutHeader = False, withoutHeaderIgnore = [], prefixKey = [],
        keyWithGinContext = []\<rparr> opts"

text \<open>
  \<open>parse\<close> is \<^verbatim>\<open>url.ParseRequestURI\<close> followed by \<^verbatim>\<open>Query\<close>: the path and the decoded values of each key, in the order
  in which \<^verbatim>\<open>range\<close> visits the keys.
\<close>

type_synonym uri_parser = "string \<Rightarrow> (string, string \<times> (string \<times> string list) list) result"

definition query_vals :: "(string \<times> string list) list \<Rightarrow> string list" where
  "query_vals values =
     (let queryKeys = sort (map fst values)
      in concat (map (\<lambda>queryKey.
           map (\<lambda>val. queryKey @ ''='' @ val)
             (sort (case map_of values queryKey of None \<Rightarrow> [] | Some vs \<Rightarrow> vs))) queryKeys))"

definition getRequestUriIgnoreQueryOrder :: "uri_parser \<Rightarrow> string \<Rightarrow> (string, string) result" where
  "getRequestUriIgnoreQueryOrder parse requestURI =
     rbind (parse requestURI) (\<lambda>(path, values).
       if values = [] then Inr requestURI
       else Inr (path @ ''?'' @ strings_Join (query_vals values) ''&''))"

definition uri_key :: "uri_parser \<Rightarrow> bool \<Rightarrow> string \<Rightarrow> string" where
  "uri_key parse ignoreOrder uri =
     (if ignoreOrder
      then case getRequestUriIgnoreQueryOrder parse uri of Inl e \<Rightarrow> uri | Inr newUri \<Rightarrow> newUri
      else uri)"

definition setRequestURI :: "uri_parser \<Rightarrow> CacheConfig \<Rightarrow> CacheConfig" where
  "setRequestURI parse cfg =
     cfg\<lparr>getCacheStrategyByRequest := Some (\<lambda>c.
       (\<lparr>CacheKey = uri_key parse (ignoreQueryOrder cfg) (RequestURI c), CacheStore = None, CacheDuration = 0\<rparr>, True))\<rparr>"

section \<open>Recording and replaying responses\<close>

text \<open>
  \<open>fillWithCacheWriter status calls before\<close>: the recorded response of a writer that has received \<open>before\<close>
  and then, while it recorded, \<open>calls\<close>; the framework's status is an argument.
\<close>

definition fillWithCacheWriter ::
  "(wcall list \<Rightarrow> int) \<Rightarrow> CacheConfig \<Rightarrow> wcall list \<Rightarrow> wcall list \<Rightarrow> ResponseCache" where
  "fillWithCacheWriter Status cfg before recorded =
     (let h = writer_Header (before @ recorded)
      in \<lparr>rc_Status = Status (before @ recorded),
          rc_Header =
            (if \<not> withoutHeader cfg then h
             else foldl (\<lambda>m k. alist_put (CanonicalMIMEHeaderKey k) [hdr_Get h k] m) [] (withoutHeaderIgnore cfg)),
          rc_Data = body_of recorded\<rparr>)"

definition reply_headers :: "CacheConfig \<Rightarrow> ResponseCache \<Rightarrow> wcall list" where
  "reply_headers cfg rc =
     (if \<not> withoutHeader cfg
      then concat (map (\<lambda>(key, vals). map (HeaderSet key) vals) (rc_Header rc))
      else map (\<lambda>key. HeaderSet key (hdr_Get (rc_Header rc) key)) (withoutHeaderIgnore cfg))"

definition replyWithCache :: "CacheConfig \<Rightarrow> gin_Context \<Rightarrow> ResponseCache \<Rightarrow> gin_Context" where
  "replyWithCache cfg c rc =
     (let (c, rc) = beforeReplyWithCacheCallback cfg c rc
      in c\<lparr>calls := calls c @ [WriteHeader (rc_Status rc)] @ reply_headers cfg rc @ [Write (rc_Data rc)],
           aborted := True\<rparr>)"

section \<open>The cache around a handler\<close>

text \<open>
  \<open>backend\<close> is what a cache calls outside: the two operations of a store, the framework's status, the
  rest of the chain or the wrapped handler. Stores are numbered; a strategy may name another than the default.
\<close>

record 'st backend =
  store_Get :: "'st \<Rightarrow> string \<Rightarrow> (cache_error, ResponseCache) result"
  store_Set :: "'st \<Rightarrow> string \<Rightarrow> ResponseCache \<Rightarrow> int \<Rightarrow> cache_error option \<times> 'st"
  Status :: "wcall list \<Rightarrow> int"
  handle :: handler

definition cache_key :: "CacheConfig \<Rightarrow> gin_Context \<Rightarrow> string \<Rightarrow> string" where
  "cache_key cfg c key =
     (let key = (if prefixKey cfg \<noteq> [] then prefixKey cfg @ key else key)
      in foldl (\<lambda>key k. GetString c k @ key) key (keyWithGinContext cfg))"

text \<open>
  The function given to \<^verbatim>\<open>singleflight\<close>, run by the first call for a key: run the handler, record the response, store it if
  it may be cached.
\<close>

definition flight ::
  "'st backend \<Rightarrow> CacheConfig \<Rightarrow> nat \<Rightarrow> string \<Rightarrow> int \<Rightarrow> gin_Context \<Rightarrow> (nat \<Rightarrow> 'st) \<Rightarrow>
     gin_Context \<times> (nat \<Rightarrow> 'st) \<times> ResponseCache" where
  "flight be cfg cacheStore cacheKey cacheDuration c stores =
     (let recorded = fst (handle be c);
          c' = run_handler (handle be) c;
          rc = fillWithCacheWriter (Status be) cfg (calls c) recorded;
          stores' =
            (if \<not> aborted c' \<and> Status be (calls c') < 300 \<and> Status be (calls c') \<ge> 200
             then stores(cacheStore := snd (store_Set be (stores cacheStore) cacheKey rc cacheDuration))
             else stores)
      in (c', stores', rc))"

text \<open>
  One request. \<open>shared\<close> is the answer of a call for the same key in flight when this one reaches \<^verbatim>\<open>singleflight\<close>, if there
  is one. \<open>None\<close> as the result is the panic on a missing strategy.
\<close>

definition cache_request ::
  "'st backend \<Rightarrow> nat \<Rightarrow> int \<Rightarrow> CacheConfig \<Rightarrow> ResponseCache option \<Rightarrow> gin_Context \<Rightarrow> (nat \<Rightarrow> 'st) \<Rightarrow>
     (gin_Context \<times> (nat \<Rightarrow> 'st)) option" where
  "cache_request be defaultCacheStore defaultExpire cfg shared c stores =
     (case getCacheStrategyByRequest cfg of
        None \<Rightarrow> None
      | Some strategy \<Rightarrow>
          (let (cacheStrategy, shouldCache) = strategy c
           in if \<not> shouldCache then Some (run_handler (handle be) c, stores)
              else
                let cacheKey = cache_key cfg c (CacheKey cacheStrategy);
                    cacheStore = (case CacheStore cacheStrategy of Some s \<Rightarrow> s | None \<Rightarrow> defaultCacheStore);
                    cacheDuration = (if CacheDuration cacheStrategy > 0 then CacheDuration cacheStrategy else defaultExpire)
                in case store_Get be (stores cacheStore) cacheKey of
                     Inr rc \<Rightarrow> Some (hitCacheCallback cfg (replyWithCache cfg c rc), stores)
                   | Inl err \<Rightarrow>
                       let c = missCacheCallback cfg c
                       in case shared of
                            Some rc \<Rightarrow> Some (shareSingleFlightCallback cfg (replyWithCache cfg c rc), stores)
                          | None \<Rightarrow>
                              let (c', stores', rc) = flight be cfg cacheStore cacheKey cacheDuration c stores
                              in Some (c', stores')))"

text \<open>The constructors: the same request function, with the configuration each of them builds.\<close>

definition MCache where
  "MCache be store expire opts = cache_request be store expire (newConfigByOpts opts)"

definition MCacheByRequestURI where
  "MCacheByRequestURI parse be store expire opts = cache_request be store expire (setRequestURI parse (newConfigByOpts opts))"

definition path_strategy :: Option where
  "path_strategy = WithCacheStrategyByRequest (Some (\<lambda>c. (\<lparr>CacheKey = URLPath c, CacheStore = None, CacheDuration = 0\<rparr>, True)))"

definition MCacheByRequestPath where
  "MCacheByRequestPath be store expire opts = MCache be store expire (opts @ [path_strategy])"

definition WCache where
  "WCache be store expire h opts = cache_request (be\<lparr>handle := h\<rparr>) store expire (newConfigByOpts opts)"

definition WCacheByRequestURI where
  "WCacheByRequestURI parse be store expire h opts =
     cache_request (be\<lparr>handle := h\<rparr>) store expire (setRequestURI parse (newConfigByOpts opts))"

definition WCacheByRequestPath where
  "WCacheByRequestPath be store expire h opts = WCache be store expire h (opts @ [path_strategy])"

section \<open>The key of a request\<close>

definition query_pairs :: "(string \<times> string list) list \<Rightarrow> (string \<times> string) multiset" where
  "query_pairs values = mset (concat (map (\<lambda>(k, vs). map (Pair k) vs) values))"

lemma query_vals_eq:
  assumes "set (map fst v) = set (map fst v')" "alist_wf v" "alist_wf v'"
    and "\<And>k vs vs'. map_of v k = Some vs \<Longrightarrow> map_of v' k = Some vs' \<Longrightarrow> mset vs = mset vs'"
  shows "query_vals v = query_vals v'"
proof -
  have keys: "sort (map fst v) = sort (map fst v')"
    using assms(1-3) set_eq_iff_mset_eq_distinct [of "map fst v'" "map fst v"]
    by (intro properties_for_sort) (simp_all add: alist_wf_def)
  have "sort (case map_of v k of None \<Rightarrow> [] | Some vs \<Rightarrow> vs) = sort (case map_of v' k of None \<Rightarrow> [] | Some vs \<Rightarrow> vs)" for k
  proof (cases "map_of v k")
    case None
    then have "map_of v' k = None" using assms(1) by (simp add: map_of_eq_None_iff)
    with None show ?thesis by simp
  next
    case (Some vs)
    then obtain vs' where "map_of v' k = Some vs'"
      using assms(1) by (metis map_of_eq_None_iff not_Some_eq image_set list.set_map)
    with Some assms(4) [OF Some] have "mset vs = mset vs'" by simp
    with Some \<open>map_of v' k = Some vs'\<close> show ?thesis by (simp add: properties_for_sort)
  qed
  then show ?thesis by (simp add: query_vals_def keys)
qed

lemma query_pairs_key:
  "alist_wf v \<Longrightarrow> image_mset snd (filter_mset (\<lambda>p. fst p = k) (query_pairs v)) =
     (case map_of v k of None \<Rightarrow> {#} | Some vs \<Rightarrow> mset vs)"
proof (induction v)
  case (Cons kv v)
  obtain k' vs where kv: "kv = (k', vs)" by (cases kv)
  have "filter_mset (\<lambda>p. fst p = k) (mset (map (Pair k') vs)) = (if k' = k then mset (map (Pair k') vs) else {#})"
    by (induction vs) auto
  with Cons kv show ?case
    by (auto simp: query_pairs_def wf_Cons multiset.map_comp comp_def split: option.splits)
qed (simp add: query_pairs_def)

lemma query_pairs_keys:
  assumes "\<forall>vs \<in> snd ` set v. vs \<noteq> []"
  shows "set (map fst v) = fst ` set_mset (query_pairs v)"
proof -
  have "set_mset (query_pairs v) = (\<Union>(k, vs) \<in> set v. Pair k ` set vs)"
    by (auto simp: query_pairs_def)
  moreover have "fst ` (\<Union>(k, vs) \<in> set v. Pair k ` set vs) = fst ` set v"
  proof
    show "fst ` set v \<subseteq> fst ` (\<Union>(k, vs) \<in> set v. Pair k ` set vs)"
    proof
      fix k assume "k \<in> fst ` set v"
      then obtain vs where kvs: "(k, vs) \<in> set v" by auto
      with assms have "vs \<noteq> []" by force
      then have "hd vs \<in> set vs" by simp
      with kvs have "(k, hd vs) \<in> (\<Union>(k, vs) \<in> set v. Pair k ` set vs)" by blast
      then show "k \<in> fst ` (\<Union>(k, vs) \<in> set v. Pair k ` set vs)" by force
    qed
  qed force
  ultimately show ?thesis by simp
qed

text \<open>
  The key does not depend on the order of the query. For two request URIs with the same path whose queries hold the same
  pairs of key and value, each as often, in any order, the key of a cache made with \<^verbatim>\<open>IgnoreQueryOrder\<close>
  is the same.
\<close>

theorem cache_key_canonical:
  assumes "parse uri = Inr (path, v)" and "parse uri' = Inr (path, v')"
    and "alist_wf v" "alist_wf v'" and "\<forall>vs \<in> snd ` set v. vs \<noteq> []" and "\<forall>vs \<in> snd ` set v'. vs \<noteq> []"
    and "query_pairs v = query_pairs v'" and "v \<noteq> []"
  shows "uri_key parse True uri = uri_key parse True uri'"
proof -
  have keys: "set (map fst v) = set (map fst v')"
    using query_pairs_keys [OF assms(5)] query_pairs_keys [OF assms(6)] assms(7) by simp
  then have "v' \<noteq> []" using assms(8) by auto
  moreover have "query_vals v = query_vals v'"
  proof (rule query_vals_eq [OF keys assms(3,4)])
    fix k vs vs'
    assume "map_of v k = Some vs" "map_of v' k = Some vs'"
    then show "mset vs = mset vs'"
      using query_pairs_key [OF assms(3), of k] query_pairs_key [OF assms(4), of k] assms(7) by simp
  qed
  ultimately show ?thesis
    using assms(1,2,8) by (simp add: uri_key_def getRequestUriIgnoreQueryOrder_def)
qed

section \<open>What a hit replays\<close>

lemma writer_Header_wf: "alist_wf (writer_Header cs)"
proof -
  have "alist_wf h \<Longrightarrow> alist_wf (foldl header_call h cs)" for h
  proof (induction cs arbitrary: h)
    case (Cons c cs)
    then show ?case by (cases c) auto
  qed simp
  then show ?thesis by (simp add: writer_Header_def)
qed

text \<open>Canonical keys are fixed points, so setting a stored key sets that key.\<close>

lemma byte_upper_idem: "byte_upper (byte_upper c) = byte_upper c"
proof (cases "is_lower c")
  case True
  then have "(of_char c :: nat) - 32 < 97" by (auto simp: is_lower_def)
  then show ?thesis using True by (simp add: byte_upper_def is_lower_def)
qed (simp add: byte_upper_def)

lemma byte_lower_idem: "byte_lower (byte_lower c) = byte_lower c"
  by (simp add: byte_lower_def)

lemma token_byte_case: "token_byte c \<Longrightarrow> token_byte (byte_upper c) \<and> token_byte (byte_lower c)"
proof -
  have "is_upper (byte_upper c)" if "is_lower c"
    using that by (auto simp: byte_upper_def is_lower_def is_upper_def)
  moreover have "is_lower (byte_lower c)" if "is_upper c"
    using that by (simp add: byte_lower_def is_lower_def is_upper_def)
  ultimately show "token_byte c \<Longrightarrow> token_byte (byte_upper c) \<and> token_byte (byte_lower c)"
    by (metis byte_lower_def byte_upper_def is_upper_def token_byte_def)
qed

lemma canonical_idem: "canonical up (canonical up s) = canonical up s"
  by (induction up s rule: canonical.induct) (auto simp: Let_def byte_upper_idem byte_lower_idem)

lemma canonical_token: "list_all token_byte s \<Longrightarrow> list_all token_byte (canonical up s)"
  by (induction up s rule: canonical.induct) (simp_all add: Let_def token_byte_case)

lemma CanonicalMIMEHeaderKey_idem [simp]:
  "CanonicalMIMEHeaderKey (CanonicalMIMEHeaderKey k) = CanonicalMIMEHeaderKey k"
  by (simp add: CanonicalMIMEHeaderKey_def canonical_idem canonical_token)

definition header_ok :: "header_map \<Rightarrow> bool" where
  "header_ok h \<longleftrightarrow> alist_wf h \<and> (\<forall>(k, vs) \<in> set h. CanonicalMIMEHeaderKey k = k \<and> vs \<noteq> [])"

lemma set_alist_put: "set (alist_put k v m) \<subseteq> insert (k, v) (set m)"
  by (induction k v m rule: alist_put.induct) auto

lemma header_ok_put:
  "header_ok h \<Longrightarrow> CanonicalMIMEHeaderKey k = k \<Longrightarrow> vs \<noteq> [] \<Longrightarrow> header_ok (alist_put k vs h)"
  using set_alist_put [of k vs h] by (fastforce simp: header_ok_def)

lemma writer_Header_ok: "header_ok (writer_Header cs)"
proof -
  have "header_ok h \<Longrightarrow> header_ok (foldl header_call h cs)" for h
  proof (induction cs arbitrary: h)
    case (Cons c cs)
    then show ?case by (cases c) (simp_all add: header_ok_put)
  qed simp
  from this [of "[]"] show ?thesis by (simp add: writer_Header_def header_ok_def)
qed

lemma header_calls_single:
  "CanonicalMIMEHeaderKey k = k \<Longrightarrow> vals \<noteq> [] \<Longrightarrow>
     map_of (foldl header_call h (map (HeaderSet k) vals)) = (map_of h)(k \<mapsto> [last vals])"
proof (induction vals arbitrary: h)
  case (Cons v vals)
  then show ?case by (cases vals) auto
qed simp

lemma replay_headers:
  "header_ok hdr \<Longrightarrow>
   map_of (foldl header_call h (concat (map (\<lambda>(key, vals). map (HeaderSet key) vals) hdr))) k =
     (case map_of hdr k of None \<Rightarrow> map_of h k | Some vs \<Rightarrow> Some [last vs])"
proof (induction hdr arbitrary: h)
  case (Cons kv hdr)
  obtain key vals where kv: "kv = (key, vals)" by (cases kv)
  have ok: "header_ok hdr" "CanonicalMIMEHeaderKey key = key" "vals \<noteq> []" "map_of hdr key = None"
    using Cons.prems by (auto simp: header_ok_def kv wf_Cons)
  show ?case
    using Cons.IH [OF ok(1), of "foldl header_call h (map (HeaderSet key) vals)"] ok(2-4)
    by (auto simp: kv header_calls_single split: option.splits)
qed simp

lemma body_of_append [simp]: "body_of (xs @ ys) = body_of xs @ body_of ys"
  by (induction xs rule: body_of.induct) auto

lemma body_of_headers [simp]:
  "body_of (concat (map (\<lambda>(key, vals). map (HeaderSet key) vals) hdr)) = []"
proof -
  have "body_of (map (HeaderSet key) vals) = []" for key vals by (induction vals) auto
  then show ?thesis by (induction hdr) auto
qed

text \<open>The callbacks of a configuration made without options for them, and headers kept.\<close>

definition plain_config :: "CacheConfig \<Rightarrow> bool" where
  "plain_config cfg \<longleftrightarrow> hitCacheCallback cfg = (\<lambda>c. c) \<and> missCacheCallback cfg = (\<lambda>c. c) \<and>
     beforeReplyWithCacheCallback cfg = Pair \<and> \<not> withoutHeader cfg"

lemma replyWithCache_plain:
  assumes "plain_config cfg" "header_ok (rc_Header rc)"
  shows "\<exists>reply. replyWithCache cfg c rc = c\<lparr>calls := calls c @ WriteHeader (rc_Status rc) # reply, aborted := True\<rparr> \<and>
     body_of reply = rc_Data rc \<and>
     map_of (writer_Header reply) = (\<lambda>k. map_option (\<lambda>vs. [last vs]) (map_of (rc_Header rc) k))"
proof -
  let ?hs = "concat (map (\<lambda>(key, vals). map (HeaderSet key) vals) (rc_Header rc))"
  have "map_of (writer_Header (?hs @ [Write (rc_Data rc)])) k = map_option (\<lambda>vs. [last vs]) (map_of (rc_Header rc) k)" for k
    using replay_headers [OF assms(2), of "[]" k] by (simp add: writer_Header_def split: option.splits)
  then show ?thesis
    using assms(1)
    by (intro exI [of _ "?hs @ [Write (rc_Data rc)]"])
      (simp add: replyWithCache_def reply_headers_def plain_config_def fun_eq_iff)
qed


text \<open>
  C34. What is not cached. A request changes a store only if it was answered by its own handler, which did not abort,
  with a 2xx status, and then only by setting the response under the key of the request in the chosen store;
  a hit and a shared answer change nothing.
\<close>

theorem only_success_cached:
  assumes "cache_request be d expire cfg shared c stores = Some (c', stores')" "stores' \<noteq> stores"
  shows "shared = None \<and> \<not> aborted c' \<and> 200 \<le> Status be (calls c') \<and> Status be (calls c') < 300 \<and>
     (\<exists>strategy s c1 key ttl rc. getCacheStrategyByRequest cfg = Some strategy \<and> strategy c = (s, True) \<and>
        key = cache_key cfg c (CacheKey s) \<and> c1 = missCacheCallback cfg c \<and> c' = run_handler (handle be) c1 \<and>
        rc_Status rc = Status be (calls c') \<and> rc_Data rc = body_of (fst (handle be c1)) \<and>
        stores' = (let n = (case CacheStore s of Some n \<Rightarrow> n | None \<Rightarrow> d)
                   in stores(n := snd (store_Set be (stores n) key rc ttl))))"
proof -
  obtain strategy s should where st: "getCacheStrategyByRequest cfg = Some strategy" "strategy c = (s, should)"
    using assms(1) by (cases "getCacheStrategyByRequest cfg"; cases "the (getCacheStrategyByRequest cfg) c")
      (auto simp: cache_request_def)
  let ?n = "case CacheStore s of Some n \<Rightarrow> n | None \<Rightarrow> d"
  let ?key = "cache_key cfg c (CacheKey s)" and ?c1 = "missCacheCallback cfg c"
  let ?ttl = "if CacheDuration s > 0 then CacheDuration s else expire"
  let ?rc = "fillWithCacheWriter (Status be) cfg (calls ?c1) (fst (handle be ?c1))"
  obtain e where miss: "should" "store_Get be (stores ?n) ?key = Inl e" "shared = None"
    using assms st by (auto simp: cache_request_def Let_def split: if_splits sum.splits option.splits)
  then have f: "(c', stores', ?rc) = flight be cfg ?n ?key ?ttl ?c1 stores"
    using assms(1) st by (auto simp: cache_request_def flight_def Let_def)
  then show ?thesis
    using assms(2) st miss
    by (auto simp: flight_def Let_def run_handler_def fillWithCacheWriter_def intro!: exI [of _ ?rc] exI [of _ ?ttl]
        split: if_splits)
qed

text \<open>
  The values of the framework's context are put before the key without a separator, so that different values may give
  one key; and the canonical query is built from decoded text, so that an escaped separator is taken for a real one.
\<close>

lemma cache_key_ambiguous:
  assumes "keyWithGinContext cfg = [user, tenant]"
    and "GetString c tenant @ GetString c user = GetString c' tenant @ GetString c' user"
  shows "cache_key cfg c key = cache_key cfg c' key"
proof -
  have "cache_key cfg x key = (GetString x tenant @ GetString x user) @ cache_key (cfg\<lparr>keyWithGinContext := []\<rparr>) x key"
    for x by (simp add: cache_key_def assms(1))
  then show ?thesis using assms(2) by (simp add: cache_key_def)
qed

lemma canonical_query_ambiguous:
  "query_vals [(''a'', [''1&b=2''])] \<noteq> query_vals [(''a'', [''1'']), (''b'', [''2''])]"
  "strings_Join (query_vals [(''a'', [''1&b=2''])]) ''&'' = strings_Join (query_vals [(''a'', [''1'']), (''b'', [''2''])]) ''&''"
  by code_simp+

section \<open>An instance\<close>

definition demo_parse :: uri_parser where
  "demo_parse uri =
     (if uri = ''/p?b=1&a=2'' then Inr (''/p'', [(''b'', [''1'']), (''a'', [''2''])])
      else if uri = ''/p?a=2&b=1'' then Inr (''/p'', [(''a'', [''2'']), (''b'', [''1''])]) else Inl ''invalid'')"

theorem cache_key_canonical_witness:
  "uri_key demo_parse True ''/p?b=1&a=2'' = uri_key demo_parse True ''/p?a=2&b=1''"
  by (rule cache_key_canonical [where path = "''/p''" and v = "[(''b'', [''1'']), (''a'', [''2''])]"
        and v' = "[(''a'', [''2'']), (''b'', [''1''])]"])
    (simp_all add: demo_parse_def alist_wf_def query_pairs_def)

text \<open>A store as an association list, and a handler that sets a header twice and writes in two pieces.\<close>

definition demo_be :: "(string \<times> ResponseCache) list backend" where
  "demo_be = \<lparr>store_Get = (\<lambda>st k. case map_of st k of None \<Rightarrow> Inl ErrCacheMiss | Some rc \<Rightarrow> Inr rc),
     store_Set = (\<lambda>st k rc ttl. (None, alist_put k rc st)), Status = (\<lambda>cs. 200),
     handle = (\<lambda>c. ([HeaderAdd ''Vary'' ''a'', HeaderAdd ''Vary'' ''b'', Write ''x'', Write ''y''], False))\<rparr>"

definition demo_cfg :: CacheConfig where
  "demo_cfg = setRequestURI demo_parse (newConfigByOpts [WithPrefixKey ''p:''])"

definition demo_req :: gin_Context where
  "demo_req = \<lparr>RequestURI = ''/p'', URLPath = ''/p'', GetString = (\<lambda>k. []), calls = [], aborted = False\<rparr>"

lemma demo_cfg_simps:
  "plain_config demo_cfg" "cache_key demo_cfg demo_req ''/p'' = ''p:/p''"
  "getCacheStrategyByRequest demo_cfg = Some (\<lambda>c. (\<lparr>CacheKey = RequestURI c, CacheStore = None, CacheDuration = 0\<rparr>, True))"
  by (simp_all add: demo_cfg_def setRequestURI_def newConfigByOpts_def plain_config_def cache_key_def uri_key_def)

lemma demo_first:
  "\<exists>stores'. cache_request demo_be 0 60 demo_cfg None demo_req (\<lambda>_. []) =
     Some (run_handler (handle demo_be) demo_req, stores') \<and> stores' \<noteq> (\<lambda>_. [])"
proof -
  have "cache_request demo_be 0 60 demo_cfg None demo_req (\<lambda>_. []) =
     Some (run_handler (handle demo_be) demo_req, (\<lambda>_. [])(0 := [(''p:/p'',
       fillWithCacheWriter (Status demo_be) demo_cfg (calls demo_req) (fst (handle demo_be demo_req)))]))"
    using demo_cfg_simps(1,2)
    by (simp add: cache_request_def flight_def demo_cfg_simps(3) demo_be_def run_handler_def plain_config_def demo_req_def Let_def)
  moreover have "(\<lambda>_. [])(0 := [x]) \<noteq> (\<lambda>_ :: nat. [])" for x :: "string \<times> ResponseCache"
    by (metis fun_upd_same list.discI)
  ultimately show ?thesis by blast
qed


theorem only_success_cached_witness:
  "\<exists>c' stores'. cache_request demo_be 0 60 demo_cfg None demo_req (\<lambda>_. []) = Some (c', stores') \<and>
     \<not> aborted c' \<and> 200 \<le> Status demo_be (calls c')"
  using demo_first only_success_cached [of demo_be 0 60 demo_cfg None demo_req "\<lambda>_. []"] by blast

end
