(* ===== verification/Spec_Lazy.thy ===== *)
theory Spec_Lazy
  imports Baetyl_Prelude
begin

text \<open>
  Values that are decoded when they are used: \<^verbatim>\<open>spec/v1/lazy_value.go\<close>, and the desired resources that carry them, \<^verbatim>\<open>spec/v1/sync_desire.go\<close>, with
  \<^verbatim>\<open>IsConfigObject\<close> of \<^verbatim>\<open>spec/v1/configuration.go\<close>. The JSON codec is a parameter: \<open>marshal\<close> encodes a value or nil, \<open>decode\<close> writes a
  text into a target, which keeps what it held where the text has nothing.
\<close>

section \<open>Lazy values\<close>

record 'v LazyValue =
  Value :: "'v option"
  doc :: "string option"

definition zero_LazyValue :: "'v LazyValue" where
  "zero_LazyValue = \<lparr>Value = None, doc = None\<rparr>"

definition LazyValue_UnmarshalJSON :: "string \<Rightarrow> 'v LazyValue \<Rightarrow> 'v LazyValue" where
  "LazyValue_UnmarshalJSON b v = v\<lparr>doc := Some b\<rparr>"

definition SetJSON :: "string option \<Rightarrow> 'v LazyValue \<Rightarrow> 'v LazyValue" where
  "SetJSON d v = v\<lparr>doc := d\<rparr>"

definition GetJSON :: "'v LazyValue \<Rightarrow> string option" where
  "GetJSON v = doc v"

definition LazyValue_MarshalJSON :: "('v option \<Rightarrow> (string, string) result) \<Rightarrow> 'v LazyValue \<Rightarrow> (string, string) result" where
  "LazyValue_MarshalJSON marshal v = (case doc v of Some d \<Rightarrow> Inr d | None \<Rightarrow> marshal (Value v))"

text \<open>The target is an argument and a result; \<^verbatim>\<open>ExactUnmarshal\<close> is the same with a decoder that keeps numbers as texts.\<close>

definition Unmarshal ::
  "('v option \<Rightarrow> (string, string) result) \<Rightarrow> (string \<Rightarrow> 'o \<Rightarrow> (string, 'o) result) \<Rightarrow> 'v LazyValue \<Rightarrow> 'o \<Rightarrow> (string, 'o) result" where
  "Unmarshal marshal decode v obj =
     (case doc v of
        Some d \<Rightarrow> decode d obj
      | None \<Rightarrow>
          (case Value v of
             Some x \<Rightarrow> rbind (marshal (Some x)) (\<lambda>bs. decode bs obj)
           | None \<Rightarrow> Inr obj))"

definition ExactUnmarshal where
  "ExactUnmarshal marshal decode_exact v obj = Unmarshal marshal decode_exact v obj"

text \<open>
  Sending a lazy value and decoding it at the receiver gives what decoding it at the sender gives, for any value that is not nil. For nil the
  receiver decodes the text of null.
\<close>

lemma lazy_roundtrip:
  assumes "LazyValue_MarshalJSON marshal v = Inr b"
  shows "Unmarshal marshal decode (LazyValue_UnmarshalJSON b w) obj =
    (if doc v = None \<and> Value v = None then decode b obj else Unmarshal marshal decode v obj)"
  using assms by (auto simp: LazyValue_MarshalJSON_def LazyValue_UnmarshalJSON_def Unmarshal_def split: option.splits)

section \<open>Desired resources\<close>

record 'v ResourceValue =
  rv_Kind :: string
  rv_Name :: string
  rv_Version :: string
  rv_Value :: "'v LazyValue"

text \<open>
  The error of \<^verbatim>\<open>Unmarshal\<close> is ignored: \<open>partial\<close> is what a failed decoding leaves in the target.
\<close>

definition decode_resource ::
  "('v option \<Rightarrow> (string, string) result) \<Rightarrow> (string \<Rightarrow> 'o \<Rightarrow> (string, 'o) result) \<Rightarrow> (string \<Rightarrow> 'o) \<Rightarrow> 'o \<Rightarrow> string list \<Rightarrow>
     'v ResourceValue \<Rightarrow> 'o option" where
  "decode_resource marshal decode partial zero kinds v =
     (if rv_Kind v \<in> set kinds
      then Some (case Unmarshal marshal decode (rv_Value v) zero of Inr obj \<Rightarrow> obj | Inl e \<Rightarrow> partial e)
      else None)"

definition ResourceValue_App where
  "ResourceValue_App marshal decode partial zero v = decode_resource marshal decode partial zero [''application'', ''app''] v"

definition ResourceValue_Config where
  "ResourceValue_Config marshal decode partial zero v = decode_resource marshal decode partial zero [''configuration'', ''config''] v"

definition ResourceValue_Secret where
  "ResourceValue_Secret marshal decode partial zero v = decode_resource marshal decode partial zero [''secret''] v"

text \<open>A resource is read as one kind at most, and a malformed one is not told from an empty one.\<close>

lemma one_kind:
  "(ResourceValue_App m d1 p1 z1 v \<noteq> None \<longrightarrow> ResourceValue_Config m d2 p2 z2 v = None \<and> ResourceValue_Secret m d3 p3 z3 v = None) \<and>
   (ResourceValue_Config m d2 p2 z2 v \<noteq> None \<longrightarrow> ResourceValue_Secret m d3 p3 z3 v = None)"
  by (auto simp: ResourceValue_App_def ResourceValue_Config_def ResourceValue_Secret_def decode_resource_def split: if_splits)

lemma malformed_resource:
  assumes "rv_Kind v = ''app''" "Unmarshal marshal decode (rv_Value v) zero = Inl e" "partial e = zero"
  shows "ResourceValue_App marshal decode partial zero v = Some zero"
  using assms by (simp add: ResourceValue_App_def decode_resource_def)

definition PrefixConfigObject :: string where "PrefixConfigObject = ''_object_''"

definition IsConfigObject :: "string \<Rightarrow> bool" where
  "IsConfigObject key = strings_HasPrefix key PrefixConfigObject"

end
