(* ===== verification/Spec_Shadow.thy ===== *)
theory Spec_Shadow
  imports Dm_Expression
begin

text \<open>
  The shadow of a node (\<^verbatim>\<open>spec/v1/node.go\<close>): reports and desires as nested maps, their merge with its limit on the
  nesting, the difference and patch by the merge patches of \<^verbatim>\<open>json-patch\<close> (parameters), the removal of nulls and the access
  to the listed applications and devices.
\<close>

section \<open>Values\<close>

text \<open>
  A value of type \<^verbatim>\<open>interface{}\<close> in a report or desire. \<open>JMap\<close> is \<^verbatim>\<open>map[string]interface{}\<close>, \<open>JTypedMap\<close> a map of another type;
  \<open>JApps\<close>, \<open>JDevices\<close> and \<open>JStats\<close> hold the slices that the setters store. Maps are lists of entries with distinct keys, in the order in
  which a loop meets them.
\<close>

record AppInfo =
  ai_Name :: string
  ai_Version :: string

record DevInfo =
  di_Name :: string
  di_Version :: string

datatype 's jv =
    JNull | JBool bool | JNum f64 | JStr string | JArr "'s jv list" | JMap "(string \<times> 's jv) list"
  | JTypedMap "(string \<times> string) list" | JApps "AppInfo list" | JDevices "DevInfo list" | JStats 's

type_synonym 's jmap = "(string \<times> 's jv) list"

definition maxJSONLevel :: nat where "maxJSONLevel = 5"

datatype merge_status = MOk | ErrJSONLevelExceedsLimit | MPanic

definition kind_map :: "'s jv \<Rightarrow> bool" where
  "kind_map v = (case v of JMap _ \<Rightarrow> True | JTypedMap _ \<Rightarrow> True | _ \<Rightarrow> False)"

section \<open>Merge\<close>

text \<open>
  \<^verbatim>\<open>merge\<close> changes the left map in place, also when it returns an error: the result is the status and the left map as it is
  left behind. Both maps of a nested merge are asserted to be \<^verbatim>\<open>map[string]interface{}\<close>.
\<close>

function merge :: "'s jmap \<Rightarrow> 's jmap \<Rightarrow> nat \<Rightarrow> nat \<Rightarrow> merge_status \<times> 's jmap"
  and merge_loop :: "'s jmap \<Rightarrow> 's jmap \<Rightarrow> nat \<Rightarrow> nat \<Rightarrow> merge_status \<times> 's jmap" where
  "merge left right depth maxDepth =
     (if maxDepth \<le> depth then (ErrJSONLevelExceedsLimit, left) else merge_loop left right depth maxDepth)"
| "merge_loop left [] depth maxDepth = (MOk, left)"
| "merge_loop left ((rk, rv) # right) depth maxDepth =
     (case map_of left rk of
        None \<Rightarrow> merge_loop (alist_put rk rv left) right depth maxDepth
      | Some lv \<Rightarrow>
          if \<not> kind_map lv \<or> \<not> kind_map rv then merge_loop (alist_put rk rv left) right depth maxDepth
          else (case (lv, rv) of
                  (JMap lm, JMap rm) \<Rightarrow>
                    (case merge lm rm (depth + 1) maxDepth of
                       (MOk, lm') \<Rightarrow> merge_loop (alist_put rk (JMap lm') left) right depth maxDepth
                     | (e, lm') \<Rightarrow> (e, alist_put rk (JMap lm') left))
                | _ \<Rightarrow> (MPanic, left)))"
  by pat_completeness auto
termination
  by (relation "measure (\<lambda>x. case x of Inl (l, r, d, m) \<Rightarrow> Suc (size_list (size_prod (\<lambda>_. 0) size) r) | Inr (l, r, d, m) \<Rightarrow> size_list (size_prod (\<lambda>_. 0) size) r)")
    auto

declare merge.simps [simp del] merge_loop.simps(2) [simp del]

text \<open>Well-formed maps: distinct keys at every level and no map of another type.\<close>

fun shadow_wf :: "'s jv \<Rightarrow> bool" where
  "shadow_wf (JMap m) \<longleftrightarrow> distinct (map fst m) \<and> (\<forall>(k, v) \<in> set m. shadow_wf v)"
| "shadow_wf (JTypedMap m) \<longleftrightarrow> False"
| "shadow_wf v \<longleftrightarrow> True"

lemma wf_entry: "shadow_wf (JMap m) \<Longrightarrow> map_of m k = Some v \<Longrightarrow> shadow_wf v"
  by (auto dest: map_of_SomeD)

lemma wf_kind: "shadow_wf v \<Longrightarrow> kind_map v \<longleftrightarrow> (\<exists>m. v = JMap m)"
  by (cases v) (auto simp: kind_map_def)

text \<open>The value of a key after a successful merge: merged where both sides have a map, else the right one if present.\<close>

definition merged_entry :: "nat \<Rightarrow> nat \<Rightarrow> 's jv option \<Rightarrow> 's jv option \<Rightarrow> 's jv option" where
  "merged_entry depth maxDepth l r =
     (case r of
        None \<Rightarrow> l
      | Some rv \<Rightarrow>
          (case (l, rv) of
             (Some (JMap lm), JMap rm) \<Rightarrow> Some (JMap (snd (merge lm rm (depth + 1) maxDepth)))
           | _ \<Rightarrow> Some rv))"

definition entry_status :: "nat \<Rightarrow> nat \<Rightarrow> 's jv option \<Rightarrow> 's jv option \<Rightarrow> bool" where
  "entry_status depth maxDepth l r \<longleftrightarrow>
     (case (l, r) of
        (Some (JMap lm), Some (JMap rm)) \<Rightarrow> fst (merge lm rm (depth + 1) maxDepth) = MOk
      | _ \<Rightarrow> True)"

lemma entry_None [simp]: "entry_status depth maxDepth l None" "merged_entry depth maxDepth l None = l"
  by (simp_all add: entry_status_def merged_entry_def split: option.splits jv.splits)

lemma merged_entry_Some: "\<exists>v. merged_entry depth maxDepth l (Some rv) = Some v"
  by (simp add: merged_entry_def split: option.splits jv.splits)

lemma merge_loop_step:
  assumes "shadow_wf (JMap left)" "shadow_wf rv"
  shows "merge_loop left ((rk, rv) # right) depth maxDepth =
    (if entry_status depth maxDepth (map_of left rk) (Some rv)
     then merge_loop (alist_put rk (the (merged_entry depth maxDepth (map_of left rk) (Some rv))) left) right depth maxDepth
     else (case (map_of left rk, rv) of
             (Some (JMap lm), JMap rm) \<Rightarrow>
               (fst (merge lm rm (depth + 1) maxDepth), alist_put rk (JMap (snd (merge lm rm (depth + 1) maxDepth))) left)
           | _ \<Rightarrow> undefined))"
proof (cases "map_of left rk")
  case None
  then show ?thesis by (simp add: merge_loop.simps(2) entry_status_def merged_entry_def)
next
  case (Some lv)
  then have lv: "kind_map lv \<longleftrightarrow> (\<exists>m. lv = JMap m)"
    using wf_kind wf_entry [OF assms(1)] by blast
  show ?thesis
  proof (cases "\<exists>lm rm. lv = JMap lm \<and> rv = JMap rm")
    case True
    then show ?thesis using Some
      by (auto simp: merge_loop.simps(2) entry_status_def merged_entry_def kind_map_def split: prod.splits merge_status.splits)
  next
    case False
    then have "\<not> kind_map lv \<or> \<not> kind_map rv" using lv wf_kind [OF assms(2)] by blast
    with False show ?thesis using Some
      by (cases lv; cases rv) (auto simp: merge_loop.simps(2) entry_status_def merged_entry_def kind_map_def)
  qed
qed

lemma set_put: "x \<in> set (alist_put k v m) \<Longrightarrow> x = (k, v) \<or> x \<in> set m"
  by (induction k v m rule: alist_put.induct) (auto split: if_splits)

lemma wf_put_map: "shadow_wf (JMap m) \<Longrightarrow> shadow_wf v \<Longrightarrow> shadow_wf (JMap (alist_put k v m))"
  using wf_put [of m k v] by (fastforce simp: alist_wf_def dest: set_put)

lemma merge_wf:
  "shadow_wf (JMap l) \<Longrightarrow> shadow_wf (JMap r) \<Longrightarrow> shadow_wf (JMap (snd (merge l r d mx)))"
  "shadow_wf (JMap l) \<Longrightarrow> shadow_wf (JMap r) \<Longrightarrow> shadow_wf (JMap (snd (merge_loop l r d mx)))"
proof (induction l r d mx and l r d mx rule: merge_merge_loop.induct)
  case (1 left right depth maxDepth)
  then show ?case by (simp add: merge.simps del: shadow_wf.simps)
next
  case (2 left depth maxDepth)
  then show ?case by simp
next
  case (3 left rk rv right depth maxDepth)
  have rv: "shadow_wf rv" and right: "shadow_wf (JMap right)" using 3(6) by auto
  show ?case
  proof (cases "map_of left rk")
    case None
    then show ?thesis
      using 3(1) [OF None wf_put_map [OF 3(5) rv] right] by (simp add: merge_loop.simps(2) del: shadow_wf.simps)
  next
    case (Some lv)
    have lv: "shadow_wf lv" using wf_entry [OF 3(5) Some] .
    show ?thesis
    proof (cases "\<not> kind_map lv \<or> \<not> kind_map rv")
      case True
      then show ?thesis
        using 3(2) [OF Some True wf_put_map [OF 3(5) rv] right] Some by (simp add: merge_loop.simps(2) del: shadow_wf.simps)
    next
      case False
      then obtain lm rm where m: "lv = JMap lm" "rv = JMap rm" using wf_kind [OF lv] wf_kind [OF rv] by blast
      obtain e lm' where e: "merge lm rm (depth + 1) maxDepth = (e, lm')" by fastforce
      have lm': "shadow_wf (JMap lm')"
        using 3(3) [OF Some False refl m] lv rv e by (simp add: m del: shadow_wf.simps)
      note put = wf_put_map [OF 3(5) lm']
      show ?thesis
      proof (cases e)
        case MOk
        then show ?thesis
          using 3(4) [OF Some False refl m e [symmetric] MOk put right] Some False e
          by (simp add: merge_loop.simps(2) m del: shadow_wf.simps)
      qed (use Some False e put in \<open>simp_all add: merge_loop.simps(2) m del: shadow_wf.simps\<close>)
    qed
  qed
qed

lemma wf_merged_entry:
  assumes "shadow_wf (JMap left)" "shadow_wf rv"
  shows "shadow_wf (the (merged_entry depth maxDepth (map_of left rk) (Some rv)))"
proof (cases "\<exists>lm rm. map_of left rk = Some (JMap lm) \<and> rv = JMap rm")
  case True
  then obtain lm rm where m: "map_of left rk = Some (JMap lm)" "rv = JMap rm" by blast
  have "shadow_wf (JMap (snd (merge lm rm (depth + 1) maxDepth)))"
    using merge_wf(1) [OF wf_entry [OF assms(1) m(1)]] assms(2) m(2) by blast
  then show ?thesis by (simp add: merged_entry_def m del: shadow_wf.simps)
next
  case False
  then show ?thesis using assms(2)
    by (auto simp: merged_entry_def simp del: shadow_wf.simps split: option.splits jv.splits)
qed

lemma merge_loop_ok:
  assumes "shadow_wf (JMap l)" "shadow_wf (JMap r)"
  shows "(fst (merge_loop l r d mx) = MOk \<longleftrightarrow> (\<forall>k. entry_status d mx (map_of l k) (map_of r k))) \<and>
    (fst (merge_loop l r d mx) = MOk \<longrightarrow>
      (\<forall>k. map_of (snd (merge_loop l r d mx)) k = merged_entry d mx (map_of l k) (map_of r k)))"
  using assms
proof (induction r arbitrary: l)
  case Nil
  then show ?case by (simp add: entry_status_def merged_entry_def split: option.splits jv.splits)
next
  case (Cons e r)
  obtain rk rv where e: "e = (rk, rv)" by fastforce
  have rv: "shadow_wf rv" and r: "shadow_wf (JMap r)" and fresh: "map_of r rk = None"
    using Cons.prems(2) by (auto simp: e map_of_eq_None_iff)
  let ?l = "alist_put rk (the (merged_entry d mx (map_of l rk) (Some rv))) l"
  note step = merge_loop_step [OF Cons.prems(1) rv, of rk r d mx]
  have IH: "(fst (merge_loop ?l r d mx) = MOk \<longleftrightarrow> (\<forall>k. entry_status d mx (map_of ?l k) (map_of r k))) \<and>
    (fst (merge_loop ?l r d mx) = MOk \<longrightarrow>
      (\<forall>k. map_of (snd (merge_loop ?l r d mx)) k = merged_entry d mx (map_of ?l k) (map_of r k)))"
    by (rule Cons.IH [OF wf_put_map [OF Cons.prems(1) wf_merged_entry [OF Cons.prems(1) rv]] r])
  have others: "entry_status d mx (map_of ?l k) (map_of r k) \<longleftrightarrow>
      (k \<noteq> rk \<longrightarrow> entry_status d mx (map_of l k) (map_of (e # r) k))" for k
    by (cases "k = rk") (simp_all add: e fresh)
  have entries: "merged_entry d mx (map_of ?l k) (map_of r k) = merged_entry d mx (map_of l k) (map_of (e # r) k)" for k
    using merged_entry_Some [of d mx "map_of l rk" rv] by (cases "k = rk") (auto simp: e fresh)
  show ?case
  proof (cases "entry_status d mx (map_of l rk) (Some rv)")
    case True
    then have eq: "merge_loop l (e # r) d mx = merge_loop ?l r d mx" by (simp add: e step)
    have "(\<forall>k. entry_status d mx (map_of l k) (map_of (e # r) k)) \<longleftrightarrow>
      (\<forall>k. entry_status d mx (map_of ?l k) (map_of r k))"
      unfolding others using True by (metis e map_of_Cons_code(2))
    then show ?thesis using IH entries by (simp add: eq)
  next
    case False
    then have "fst (merge_loop l (e # r) d mx) \<noteq> MOk"
      by (auto simp: e step entry_status_def split: option.splits jv.splits)
    moreover have "\<not> (\<forall>k. entry_status d mx (map_of l k) (map_of (e # r) k))"
      using False by (auto simp: e intro!: exI [of _ rk])
    ultimately show ?thesis by blast
  qed
qed

definition Report_Merge :: "'s jmap \<Rightarrow> 's jmap \<Rightarrow> merge_status \<times> 's jmap" where
  "Report_Merge r reported = merge r reported 1 maxJSONLevel"

definition Desire_Merge :: "'s jmap \<Rightarrow> 's jmap \<Rightarrow> merge_status \<times> 's jmap" where
  "Desire_Merge d desired = merge d desired 1 maxJSONLevel"

section \<open>Paths\<close>

fun get :: "string list \<Rightarrow> 's jv \<Rightarrow> 's jv option" where
  "get [] v = Some v"
| "get (k # p) v = (case v of JMap m \<Rightarrow> (case map_of m k of None \<Rightarrow> None | Some w \<Rightarrow> get p w) | _ \<Rightarrow> None)"

definition is_JMap :: "'s jv \<Rightarrow> bool" where
  "is_JMap v = (case v of JMap _ \<Rightarrow> True | _ \<Rightarrow> False)"

text \<open>\<open>leaf p m v\<close>: the path of keys \<open>p\<close> leads to the value \<open>v\<close>, which is no map; \<open>map_at p m\<close>: it leads to a map.\<close>

definition leaf :: "string list \<Rightarrow> 's jmap \<Rightarrow> 's jv \<Rightarrow> bool" where
  "leaf p m v \<longleftrightarrow> get p (JMap m) = Some v \<and> \<not> is_JMap v"

definition map_at :: "string list \<Rightarrow> 's jmap \<Rightarrow> bool" where
  "map_at p m \<longleftrightarrow> (\<exists>m'. get p (JMap m) = Some (JMap m'))"

lemma is_JMap_iff: "is_JMap v \<longleftrightarrow> (\<exists>m. v = JMap m)"
  by (cases v) (simp_all add: is_JMap_def)

lemma is_JMap_JMap [simp]: "is_JMap (JMap m)"
  by (simp add: is_JMap_def)

lemma leaf_Nil [simp]: "\<not> leaf [] m v"
  by (auto simp: leaf_def)

lemma map_at_Nil [simp]: "map_at [] m"
  by (simp add: map_at_def)

lemma get_no_map: "\<not> is_JMap v \<Longrightarrow> get p v = Some w \<longleftrightarrow> p = [] \<and> w = v"
  by (cases p; cases v) (auto simp: is_JMap_def)

lemma leaf_Cons:
  "leaf (k # p) m v \<longleftrightarrow>
     (\<exists>w. map_of m k = Some w \<and> (if is_JMap w then (\<exists>m'. w = JMap m' \<and> leaf p m' v) else p = [] \<and> v = w))"
proof (cases "map_of m k")
  case None
  then show ?thesis by (simp add: leaf_def)
next
  case (Some w)
  show ?thesis
  proof (cases "is_JMap w")
    case True
    then show ?thesis using Some by (auto simp: leaf_def is_JMap_iff)
  next
    case False
    then show ?thesis using Some by (auto simp: leaf_def get_no_map)
  qed
qed

lemma map_at_Cons: "map_at (k # p) m \<longleftrightarrow> (\<exists>m'. map_of m k = Some (JMap m') \<and> map_at p m')"
proof (cases "map_of m k")
  case None
  then show ?thesis by (simp add: map_at_def)
next
  case (Some w)
  show ?thesis
  proof (cases "is_JMap w")
    case True
    then show ?thesis using Some by (auto simp: map_at_def is_JMap_iff)
  next
    case False
    then show ?thesis using Some get_no_map [OF False, of p] by (auto simp: map_at_def)
  qed
qed

text \<open>\<open>hidden p r\<close>: the path reaches or passes through something that \<open>r\<close> sets.\<close>

definition hidden :: "string list \<Rightarrow> 's jmap \<Rightarrow> bool" where
  "hidden p r \<longleftrightarrow> get p (JMap r) \<noteq> None \<or> (\<exists>q w. prefix q p \<and> leaf q r w)"

lemma hidden_Cons:
  "hidden (k # p) r \<longleftrightarrow> (\<exists>w. map_of r k = Some w \<and> (\<forall>m. w = JMap m \<longrightarrow> hidden p m))"
proof (cases "map_of r k")
  case None
  then show ?thesis by (auto simp: hidden_def leaf_Cons prefix_Cons)
next
  case (Some w)
  show ?thesis
  proof (cases "is_JMap w")
    case True
    then obtain m where m: "w = JMap m" by (auto simp: is_JMap_iff)
    have "(\<exists>q u. prefix q (k # p) \<and> leaf q r u) \<longleftrightarrow> (\<exists>q u. prefix q p \<and> leaf q m u)"
    proof
      assume "\<exists>q u. prefix q (k # p) \<and> leaf q r u"
      then show "\<exists>q u. prefix q p \<and> leaf q m u" by (fastforce simp: prefix_Cons leaf_Cons Some m)
    next
      assume "\<exists>q u. prefix q p \<and> leaf q m u"
      then obtain q u where "prefix q p" "leaf q m u" by blast
      then have "prefix (k # q) (k # p)" "leaf (k # q) r u" by (simp_all add: leaf_Cons Some m)
      then show "\<exists>q u. prefix q (k # p) \<and> leaf q r u" by blast
    qed
    with Some m show ?thesis by (simp add: hidden_def)
  next
    case False
    with Some have "leaf [k] r w" by (simp add: leaf_Cons)
    moreover have "prefix [k] (k # p)" by simp
    ultimately show ?thesis using Some False by (auto simp: hidden_def is_JMap_def)
  qed
qed

lemma merge_MOk:
  assumes "shadow_wf (JMap l)" "shadow_wf (JMap r)" "fst (merge l r d mx) = MOk"
  shows "entry_status d mx (map_of l k) (map_of r k)"
    and "map_of (snd (merge l r d mx)) k = merged_entry d mx (map_of l k) (map_of r k)"
  using merge_loop_ok [OF assms(1,2), of d mx] assms(3) by (auto simp: merge.simps split: if_splits)

lemma merge_leaves:
  assumes "shadow_wf (JMap l)" "shadow_wf (JMap r)" "fst (merge l r d mx) = MOk"
  shows "leaf p (snd (merge l r d mx)) v \<longleftrightarrow> leaf p r v \<or> leaf p l v \<and> \<not> hidden p r"
  using assms
proof (induction p arbitrary: l r d)
  case Nil
  then show ?case by simp
next
  case (Cons k p)
  note entry = merge_MOk [OF Cons.prems, of k]
  show ?case
  proof (cases "map_of r k")
    case None
    then show ?thesis using entry by (simp add: leaf_Cons hidden_Cons)
  next
    case (Some rv)
    show ?thesis
    proof (cases "\<exists>lm rm. map_of l k = Some (JMap lm) \<and> rv = JMap rm")
      case True
      then obtain lm rm where m: "map_of l k = Some (JMap lm)" "rv = JMap rm" by blast
      have ok: "fst (merge lm rm (d + 1) mx) = MOk" using entry(1) by (simp add: entry_status_def Some m)
      have "shadow_wf (JMap lm)" "shadow_wf (JMap rm)"
        using wf_entry [OF Cons.prems(1) m(1)] wf_entry [OF Cons.prems(2) Some] m by simp_all
      from Cons.IH [OF this ok] show ?thesis
        using entry(2) by (simp add: leaf_Cons hidden_Cons Some m merged_entry_def is_JMap_def)
    next
      case False
      then have "map_of (snd (merge l r d mx)) k = Some rv"
        using entry(2) by (auto simp: merged_entry_def Some split: option.splits jv.splits)
      moreover have "leaf (k # p) l v \<Longrightarrow> hidden (k # p) r"
      proof (cases "is_JMap rv")
        case True
        then obtain rm where rm: "rv = JMap rm" by (auto simp: is_JMap_iff)
        assume "leaf (k # p) l v"
        with False rm have "p = []" by (auto simp: leaf_Cons split: if_splits)
        then show ?thesis by (simp add: hidden_def Some)
      next
        case False
        then show ?thesis by (auto simp: hidden_Cons Some is_JMap_def)
      qed
      ultimately show ?thesis by (auto simp: leaf_Cons Some)
    qed
  qed
qed

lemma merge_ok_paths:
  assumes "shadow_wf (JMap l)" "shadow_wf (JMap r)"
  shows "fst (merge l r d mx) = MOk \<longleftrightarrow> \<not> (\<exists>p. length p = mx - d \<and> map_at p l \<and> map_at p r)"
  using assms
proof (induction "mx - d" arbitrary: l r d)
  case 0
  then show ?case by (simp add: merge.simps)
next
  case (Suc n)
  have inner: "fst (merge lm rm (d + 1) mx) = MOk \<longleftrightarrow> \<not> (\<exists>p. length p = n \<and> map_at p lm \<and> map_at p rm)"
    if "map_of l k = Some (JMap lm)" "map_of r k = Some (JMap rm)" for k lm rm
  proof -
    have n: "n = mx - (d + 1)" using Suc.hyps(2) by simp
    from Suc.hyps(1) [OF n wf_entry [OF Suc.prems(1) that(1)] wf_entry [OF Suc.prems(2) that(2)]]
    show ?thesis by (simp add: n)
  qed
  have "fst (merge l r d mx) = MOk \<longleftrightarrow> (\<forall>k. entry_status d mx (map_of l k) (map_of r k))"
  proof -
    have "\<not> mx \<le> d" using Suc.hyps(2) by simp
    then show ?thesis using merge_loop_ok [OF Suc.prems, of d mx] by (simp only: merge.simps if_False)
  qed
  also have "\<dots> \<longleftrightarrow> (\<forall>k lm rm. map_of l k = Some (JMap lm) \<and> map_of r k = Some (JMap rm) \<longrightarrow>
      fst (merge lm rm (d + 1) mx) = MOk)"
    by (fastforce simp: entry_status_def split: option.splits jv.splits)
  also have "\<dots> \<longleftrightarrow> \<not> (\<exists>k p. length p = n \<and> map_at (k # p) l \<and> map_at (k # p) r)"
    unfolding map_at_Cons using inner by blast
  also have "\<dots> \<longleftrightarrow> \<not> (\<exists>p. length p = mx - d \<and> map_at p l \<and> map_at p r)"
    using Suc.hyps(2) [symmetric] by (auto simp: length_Suc_conv)
  finally show ?case .
qed

text \<open>
  C10. Merge of a report. For well-formed maps the merge succeeds exactly when there is no path of four keys at which both sides hold a map (it
  is one less than the constant five of the limit), and otherwise it returns an error. After a successful merge the values that are not maps are exactly
  those of the new report, at their paths, and those of the old report at paths which do not reach or pass through anything the new
  report sets. The order in which the keys are met does not matter.
\<close>

theorem report_merge:
  assumes "shadow_wf (JMap r)" "shadow_wf (JMap reported)"
  shows "(fst (Report_Merge r reported) = MOk \<longleftrightarrow> \<not> (\<exists>p. length p = 4 \<and> map_at p r \<and> map_at p reported)) \<and>
    (fst (Report_Merge r reported) = MOk \<longrightarrow>
      (leaf p (snd (Report_Merge r reported)) v \<longleftrightarrow> leaf p reported v \<or> leaf p r v \<and> \<not> hidden p reported))"
  using merge_ok_paths [OF assms, of 1 5] merge_leaves [OF assms, of 1 5 p v]
  by (simp add: Report_Merge_def maxJSONLevel_def)

definition old_report :: "unit jmap" where
  "old_report = [(''core'', JMap [(''version'', JStr ''1''), (''rev'', JStr ''a'')]), (''time'', JStr ''t0'')]"

definition new_report :: "unit jmap" where
  "new_report = [(''core'', JMap [(''version'', JStr ''2'')]), (''node'', JNull)]"

theorem report_merge_witness:
  "fst (Report_Merge old_report new_report) = MOk \<and>
   leaf [''core'', ''rev''] (snd (Report_Merge old_report new_report)) (JStr ''a'') \<and>
   leaf [''core'', ''version''] (snd (Report_Merge old_report new_report)) (JStr ''2'')"
proof -
  have wf: "shadow_wf (JMap old_report)" "shadow_wf (JMap new_report)"
    by (simp_all add: old_report_def new_report_def)
  have "fst (Report_Merge old_report new_report) = MOk"
    by (simp add: Report_Merge_def maxJSONLevel_def merge.simps merge_loop.simps kind_map_def old_report_def new_report_def)
  moreover have "leaf [''core'', ''rev''] old_report (JStr ''a'')" "\<not> hidden [''core'', ''rev''] new_report"
    "leaf [''core'', ''version''] new_report (JStr ''2'')"
    by (simp_all add: leaf_Cons hidden_Cons is_JMap_def old_report_def new_report_def)
  ultimately show ?thesis
    using report_merge [OF wf, of "[''core'', ''rev'']" "JStr ''a''"] report_merge [OF wf, of "[''core'', ''version'']" "JStr ''2''"]
    by blast
qed

section \<open>Difference and patch\<close>

text \<open>\<^verbatim>\<open>clean\<close> deletes the null entries of a map and of the maps nested in it.\<close>

definition is_JNull :: "'s jv \<Rightarrow> bool" where
  "is_JNull v = (case v of JNull \<Rightarrow> True | _ \<Rightarrow> False)"

fun clean_val :: "'s jv \<Rightarrow> 's jv" where
  "clean_val (JMap m) = JMap (map (\<lambda>(k, v). (k, clean_val v)) (filter (\<lambda>(k, v). \<not> is_JNull v) m))"
| "clean_val v = v"

definition clean :: "'s jmap \<Rightarrow> 's jmap" where
  "clean m = map (\<lambda>(k, v). (k, clean_val v)) (filter (\<lambda>(k, v). \<not> is_JNull v) m)"

lemma clean_JMap: "clean_val (JMap m) = JMap (clean m)"
  by (simp add: clean_def)

lemma clean_val_no_map [simp]: "\<not> is_JMap v \<Longrightarrow> clean_val v = v"
  by (cases v) simp_all

lemma map_of_filter_vals:
  "distinct (map fst m) \<Longrightarrow> map_of (filter (\<lambda>(k, v). P v) m) k = (case map_of m k of Some v \<Rightarrow> if P v then Some v else None | None \<Rightarrow> None)"
  by (induction m) (auto split: option.splits dest: map_of_SomeD simp: map_of_eq_None_iff)

lemma map_of_clean:
  assumes "distinct (map fst m)"
  shows "map_of (clean m) k = (case map_of m k of Some v \<Rightarrow> if is_JNull v then None else Some (clean_val v) | None \<Rightarrow> None)"
  using map_of_filter_vals [OF assms, of "\<lambda>v. \<not> is_JNull v" k]
  by (simp add: clean_def map_of_map split: option.splits)

text \<open>The values that are not maps are kept, less the nulls.\<close>

lemma clean_leaves: "shadow_wf (JMap m) \<Longrightarrow> leaf p (clean m) v \<longleftrightarrow> leaf p m v \<and> \<not> is_JNull v"
proof (induction p arbitrary: m)
  case Nil
  then show ?case by simp
next
  case (Cons k p)
  have dist: "distinct (map fst m)" using Cons.prems by simp
  show ?case
  proof (cases "map_of m k")
    case None
    then show ?thesis by (simp add: leaf_Cons map_of_clean [OF dist])
  next
    case (Some w)
    show ?thesis
    proof (cases "is_JMap w")
      case True
      then obtain m' where m': "w = JMap m'" by (auto simp: is_JMap_iff)
      have "\<not> is_JNull w" by (simp add: m' is_JNull_def)
      with Cons.IH [of m'] wf_entry [OF Cons.prems Some] Some m' show ?thesis
        by (simp add: leaf_Cons map_of_clean [OF dist] clean_JMap del: clean_val.simps)
    next
      case False
      then show ?thesis using Some by (auto simp: leaf_Cons map_of_clean [OF dist])
    qed
  qed
qed

text \<open>
  \<open>marshal\<close> and \<open>unmarshal\<close> are the JSON codec; \<open>create\<close> and \<open>apply_patch\<close> are \<^verbatim>\<open>jsonpatch.CreateMergePatch\<close> and \<^verbatim>\<open>MergePatch\<close>.
\<close>

definition diff ::
  "('s jmap \<Rightarrow> (string, string) result) \<Rightarrow> (string \<Rightarrow> string \<Rightarrow> (string, string) result) \<Rightarrow> (string \<Rightarrow> (string, 's jmap) result) \<Rightarrow>
     's jmap \<Rightarrow> 's jmap \<Rightarrow> bool \<Rightarrow> (string, 's jmap) result" where
  "diff marshal create unmarshal desired reported cleanNil =
     rbind (marshal reported) (\<lambda>r.
     rbind (marshal desired) (\<lambda>d.
     rbind (create r d) (\<lambda>patch.
     rbind (unmarshal patch) (\<lambda>delta. Inr (if cleanNil then clean delta else delta)))))"

definition Desire_Diff where
  "Desire_Diff marshal create unmarshal d reported = diff marshal create unmarshal d reported True"

definition DiffWithNil where
  "DiffWithNil marshal create unmarshal d report = diff marshal create unmarshal d report False"

definition patch ::
  "('s jmap \<Rightarrow> (string, string) result) \<Rightarrow> (string \<Rightarrow> string \<Rightarrow> (string, string) result) \<Rightarrow> (string \<Rightarrow> (string, 's jmap) result) \<Rightarrow>
     's jmap \<Rightarrow> 's jmap \<Rightarrow> (string, 's jmap) result" where
  "patch marshal apply_patch unmarshal doc delta =
     rbind (marshal doc) (\<lambda>docData.
     rbind (marshal delta) (\<lambda>deltaData.
     rbind (apply_patch docData deltaData) unmarshal))"

lemma Diff_of_DiffWithNil:
  "Desire_Diff marshal create unmarshal d reported =
     rbind (DiffWithNil marshal create unmarshal d reported) (\<lambda>delta. Inr (clean delta))"
  by (simp add: Desire_Diff_def DiffWithNil_def diff_def rbind_assoc)

section \<open>Listed applications and devices\<close>

definition KeyDevices :: string where "KeyDevices = ''devices''"
definition KeyApps :: string where "KeyApps = ''apps''"
definition KeySysApps :: string where "KeySysApps = ''sysapps''"
definition KeyAppStats :: string where "KeyAppStats = ''appstats''"
definition KeySysAppStats :: string where "KeySysAppStats = ''sysappstats''"

text \<open>The result of a getter: a slice, nil, or a panic of a failed type assertion.\<close>

datatype 'i infos = Infos "'i list" | NilInfos | InfosPanic

fun text_entry :: "'s jmap \<Rightarrow> string \<Rightarrow> string option" where
  "text_entry m k = (case map_of m k of Some (JStr t) \<Rightarrow> Some t | _ \<Rightarrow> None)"

fun infos_loop :: "(string \<Rightarrow> string \<Rightarrow> 'i) \<Rightarrow> 's jv list \<Rightarrow> 'i infos" where
  "infos_loop mk [] = Infos []"
| "infos_loop mk (v # vs) =
     (case v of
        JMap m \<Rightarrow>
          (case (text_entry m ''name'', text_entry m ''version'') of
             (Some n, Some ver) \<Rightarrow> (case infos_loop mk vs of Infos is \<Rightarrow> Infos (mk n ver # is) | r \<Rightarrow> r)
           | _ \<Rightarrow> InfosPanic)
      | _ \<Rightarrow> InfosPanic)"

definition getAppInfos :: "string \<Rightarrow> 's jmap option \<Rightarrow> AppInfo infos" where
  "getAppInfos appType data =
     (case data of
        None \<Rightarrow> NilInfos
      | Some m \<Rightarrow>
          (case map_of m appType of
             Some (JApps as) \<Rightarrow> Infos as
           | Some (JArr ais) \<Rightarrow> infos_loop (\<lambda>n v. \<lparr>ai_Name = n, ai_Version = v\<rparr>) ais
           | _ \<Rightarrow> NilInfos))"

definition getDeviceInfos :: "'s jmap option \<Rightarrow> DevInfo infos" where
  "getDeviceInfos data =
     (case data of
        None \<Rightarrow> NilInfos
      | Some m \<Rightarrow>
          (case map_of m KeyDevices of
             Some (JDevices ds) \<Rightarrow> Infos ds
           | Some (JArr dis) \<Rightarrow> infos_loop (\<lambda>n v. \<lparr>di_Name = n, di_Version = v\<rparr>) dis
           | _ \<Rightarrow> NilInfos))"

definition AppInfos :: "bool \<Rightarrow> 's jmap option \<Rightarrow> AppInfo infos" where
  "AppInfos isSys r = (if isSys then getAppInfos KeySysApps r else getAppInfos KeyApps r)"

definition SetAppInfos :: "bool \<Rightarrow> AppInfo list \<Rightarrow> 's jmap \<Rightarrow> 's jmap" where
  "SetAppInfos isSys as r = (if isSys then alist_put KeySysApps (JApps as) r else alist_put KeyApps (JApps as) r)"

definition SetDeviceInfos :: "DevInfo list \<Rightarrow> 's jmap \<Rightarrow> 's jmap" where
  "SetDeviceInfos devs r = alist_put KeyDevices (JDevices devs) r"

definition SetAppStats :: "bool \<Rightarrow> 's \<Rightarrow> 's jmap \<Rightarrow> 's jmap" where
  "SetAppStats isSys stats r = (if isSys then alist_put KeySysAppStats (JStats stats) r else alist_put KeyAppStats (JStats stats) r)"

text \<open>\<open>decode\<close> is \<^verbatim>\<open>mapstructure\<close> with the hook for times; a value it cannot decode gives nil.\<close>

definition getAppStats :: "('s jv \<Rightarrow> 's option) \<Rightarrow> string \<Rightarrow> 's jmap option \<Rightarrow> 's option" where
  "getAppStats decode statsType data =
     (case data of
        None \<Rightarrow> None
      | Some m \<Rightarrow>
          (case map_of m statsType of
             None \<Rightarrow> None | Some JNull \<Rightarrow> None | Some (JStats s) \<Rightarrow> Some s | Some v \<Rightarrow> decode v))"

definition AppStats :: "('s jv \<Rightarrow> 's option) \<Rightarrow> bool \<Rightarrow> 's jmap option \<Rightarrow> 's option" where
  "AppStats decode isSys r = (if isSys then getAppStats decode KeySysAppStats r else getAppStats decode KeyAppStats r)"

text \<open>What a JSON round trip makes of stored infos: name and version are \<^verbatim>\<open>omitempty\<close>.\<close>

definition json_text :: "string \<Rightarrow> string \<Rightarrow> 's jmap" where
  "json_text k t = (if t = [] then [] else [(k, JStr t)])"

definition json_info :: "string \<Rightarrow> string \<Rightarrow> 's jv" where
  "json_info n v = JMap (json_text ''name'' n @ json_text ''version'' v)"

lemma text_json:
  "text_entry (json_text ''name'' n @ json_text ''version'' v) ''name'' = (if n = [] then None else Some n)"
  "text_entry (json_text ''name'' n @ json_text ''version'' v) ''version'' = (if v = [] then None else Some v)"
  by (simp_all add: json_text_def)

lemma infos_loop_json:
  "infos_loop mk (map (\<lambda>(n, v). json_info n v) as) =
     (if list_all (\<lambda>(n, v). n \<noteq> [] \<and> v \<noteq> []) as then Infos (map (\<lambda>(n, v). mk n v) as) else InfosPanic)"
  by (induction as) (auto simp: json_info_def text_json simp del: text_entry.simps split: infos.splits option.splits)

text \<open>
  Listed applications. Reading back what \<^verbatim>\<open>SetAppInfos\<close> stored gives the same list. When the report has been through JSON in between, reading gives
  the same list if every application has a name and a version, and panics otherwise: an empty text is omitted and the getter asserts that it is there.
\<close>

theorem app_infos_roundtrip:
  "AppInfos isSys (Some (SetAppInfos isSys as r)) = Infos as \<and>
   getAppInfos k (Some (alist_put k (JArr (map (\<lambda>a. json_info (ai_Name a) (ai_Version a)) as)) r)) =
     (if list_all (\<lambda>a. ai_Name a \<noteq> [] \<and> ai_Version a \<noteq> []) as then Infos as else InfosPanic)"
proof -
  have infos: "map (\<lambda>a. json_info (ai_Name a) (ai_Version a)) as =
      map (\<lambda>(n, v). json_info n v) (map (\<lambda>a. (ai_Name a, ai_Version a)) as)" by simp
  have id: "map (\<lambda>(n, v). \<lparr>ai_Name = n, ai_Version = v\<rparr>) (map (\<lambda>a. (ai_Name a, ai_Version a)) as) = as"
    by (simp add: o_def map_idI)
  show ?thesis
    unfolding infos by (simp add: AppInfos_def SetAppInfos_def getAppInfos_def infos_loop_json list_all_iff id del: map_map)
qed

end
