(* ===== verification/Spec_Delta.thy ===== *)
theory Spec_Delta
  imports Spec_Shadow
begin

text \<open>
  Difference and merge of the shadow together (\<^verbatim>\<open>Desire.Diff\<close> and \<^verbatim>\<open>Report.Merge\<close> of \<^verbatim>\<open>spec/v1/node.go\<close>): a reference definition of merge patches,
  what the patch of the \<^verbatim>\<open>json-patch\<close> package is relied on for, and that a report which merges the differences it is sent settles.
\<close>

section \<open>Merge patches\<close>

text \<open>The algorithm of RFC 7396 on decoded documents: null removes, an object is applied entry by entry, anything else replaces.\<close>

function rfc_patch :: "'s jmap \<Rightarrow> 's jmap \<Rightarrow> 's jmap"
  and rfc_value :: "'s jv option \<Rightarrow> 's jv \<Rightarrow> 's jv" where
  "rfc_patch m [] = m"
| "rfc_patch m ((k, v) # p) =
     rfc_patch (if is_JNull v then alist_del k m else alist_put k (rfc_value (map_of m k) v) m) p"
| "rfc_value t v =
     (case v of
        JMap p \<Rightarrow> JMap (rfc_patch (case t of Some (JMap m) \<Rightarrow> m | _ \<Rightarrow> []) p)
      | _ \<Rightarrow> v)"
  by pat_completeness auto
termination
  by (relation "measure (\<lambda>x. case x of Inl (m, p) \<Rightarrow> size_list (size_prod (\<lambda>_. 0) size) p | Inr (t, v) \<Rightarrow> size v)") auto

declare rfc_value.simps [simp del]

lemma rfc_value_simps [simp]:
  "rfc_value (Some (JMap m)) (JMap p) = JMap (rfc_patch m p)"
  "\<not> is_JMap w \<Longrightarrow> rfc_value (Some w) (JMap p) = JMap (rfc_patch [] p)"
  "rfc_value None (JMap p) = JMap (rfc_patch [] p)"
  "\<not> is_JMap v \<Longrightarrow> rfc_value t v = v"
  by (auto simp: rfc_value.simps is_JMap_def split: jv.splits)

lemma map_of_rfc_patch:
  "distinct (map fst p) \<Longrightarrow> map_of (rfc_patch m p) k =
     (case map_of p k of None \<Rightarrow> map_of m k | Some v \<Rightarrow> if is_JNull v then None else Some (rfc_value (map_of m k) v))"
proof (induction p arbitrary: m)
  case (Cons kv p)
  obtain k' v where kv: "kv = (k', v)" by (cases kv)
  have "map_of p k' = None" using Cons.prems kv by (simp add: map_of_eq_None_iff)
  then show ?case using Cons.IH Cons.prems by (auto simp: kv split: option.splits)
qed simp

lemma null_no_map: "is_JNull v \<Longrightarrow> \<not> is_JMap v"
  by (auto simp: is_JNull_def is_JMap_def split: jv.splits)

lemma get_iff: "get p (JMap m) \<noteq> None \<longleftrightarrow> map_at p m \<or> (\<exists>v. leaf p m v)"
  by (auto simp: map_at_def leaf_def is_JMap_iff)

lemma hidden_iff: "hidden p m \<longleftrightarrow> map_at p m \<or> (\<exists>q v. prefix q p \<and> leaf q m v)"
  unfolding hidden_def get_iff by auto

lemma hidden_Nil [simp]: "hidden [] m"
  by (simp add: hidden_def)

lemma leaf_empty [simp]: "\<not> leaf p [] v" "map_at p [] \<longleftrightarrow> p = []"
  by (cases p; simp add: leaf_Cons map_at_Cons)+

text \<open>The values of a patched document, by their paths.\<close>

lemma rfc_leaves:
  "shadow_wf (JMap p) \<Longrightarrow> leaf ks (rfc_patch m p) v \<longleftrightarrow> leaf ks p v \<and> \<not> is_JNull v \<or> leaf ks m v \<and> \<not> hidden ks p"
proof (induction ks arbitrary: m p)
  case Nil
  then show ?case by simp
next
  case (Cons k ks)
  have dist: "distinct (map fst p)" using Cons.prems by simp
  show ?case
  proof (cases "map_of p k")
    case None
    then show ?thesis by (simp add: leaf_Cons hidden_Cons map_of_rfc_patch [OF dist])
  next
    case (Some w)
    show ?thesis
    proof (cases "is_JMap w")
      case True
      then obtain p' where p': "w = JMap p'" by (auto simp: is_JMap_iff)
      have wf: "shadow_wf (JMap p')" using wf_entry [OF Cons.prems Some] p' by simp
      have "\<not> is_JNull (JMap p')" by (simp add: is_JNull_def)
      then show ?thesis using Cons.IH [OF wf]
        by (cases "map_of m k"; cases "is_JMap (the (map_of m k))")
          (auto simp: leaf_Cons hidden_Cons map_of_rfc_patch [OF dist] Some p' is_JMap_iff)
    next
      case False
      then show ?thesis by (auto simp: leaf_Cons hidden_Cons map_of_rfc_patch [OF dist] Some is_JMap_iff)
    qed
  qed
qed

lemma rfc_maps: "shadow_wf (JMap p) \<Longrightarrow> map_at ks p \<Longrightarrow> map_at ks (rfc_patch m p)"
proof (induction ks arbitrary: m p)
  case (Cons k ks)
  then obtain p' where p': "map_of p k = Some (JMap p')" "map_at ks p'" by (auto simp: map_at_Cons)
  have dist: "distinct (map fst p)" using Cons.prems by simp
  have "\<exists>m'. rfc_value (map_of m k) (JMap p') = JMap (rfc_patch m' p')"
    by (cases "map_of m k"; cases "is_JMap (the (map_of m k))") (auto simp: is_JMap_iff)
  then show ?case using Cons.IH [OF wf_entry [OF Cons.prems(1) p'(1)] p'(2)] p'
    by (auto simp: map_at_Cons map_of_rfc_patch [OF dist] is_JNull_def)
qed simp

section \<open>What the package promises\<close>

text \<open>Two documents with the same values and the same maps at the same paths.\<close>

definition same_doc :: "'s jmap \<Rightarrow> 's jmap \<Rightarrow> bool" where
  "same_doc a b \<longleftrightarrow> (\<forall>p. (\<forall>v. leaf p a v \<longleftrightarrow> leaf p b v) \<and> (map_at p a \<longleftrightarrow> map_at p b))"

definition no_nulls :: "'s jmap \<Rightarrow> bool" where
  "no_nulls m \<longleftrightarrow> (\<forall>p v. leaf p m v \<longrightarrow> \<not> is_JNull v)"

text \<open>
  \<^verbatim>\<open>CreateMergePatch\<close> returns \<open>a merge patch capable of converting the original document to the modified document\<close>, and no value that both documents
  have at the same path; read back from its text the patch has distinct keys. Null cannot be the target of a conversion, so the law speaks
  about documents without it.
\<close>

definition patch_law ::
  "('s jmap \<Rightarrow> (string, string) result) \<Rightarrow> (string \<Rightarrow> string \<Rightarrow> (string, string) result) \<Rightarrow> (string \<Rightarrow> (string, 's jmap) result) \<Rightarrow>
     's jmap \<Rightarrow> 's jmap \<Rightarrow> bool" where
  "patch_law marshal create unmarshal a b \<longleftrightarrow>
     (\<forall>ta tb tp delta. no_nulls b \<and> marshal a = Inr ta \<and> marshal b = Inr tb \<and> create ta tb = Inr tp \<and> unmarshal tp = Inr delta \<longrightarrow>
        shadow_wf (JMap delta) \<and> same_doc (rfc_patch a delta) b \<and>
        (\<forall>p v. leaf p delta v \<and> \<not> is_JNull v \<longrightarrow> \<not> leaf p a v))"

lemma Diff_cases:
  assumes "Desire_Diff marshal create unmarshal d r = Inr delta" "patch_law marshal create unmarshal r d" "no_nulls d"
  obtains raw where "delta = clean raw" "shadow_wf (JMap raw)" "same_doc (rfc_patch r raw) d"
    "\<And>p v. leaf p raw v \<Longrightarrow> \<not> is_JNull v \<Longrightarrow> \<not> leaf p r v"
  using assms unfolding Desire_Diff_def diff_def patch_law_def by (fastforce simp: rbind_eq_Inr)

section \<open>The report settles\<close>

lemma clean_maps: "shadow_wf (JMap m) \<Longrightarrow> map_at p (clean m) \<longleftrightarrow> map_at p m"
proof (induction p arbitrary: m)
  case (Cons k p)
  have dist: "distinct (map fst m)" using Cons.prems by simp
  show ?case
  proof (cases "map_of m k")
    case (Some w)
    show ?thesis
    proof (cases "is_JMap w")
      case True
      then obtain m' where m': "w = JMap m'" by (auto simp: is_JMap_iff)
      with Cons.IH [OF wf_entry [OF Cons.prems Some [unfolded m']]] Some show ?thesis
        by (simp add: map_at_Cons map_of_clean [OF dist] clean_JMap is_JNull_def del: clean_val.simps)
    next
      case False
      then show ?thesis using Some by (auto simp: map_at_Cons map_of_clean [OF dist])
    qed
  qed (simp add: map_at_Cons map_of_clean [OF dist])
qed simp

lemma clean_hidden:
  "shadow_wf (JMap m) \<Longrightarrow> hidden p (clean m) \<longleftrightarrow> map_at p m \<or> (\<exists>q v. prefix q p \<and> leaf q m v \<and> \<not> is_JNull v)"
  by (simp add: hidden_iff clean_maps clean_leaves)

text \<open>Nothing is found below a value that is no map, and nothing below a removed entry.\<close>

lemma get_append: "get (q @ s) v = Option.bind (get q v) (get s)"
  by (induction q arbitrary: v) (auto split: jv.splits option.splits)

lemma leaf_below:
  assumes "leaf q m w" "prefix q p" "get p (JMap m) \<noteq> None"
  shows "p = q"
  using assms by (auto simp: leaf_def prefix_def get_append get_no_map)

lemma get_above: "prefix q p \<Longrightarrow> get p v \<noteq> None \<Longrightarrow> get q v \<noteq> None"
  by (cases "get q v") (auto simp: prefix_def get_append)

lemma rfc_removed:
  "shadow_wf (JMap p) \<Longrightarrow> leaf ks p v \<Longrightarrow> is_JNull v \<Longrightarrow> get ks (JMap (rfc_patch m p)) = None"
proof (induction ks arbitrary: m p)
  case (Cons k ks)
  have dist: "distinct (map fst p)" using Cons.prems by simp
  obtain w where w: "map_of p k = Some w" using Cons.prems by (auto simp: leaf_Cons)
  show ?case
  proof (cases "is_JMap w")
    case True
    then obtain p' where p': "w = JMap p'" by (auto simp: is_JMap_iff)
    have "\<exists>m'. rfc_value (map_of m k) (JMap p') = JMap (rfc_patch m' p')"
      by (cases "map_of m k"; cases "is_JMap (the (map_of m k))") (auto simp: is_JMap_iff)
    then show ?thesis
      using Cons.IH [OF wf_entry [OF Cons.prems(1) w [unfolded p']]] Cons.prems w p'
      by (auto simp: leaf_Cons map_of_rfc_patch [OF dist] is_JNull_def)
  next
    case False
    then show ?thesis using Cons.prems w by (auto simp: leaf_Cons map_of_rfc_patch [OF dist] is_JMap_def)
  qed
qed simp

text \<open>Merging the cleaned difference leaves the values that merging the whole desire leaves.\<close>

lemma delta_leaves:
  assumes wf: "shadow_wf (JMap raw)" and doc: "same_doc (rfc_patch r raw) d"
  shows "leaf p (clean raw) v \<or> leaf p r v \<and> \<not> hidden p (clean raw) \<longleftrightarrow> leaf p d v \<or> leaf p r v \<and> \<not> hidden p d"
proof -
  have d: "leaf q d u \<longleftrightarrow> leaf q raw u \<and> \<not> is_JNull u \<or> leaf q r u \<and> \<not> hidden q raw" for q u
    using doc rfc_leaves [OF wf] unfolding same_doc_def by blast
  have maps: "map_at q raw \<Longrightarrow> map_at q d" for q
    using doc rfc_maps [OF wf] unfolding same_doc_def by blast
  have gone: "get q (JMap d) = None" if "leaf q raw z" "is_JNull z" for q z
    using rfc_removed [OF wf that, of r] get_iff [of q d] get_iff [of q "rfc_patch r raw"] doc
    unfolding same_doc_def by blast
  note c = clean_leaves [OF wf] clean_hidden [OF wf]
  have sub: "hidden p d" if "hidden p (clean raw)"
    using that d maps unfolding c(2) hidden_iff [of p d] by blast
  have kept: "leaf p d v" if "leaf p r v" "hidden p d" "\<not> hidden p (clean raw)"
  proof (rule ccontr)
    assume "\<not> leaf p d v"
    with that d have "hidden p raw" by blast
    with that(3) obtain q0 z where q0: "prefix q0 p" "leaf q0 raw z" "is_JNull z"
      unfolding hidden_iff clean_maps [OF wf] c(1) by blast
    have none: "get q (JMap d) = None" if "prefix q0 q" for q
      using gone [OF q0(2,3)] get_above [OF that] by blast
    from that(2) none [OF q0(1)] obtain q u where q: "prefix q p" "leaf q d u"
      unfolding hidden_iff using get_iff by blast
    have "get q (JMap d) \<noteq> None" using q(2) get_iff by blast
    then have "\<not> prefix q0 q" using none [of q] by auto
    then have "prefix q q0" using prefix_same_cases [OF q(1) q0(1)] by blast
    have "\<not> leaf q raw u \<or> is_JNull u"
      using leaf_below [of q raw u q0] q0 \<open>prefix q q0\<close> get_iff unfolding leaf_def by (metis option.inject option.distinct(1))
    with d q(2) have "leaf q r u" "\<not> hidden q raw" by blast+
    then have "p = q" using leaf_below [OF _ q(1)] that(1) get_iff by blast
    then have "q0 = q" using \<open>prefix q q0\<close> q0(1) by (simp add: prefix_order.antisym)
    with \<open>\<not> hidden q raw\<close> q0(2) show False unfolding hidden_iff by blast
  qed
  have own: "hidden p d" if "leaf p d v" using that unfolding hidden_iff by blast
  show ?thesis using d [of p v] sub kept own clean_hidden [OF wf, of p] unfolding c(1) hidden_iff [of p raw] by blast
qed

lemma keys_of_values: "fst \<circ> (\<lambda>(k, v). (k, f v)) = fst"
  by auto

lemma clean_val_wf: "shadow_wf v \<Longrightarrow> shadow_wf (clean_val v)"
proof (induction v rule: shadow_wf.induct)
  case (1 m)
  then show ?case by (auto simp: distinct_map_filter keys_of_values)
qed simp_all

lemma clean_wf: "shadow_wf (JMap m) \<Longrightarrow> shadow_wf (JMap (clean m))"
  using clean_val_wf [of "JMap m"] unfolding clean_JMap by simp


text \<open>A report, a desire and the texts of a small codec.\<close>

definition demo_r :: "unit jmap" where
  "demo_r = [(''core'', JMap [(''version'', JStr ''1''), (''rev'', JStr ''a'')]), (''time'', JStr ''t0'')]"

definition demo_d :: "unit jmap" where
  "demo_d = [(''core'', JMap [(''version'', JStr ''2'')])]"

definition demo_raw :: "unit jmap" where
  "demo_raw = [(''core'', JMap [(''version'', JStr ''2''), (''rev'', JNull)]), (''time'', JNull)]"

definition demo_rest :: "unit jmap" where
  "demo_rest = [(''core'', JMap [(''rev'', JNull)]), (''time'', JNull)]"

definition demo_marshal :: "unit jmap \<Rightarrow> (string, string) result" where
  "demo_marshal m = Inr (if m = demo_r then ''r'' else if m = demo_d then ''d'' else ''s'')"

definition demo_create :: "string \<Rightarrow> string \<Rightarrow> (string, string) result" where
  "demo_create a b = (if b = ''d'' then Inr (if a = ''r'' then ''p'' else ''q'') else Inl ''no patch'')"

definition demo_unmarshal :: "string \<Rightarrow> (string, unit jmap) result" where
  "demo_unmarshal t = (if t = ''p'' then Inr demo_raw else if t = ''q'' then Inr demo_rest else Inl ''no document'')"

definition demo_settled :: "unit jmap" where
  "demo_settled = [(''core'', JMap [(''version'', JStr ''2''), (''rev'', JStr ''a'')]), (''time'', JStr ''t0'')]"

lemma demo_leaves:
  "leaf p demo_raw v \<and> \<not> is_JNull v \<Longrightarrow> p = [''core'', ''version''] \<and> v = JStr ''2''"
  "leaf p demo_rest v \<Longrightarrow> is_JNull v"
  "leaf p demo_d v \<Longrightarrow> \<not> is_JNull v"
  by (cases p; cases "tl p"; auto simp: demo_raw_def demo_rest_def demo_d_def leaf_Cons is_JNull_def split: if_splits)+

lemma demo_docs:
  "rfc_patch demo_r demo_raw = demo_d" "rfc_patch demo_settled demo_rest = demo_d"
  "snd (Report_Merge demo_r (clean demo_raw)) = demo_settled" "fst (Report_Merge demo_r demo_d) = MOk"
  "shadow_wf (JMap demo_r)" "shadow_wf (JMap demo_d)" "shadow_wf (JMap demo_raw)" "shadow_wf (JMap demo_rest)"
  by code_simp+

lemma demo_patch_laws:
  "patch_law demo_marshal demo_create demo_unmarshal demo_r demo_d"
  "patch_law demo_marshal demo_create demo_unmarshal demo_settled demo_d"
proof -
  have texts: "demo_marshal demo_r = Inr ''r''" "demo_marshal demo_d = Inr ''d''" "demo_marshal demo_settled = Inr ''s''"
    by (simp_all add: demo_marshal_def demo_r_def demo_d_def demo_settled_def)
  have "\<not> leaf [''core'', ''version''] demo_r (JStr ''2'')" by (simp add: leaf_Cons demo_r_def)
  with demo_leaves(1) show "patch_law demo_marshal demo_create demo_unmarshal demo_r demo_d"
    by (auto simp: patch_law_def texts demo_create_def demo_unmarshal_def demo_docs same_doc_def simp del: shadow_wf.simps)
  show "patch_law demo_marshal demo_create demo_unmarshal demo_settled demo_d"
    using demo_leaves(2) by (auto simp: patch_law_def texts demo_create_def demo_unmarshal_def demo_docs same_doc_def simp del: shadow_wf.simps)
qed

lemma demo_diff: "Desire_Diff demo_marshal demo_create demo_unmarshal demo_d demo_r = Inr (clean demo_raw)"
  by code_simp


section \<open>The other methods of reports and desires\<close>

definition Report_Patch where
  "Report_Patch marshal apply_patch unmarshal r delta = patch marshal apply_patch unmarshal r delta"

definition Desire_Patch where
  "Desire_Patch marshal apply_patch unmarshal d delta = patch marshal apply_patch unmarshal d delta"

definition Report_DeviceInfos :: "'s jmap option \<Rightarrow> DevInfo infos" where
  "Report_DeviceInfos r = getDeviceInfos r"

definition Desire_DeviceInfos :: "'s jmap option \<Rightarrow> DevInfo infos" where
  "Desire_DeviceInfos d = getDeviceInfos d"

definition Desire_SetDeviceInfos :: "DevInfo list \<Rightarrow> 's jmap \<Rightarrow> 's jmap" where
  "Desire_SetDeviceInfos devs d = alist_put KeyDevices (JDevices devs) d"

definition Desire_AppInfos :: "bool \<Rightarrow> 's jmap option \<Rightarrow> AppInfo infos" where
  "Desire_AppInfos isSys d = (if isSys then getAppInfos KeySysApps d else getAppInfos KeyApps d)"

definition Desire_SetAppInfos :: "bool \<Rightarrow> AppInfo list \<Rightarrow> 's jmap \<Rightarrow> 's jmap" where
  "Desire_SetAppInfos isSys as d = (if isSys then alist_put KeySysApps (JApps as) d else alist_put KeyApps (JApps as) d)"

definition Desire_SetAppStats :: "bool \<Rightarrow> 's \<Rightarrow> 's jmap \<Rightarrow> 's jmap" where
  "Desire_SetAppStats isSys stats d =
     (if isSys then alist_put KeySysAppStats (JStats stats) d else alist_put KeyAppStats (JStats stats) d)"

definition Desire_AppStats :: "('s jv \<Rightarrow> 's option) \<Rightarrow> bool \<Rightarrow> 's jmap option \<Rightarrow> 's option" where
  "Desire_AppStats decode isSys d =
     (if isSys then getAppStats decode KeySysAppStats d else getAppStats decode KeyAppStats d)"

definition acceleratorMap :: "(string \<times> bool) list" where
  "acceleratorMap = map (\<lambda>a. (a, True)) [''nvidia'', ''jetson'', ''ascend'', ''bitmain'', ''cambricon'', ''kunlun'']"

definition IsLegalAcceleratorType :: "string \<Rightarrow> bool" where
  "IsLegalAcceleratorType accelerator = (case map_of acceleratorMap accelerator of Some _ \<Rightarrow> True | None \<Rightarrow> False)"

lemma IsLegalAcceleratorType_iff:
  "IsLegalAcceleratorType a \<longleftrightarrow> a \<in> set [''nvidia'', ''jetson'', ''ascend'', ''bitmain'', ''cambricon'', ''kunlun'']"
  by (simp add: IsLegalAcceleratorType_def acceleratorMap_def)

text \<open>
  The two lists of applications, the statistics and the devices have keys of their own: what one setter stored, the setters of the others leave alone.
\<close>

lemmas shadow_keys = KeyApps_def KeySysApps_def KeyAppStats_def KeySysAppStats_def KeyDevices_def

lemma desire_set_get:
  "Desire_AppInfos isSys (Some (Desire_SetAppInfos isSys as d)) = Infos as"
  "Desire_AppInfos isSys (Some (Desire_SetAppInfos (\<not> isSys) as d)) = Desire_AppInfos isSys (Some d)"
  "Desire_AppInfos isSys (Some (Desire_SetAppStats isSys' stats d)) = Desire_AppInfos isSys (Some d)"
  "Desire_AppInfos isSys (Some (Desire_SetDeviceInfos devs d)) = Desire_AppInfos isSys (Some d)"
  "Desire_AppStats decode isSys (Some (Desire_SetAppStats isSys stats d)) = Some stats"
  "Desire_AppStats decode isSys (Some (Desire_SetAppInfos isSys' as d)) = Desire_AppStats decode isSys (Some d)"
  "Desire_DeviceInfos (Some (Desire_SetDeviceInfos devs d)) = Infos devs"
  "Desire_DeviceInfos (Some (Desire_SetAppInfos isSys as d)) = Desire_DeviceInfos (Some d)"
  by (simp_all add: Desire_AppInfos_def Desire_SetAppInfos_def Desire_SetAppStats_def Desire_AppStats_def Desire_DeviceInfos_def
      Desire_SetDeviceInfos_def getAppInfos_def getAppStats_def getDeviceInfos_def shadow_keys)

end
