(* ===== verification/Spec_Heap.thy ===== *)
theory Spec_Heap
  imports Spec_Shadow
begin

text \<open>
  The merge of reports and desires over an explicit heap (\<^verbatim>\<open>merge\<close> of \<^verbatim>\<open>spec/v1/node.go\<close>). A Go map is a reference: \<^verbatim>\<open>left[rk] = rv\<close> stores the nested map of the
  right side itself, which both sides share from then on. The theory relates the heap version to the merge of values.
\<close>

section \<open>Maps on the heap\<close>

text \<open>A value in a map: a reference to a \<^verbatim>\<open>map[string]interface{}\<close>, or a value that is no such map.\<close>

datatype 's hv = HRef nat | HLeaf "'s jv"

type_synonym 's mheap = "nat \<Rightarrow> (string \<times> 's hv) list"

definition hkind_map :: "'s hv \<Rightarrow> bool" where
  "hkind_map v = (case v of HRef _ \<Rightarrow> True | HLeaf w \<Rightarrow> kind_map w)"

text \<open>
  The loop ranges over the keys that the right map has when it starts, and reads each value when it comes to it. The recursion ends because of the limit on the depth, also when
  the maps contain each other.
\<close>

function hmerge :: "'s mheap \<Rightarrow> nat \<Rightarrow> nat \<Rightarrow> nat \<Rightarrow> nat \<Rightarrow> merge_status \<times> 's mheap"
  and hmerge_loop :: "'s mheap \<Rightarrow> nat \<Rightarrow> nat \<Rightarrow> string list \<Rightarrow> nat \<Rightarrow> nat \<Rightarrow> merge_status \<times> 's mheap" where
  "hmerge h left right depth maxDepth =
     (if maxDepth \<le> depth then (ErrJSONLevelExceedsLimit, h)
      else hmerge_loop h left right (map fst (h right)) depth maxDepth)"
| "hmerge_loop h left right [] depth maxDepth = (MOk, h)"
| "hmerge_loop h left right (rk # rks) depth maxDepth =
     (case map_of (h right) rk of
        None \<Rightarrow> hmerge_loop h left right rks depth maxDepth
      | Some rv \<Rightarrow>
          (case map_of (h left) rk of
             None \<Rightarrow> hmerge_loop (h(left := alist_put rk rv (h left))) left right rks depth maxDepth
           | Some lv \<Rightarrow>
               if \<not> hkind_map lv \<or> \<not> hkind_map rv
               then hmerge_loop (h(left := alist_put rk rv (h left))) left right rks depth maxDepth
               else (case (lv, rv) of
                       (HRef la, HRef ra) \<Rightarrow>
                         (case hmerge h la ra (depth + 1) maxDepth of
                            (MOk, h') \<Rightarrow> hmerge_loop h' left right rks depth maxDepth
                          | (e, h') \<Rightarrow> (e, h'))
                     | _ \<Rightarrow> (MPanic, h))))"
  by pat_completeness auto
termination
  by (relation "measures [\<lambda>x. case x of Inl (h, l, r, d, m) \<Rightarrow> if m \<le> d then 0 else 2 * (m - d) + 2 | Inr (h, l, r, ks, d, m) \<Rightarrow> 2 * (m - d) + 1,
        \<lambda>x. case x of Inl _ \<Rightarrow> 0 | Inr (h, l, r, ks, d, m) \<Rightarrow> length ks]")
    auto

declare hmerge.simps [simp del] hmerge_loop.simps(2) [simp del]

definition Report_Merge_heap :: "'s mheap \<Rightarrow> nat \<Rightarrow> nat \<Rightarrow> merge_status \<times> 's mheap" where
  "Report_Merge_heap h r reported = hmerge h r reported 1 maxJSONLevel"

section \<open>Trees on the heap\<close>

text \<open>
  \<open>rep h v w F\<close>: the value \<open>v\<close> on the heap is the tree \<open>w\<close>, and \<open>F\<close> are the addresses of its maps. The maps below different keys have no address in
  common; \<open>G\<close> gives the addresses by key.
\<close>

inductive rep :: "'s mheap \<Rightarrow> 's hv \<Rightarrow> 's jv \<Rightarrow> nat set \<Rightarrow> bool" for h where
  rep_leaf: "\<not> is_JMap w \<Longrightarrow> rep h (HLeaf w) w {}"
| rep_ref: "map fst (h a) = map fst m \<Longrightarrow> distinct (map fst m) \<Longrightarrow>
    (\<And>k v. map_of (h a) k = Some v \<Longrightarrow> \<exists>w. map_of m k = Some w \<and> rep h v w (G k)) \<Longrightarrow>
    (\<And>k. map_of (h a) k = None \<Longrightarrow> G k = {}) \<Longrightarrow>
    (\<And>k. a \<notin> G k) \<Longrightarrow> (\<And>j k. j \<noteq> k \<Longrightarrow> G j \<inter> G k = {}) \<Longrightarrow>
    rep h (HRef a) (JMap m) (insert a (\<Union>k. G k))"

inductive_cases rep_LeafE: "rep h (HLeaf v) w F"

text \<open>The premises of the second rule as a predicate: the map at one address, entry by entry.\<close>

definition cells :: "'s mheap \<Rightarrow> nat \<Rightarrow> 's jmap \<Rightarrow> (string \<Rightarrow> nat set) \<Rightarrow> bool" where
  "cells h a m G \<longleftrightarrow> map fst (h a) = map fst m \<and> distinct (map fst m) \<and>
     (\<forall>k v. map_of (h a) k = Some v \<longrightarrow> (\<exists>w. map_of m k = Some w \<and> rep h v w (G k))) \<and>
     (\<forall>k. map_of (h a) k = None \<longrightarrow> G k = {}) \<and> (\<forall>k. a \<notin> G k) \<and> (\<forall>j k. j \<noteq> k \<longrightarrow> G j \<inter> G k = {})"

lemma cellsI:
  assumes "map fst (h a) = map fst m" "distinct (map fst m)"
    "\<And>k v. map_of (h a) k = Some v \<Longrightarrow> \<exists>w. map_of m k = Some w \<and> rep h v w (G k)"
    "\<And>k. map_of (h a) k = None \<Longrightarrow> G k = {}" "\<And>k. a \<notin> G k" "\<And>j k. j \<noteq> k \<Longrightarrow> G j \<inter> G k = {}"
  shows "cells h a m G"
  using assms unfolding cells_def by blast

lemma cellsD:
  assumes "cells h a m G"
  shows "map fst (h a) = map fst m" "distinct (map fst m)"
    "map_of (h a) k = Some v \<Longrightarrow> \<exists>w. map_of m k = Some w \<and> rep h v w (G k)"
    "map_of (h a) k = None \<Longrightarrow> G k = {}" "a \<notin> G k" "j \<noteq> k \<Longrightarrow> G j \<inter> G k = {}"
  using assms unfolding cells_def by blast+

lemma rep_Ref_iff: "rep h (HRef a) w F \<longleftrightarrow> (\<exists>m G. w = JMap m \<and> cells h a m G \<and> F = insert a (\<Union>k. G k))"
proof
  assume "rep h (HRef a) w F"
  then show "\<exists>m G. w = JMap m \<and> cells h a m G \<and> F = insert a (\<Union>k. G k)"
  proof (cases rule: rep.cases)
    case (rep_ref m G)
    then have "cells h a m G" unfolding cells_def by blast
    with rep_ref(1,2) show ?thesis by blast
  qed
next
  assume "\<exists>m G. w = JMap m \<and> cells h a m G \<and> F = insert a (\<Union>k. G k)"
  then obtain m G where m: "w = JMap m" "cells h a m G" "F = insert a (\<Union>k. G k)" by blast
  show "rep h (HRef a) w F"
    unfolding m(1,3) by (rule rep_ref) (use m(2) in \<open>unfold cells_def, blast+\<close>)
qed

lemma rep_Leaf_iff [simp]: "rep h (HLeaf v) w F \<longleftrightarrow> v = w \<and> F = {} \<and> \<not> is_JMap w"
  by (auto elim: rep_LeafE intro: rep_leaf)

lemma rep_kind: "rep h v w F \<Longrightarrow> hkind_map v = kind_map w"
  by (cases v) (auto simp: rep_Ref_iff hkind_map_def kind_map_def)

lemma cells_lookup:
  assumes "cells h a m G"
  shows "map_of (h a) k = None \<longleftrightarrow> map_of m k = None"
    and "map_of (h a) k = Some v \<Longrightarrow> map_of m k = Some w \<Longrightarrow> rep h v w (G k)"
proof -
  have "fst ` set (h a) = fst ` set m" using assms unfolding cells_def by (metis set_map)
  then show "map_of (h a) k = None \<longleftrightarrow> map_of m k = None" by (simp add: map_of_eq_None_iff)
  show "map_of (h a) k = Some v \<Longrightarrow> map_of m k = Some w \<Longrightarrow> rep h v w (G k)"
    using assms unfolding cells_def by (metis option.inject)
qed

text \<open>What happens elsewhere does not matter.\<close>

lemma rep_frame: "rep h v w F \<Longrightarrow> (\<And>a. a \<in> F \<Longrightarrow> h' a = h a) \<Longrightarrow> rep h' v w F"
proof (induction rule: rep.induct)
  case (rep_ref a m G)
  have a: "h' a = h a" using rep_ref.prems by simp
  have "\<exists>w. map_of m k = Some w \<and> rep h' v w (G k)" if "map_of (h' a) k = Some v" for k v
    using rep_ref.IH [of k v] rep_ref.prems that a by auto
  then show ?case using rep_ref.hyps a by (intro rep.rep_ref) auto
qed (simp add: rep_leaf)

lemma cells_frame:
  assumes "cells h a m G" "h' a = h a" "\<And>k b. b \<in> G k \<Longrightarrow> h' b = h b"
  shows "cells h' a m G"
  using assms rep_frame unfolding cells_def by (metis (no_types, lifting))

lemma put_keys: "map fst xs = map fst ys \<Longrightarrow> map fst (alist_put k v xs) = map fst (alist_put k w ys)"
proof (induction xs arbitrary: ys)
  case (Cons x xs)
  then obtain y ys' where "ys = y # ys'" by (cases ys) auto
  with Cons show ?case by (cases x; cases y) auto
qed simp

lemma put_same_keys: "map_of xs k = Some v \<Longrightarrow> map fst (alist_put k w xs) = map fst xs"
  by (induction xs) auto

text \<open>One entry is set to a tree apart from the other entries.\<close>

lemma cells_put:
  assumes c: "cells h a m G" and v: "rep h v w F" "a \<notin> F" and F: "\<And>j. j \<noteq> k \<Longrightarrow> G j \<inter> F = {}"
  shows "cells (h(a := alist_put k v (h a))) a (alist_put k w m) (G(k := F))"
proof -
  let ?h = "h(a := alist_put k v (h a))"
  have kept: "rep ?h u z (G j)" if "rep h u z (G j)" for u z j
    using cellsD(5) [OF c] by (intro rep_frame [OF that]) (metis fun_upd_other)
  have new: "rep ?h v w F" using v by (intro rep_frame [OF v(1)]) auto
  show ?thesis
  proof (rule cellsI, goal_cases)
    case 1 show ?case using cellsD(1) [OF c] by (simp add: put_keys)
  next
    case 2 show ?case using wf_put [of m k w] cellsD(2) [OF c] by (simp add: alist_wf_def)
  next
    case (3 k' v')
    then show ?case using cellsD(3) [OF c, of k' v'] kept new by (cases "k' = k") auto
  next
    case (4 k') then show ?case using cellsD(4) [OF c, of k'] by (simp split: if_splits)
  next
    case (5 k') then show ?case using cellsD(5) [OF c] v(2) by simp
  next
    case (6 i j) then show ?case using cellsD(6) [OF c] F by (metis Int_commute fun_upd_apply)
  qed
qed

text \<open>An entry that is a map itself has been changed in place.\<close>

lemma cells_nested:
  assumes c: "cells h l lm F" and la: "map_of (h l) k = Some (HRef la)" and new: "rep h1 (HRef la) (JMap m') F'"
    and frame: "\<And>a. a \<notin> F k \<Longrightarrow> h1 a = h a" and sep: "l \<notin> F'" "\<And>j. j \<noteq> k \<Longrightarrow> F j \<inter> F' = {}"
  shows "cells h1 l (alist_put k (JMap m') lm) (F(k := F'))"
proof -
  have l: "h1 l = h l" using cellsD(5) [OF c] frame by blast
  have kept: "rep h1 u z (F j)" if "rep h u z (F j)" "j \<noteq> k" for u z j
    using cellsD(6) [OF c that(2)] frame by (intro rep_frame [OF that(1)]) blast
  have "map fst (h l) = map fst (alist_put k (HRef la) (h l))" using put_same_keys [OF la] by simp
  then have keys: "map fst (h l) = map fst (alist_put k (JMap m') lm)"
    using put_keys [OF cellsD(1) [OF c]] by metis
  show ?thesis
  proof (rule cellsI, goal_cases)
    case 1 show ?case using l keys by simp
  next
    case 2 show ?case using keys cellsD(1,2) [OF c] by metis
  next
    case (3 k' v')
    then show ?case using cellsD(3) [OF c, of k' v'] kept new la l by (cases "k' = k") auto
  next
    case (4 k') then show ?case using cellsD(4) [OF c, of k'] la l by (cases "k' = k") auto
  next
    case (5 k') then show ?case using cellsD(5) [OF c] sep(1) by simp
  next
    case (6 i j) then show ?case using cellsD(6) [OF c] sep(2) by (metis Int_commute fun_upd_apply)
  qed
qed

section \<open>Refinement\<close>

definition apart :: "nat \<Rightarrow> (string \<Rightarrow> nat set) \<Rightarrow> nat \<Rightarrow> (string \<Rightarrow> nat set) \<Rightarrow> bool" where
  "apart l FL r FR \<longleftrightarrow> l \<noteq> r \<and> (\<forall>k. l \<notin> FR k \<and> r \<notin> FL k) \<and> (\<forall>j k. FL j \<inter> FR k = {})"

text \<open>
  What a merge does to the heap, beside the merge of values: the same status, the merged tree at the left address, made of maps of both sides below the same key, and no change outside
  the left side.
\<close>

definition merged :: "'s mheap \<Rightarrow> nat \<Rightarrow> (string \<Rightarrow> nat set) \<Rightarrow> (string \<Rightarrow> nat set) \<Rightarrow> merge_status \<times> 's mheap \<Rightarrow>
    merge_status \<times> 's jmap \<Rightarrow> bool" where
  "merged h l FL FR x y \<longleftrightarrow> fst x = fst y \<and> (\<exists>F. cells (snd x) l (snd y) F \<and> (\<forall>k. F k \<subseteq> FL k \<union> FR k)) \<and>
     (\<forall>a. a \<noteq> l \<longrightarrow> (\<forall>k. a \<notin> FL k) \<longrightarrow> snd x a = h a)"

text \<open>The state of the loop: the entries still to come are those the left side started with.\<close>

definition looping :: "'s mheap \<Rightarrow> nat \<Rightarrow> (string \<Rightarrow> nat set) \<Rightarrow> 's jmap \<Rightarrow> nat \<Rightarrow> (string \<Rightarrow> nat set) \<Rightarrow> 's jmap \<Rightarrow> string list \<Rightarrow> 's jmap \<Rightarrow> bool" where
  "looping h l FL lm r FR rm ks todo \<longleftrightarrow>
     (\<exists>F. cells h l lm F \<and> (\<forall>k \<in> set ks. F k \<subseteq> FL k) \<and> (\<forall>k. F k \<subseteq> FL k \<union> FR k)) \<and> cells h r rm FR \<and>
     apart l FL r FR \<and> (\<forall>k. l \<notin> FL k) \<and> map fst todo = ks \<and> distinct ks \<and> (\<forall>k w. (k, w) \<in> set todo \<longrightarrow> map_of rm k = Some w)"

lemma loopingI:
  assumes "cells h l lm F" "\<forall>k \<in> set ks. F k \<subseteq> FL k" "\<forall>k. F k \<subseteq> FL k \<union> FR k" "cells h r rm FR"
    "apart l FL r FR \<and> (\<forall>k. l \<notin> FL k) \<and> map fst todo = ks \<and> distinct ks \<and> (\<forall>k w. (k, w) \<in> set todo \<longrightarrow> map_of rm k = Some w)"
  shows "looping h l FL lm r FR rm ks todo"
  using assms unfolding looping_def by blast

lemma looping_rest:
  "looping h l FL lm r FR rm (k # ks) (kw # todo) \<Longrightarrow>
    apart l FL r FR \<and> (\<forall>k. l \<notin> FL k) \<and> map fst todo = ks \<and> distinct ks \<and> (\<forall>k w. (k, w) \<in> set todo \<longrightarrow> map_of rm k = Some w)"
  by (auto simp: looping_def simp del: map_of_eq_Some_iff)

lemma looping_put:
  assumes lp: "looping h l FL lm r FR rm (k # ks) ((k, w) # todo)" and rv: "map_of (h r) k = Some rv"
  shows "looping (h(l := alist_put k rv (h l))) l FL (alist_put k w lm) r FR rm ks todo"
proof -
  from lp obtain F where F: "cells h l lm F" "\<forall>j \<in> set (k # ks). F j \<subseteq> FL j" "\<forall>j. F j \<subseteq> FL j \<union> FR j" and R: "cells h r rm FR"
    and ap: "apart l FL r FR" and w: "map_of rm k = Some w" and k: "k \<notin> set ks" "distinct ks"
    unfolding looping_def by fastforce
  have rep: "rep h rv w (FR k)" using cells_lookup(2) [OF R rv w] .
  have "cells (h(l := alist_put k rv (h l))) l (alist_put k w lm) (F(k := FR k))"
  proof (rule cells_put [OF F(1) rep])
    show "l \<notin> FR k" using ap by (simp add: apart_def)
    show "F j \<inter> FR k = {}" if "j \<noteq> k" for j
      using F(3) ap cellsD(6) [OF R that] unfolding apart_def by blast
  qed
  moreover have "cells (h(l := alist_put k rv (h l))) r rm FR"
    using ap by (intro cells_frame [OF R]) (auto simp: apart_def)
  moreover have "\<forall>j \<in> set ks. (F(k := FR k)) j \<subseteq> FL j" "\<forall>j. (F(k := FR k)) j \<subseteq> FL j \<union> FR j" using F k by auto
  ultimately show ?thesis using looping_rest [OF lp] by (intro loopingI) blast+
qed

lemma looping_nested:
  assumes lp: "looping h l FL lm r FR rm (k # ks) ((k, JMap rm1) # todo)"
    and lv: "map_of (h l) k = Some (HRef la)" "map_of lm k = Some (JMap lm1)" and rv: "map_of (h r) k = Some (HRef ra)"
  obtains GL GR where "cells h la lm1 GL" "cells h ra rm1 GR" "apart la GL ra GR"
    "\<And>x y. merged h la GL GR x y \<Longrightarrow>
      looping (snd x) l FL (alist_put k (JMap (snd y)) lm) r FR rm ks todo \<and>
      (\<forall>a. a \<noteq> l \<longrightarrow> (\<forall>k. a \<notin> FL k) \<longrightarrow> snd x a = h a)"
proof -
  from lp obtain F where F: "cells h l lm F" "\<forall>j \<in> set (k # ks). F j \<subseteq> FL j" "\<forall>j. F j \<subseteq> FL j \<union> FR j" and R: "cells h r rm FR"
    and ap: "apart l FL r FR" and w: "map_of rm k = Some (JMap rm1)" and k: "k \<notin> set ks" "distinct ks"
    unfolding looping_def by fastforce
  obtain GL where GL: "cells h la lm1 GL" "F k = insert la (\<Union>j. GL j)"
    using cells_lookup(2) [OF F(1) lv] by (auto simp: rep_Ref_iff)
  obtain GR where GR: "cells h ra rm1 GR" "FR k = insert ra (\<Union>j. GR j)"
    using cells_lookup(2) [OF R rv w] by (auto simp: rep_Ref_iff)
  have sub: "F k \<subseteq> FL k" using F(2) by simp
  have sep: "FL i \<inter> FR j = {}" for i j using ap by (simp add: apart_def)
  have "apart la GL ra GR" using sep [of k k] sub unfolding GL(2) GR(2) apart_def by blast
  moreover have "looping (snd x) l FL (alist_put k (JMap (snd y)) lm) r FR rm ks todo \<and>
      (\<forall>a. a \<noteq> l \<longrightarrow> (\<forall>k. a \<notin> FL k) \<longrightarrow> snd x a = h a)" if m: "merged h la GL GR x y" for x y
  proof -
    obtain G where G: "cells (snd x) la (snd y) G" "\<forall>j. G j \<subseteq> GL j \<union> GR j" using m by (auto simp: merged_def)
    let ?F = "insert la (\<Union>j. G j)"
    have frame: "snd x a = h a" if "a \<notin> F k" for a using m that by (simp add: GL(2) merged_def)
    have subF: "?F \<subseteq> F k \<union> FR k" using G(2) unfolding GL(2) GR(2) by blast
    have tree: "rep (snd x) (HRef la) (JMap (snd y)) ?F" unfolding rep_Ref_iff using G(1) by blast
    have "cells (snd x) l (alist_put k (JMap (snd y)) lm) (F(k := ?F))"
    proof (rule cells_nested [OF F(1) lv(1) tree])
      show "l \<notin> ?F" using subF cellsD(5) [OF F(1), of k] ap unfolding apart_def by blast
      show "F j \<inter> ?F = {}" if "j \<noteq> k" for j
      proof -
        have "F j \<subseteq> FL j \<union> FR j" using F(3) by simp
        then have "F j \<inter> (F k \<union> FR k) = {}" using sep [of j k] cellsD(6) [OF R that] cellsD(6) [OF F(1) that] by blast
        then show ?thesis using subF by blast
      qed
    qed (rule frame)
    moreover have "\<forall>j \<in> set ks. (F(k := ?F)) j \<subseteq> FL j" using F k by auto
    moreover have "\<forall>j. (F(k := ?F)) j \<subseteq> FL j \<union> FR j" using F(3) subF sub by auto
    moreover have "cells (snd x) r rm FR"
    proof (rule cells_frame [OF R])
      show "snd x r = h r" using sub ap by (intro frame) (auto simp: apart_def)
      show "snd x b = h b" if "b \<in> FR j" for j b using that sub sep [of k j] by (intro frame) blast
    qed
    ultimately show ?thesis using looping_rest [OF lp] sub frame by (intro conjI loopingI) blast+
  qed
  ultimately show ?thesis using that GL(1) GR(1) by blast
qed

lemma looping_entry:
  assumes "looping h l FL lm r FR rm (k # ks) ((k, w) # todo)"
  shows "\<exists>F rv. cells h l lm F \<and> cells h r rm FR \<and> map_of (h r) k = Some rv \<and> rep h rv w (FR k)"
proof -
  have R: "cells h r rm FR" and w: "map_of rm k = Some w" and F: "\<exists>F. cells h l lm F"
    using assms unfolding looping_def by (blast, simp del: map_of_eq_Some_iff, blast)
  obtain rv where "map_of (h r) k = Some rv" using cells_lookup(1) [OF R] w by (metis not_None_eq)
  then show ?thesis using F R cells_lookup(2) [OF R _ w] by blast
qed

text \<open>A change of the left map itself before the rest of the loop does not show.\<close>

lemma merged_put: "merged (h(l := e)) l FL FR x y \<Longrightarrow> merged h l FL FR x y"
  by (auto simp: merged_def)

lemma merged_trans:
  "merged h1 l FL FR x y \<Longrightarrow> (\<forall>a. a \<noteq> l \<longrightarrow> (\<forall>k. a \<notin> FL k) \<longrightarrow> h1 a = h a) \<Longrightarrow> merged h l FL FR x y"
  by (simp add: merged_def)

lemma merged_stop:
  "looping h1 l FL lm r FR rm ks todo \<Longrightarrow> (\<forall>a. a \<noteq> l \<longrightarrow> (\<forall>k. a \<notin> FL k) \<longrightarrow> h1 a = h a) \<Longrightarrow> merged h l FL FR (st, h1) (st, lm)"
  by (auto simp: merged_def looping_def)

text \<open>The cases of an iteration: the entry is set, the assertion of the map type fails, or both entries are maps.\<close>

lemma loop_put:
  assumes lp: "looping h l FL lm r FR rm (k # ks) ((k, w) # todo)" and rv: "map_of (h r) k = Some rv" "rep h rv w (FR k)"
    and set: "\<And>lv. map_of (h l) k = Some lv \<Longrightarrow> \<not> hkind_map lv \<or> \<not> hkind_map rv"
    and IH: "merged (h(l := alist_put k rv (h l))) l FL FR (hmerge_loop (h(l := alist_put k rv (h l))) l r ks d mx)
      (merge_loop (alist_put k w lm) todo d mx)"
  shows "merged h l FL FR (hmerge_loop h l r (k # ks) d mx) (merge_loop lm ((k, w) # todo) d mx)"
proof -
  obtain F where F: "cells h l lm F" using looping_entry [OF lp] by blast
  have "hmerge_loop h l r (k # ks) d mx = hmerge_loop (h(l := alist_put k rv (h l))) l r ks d mx"
    using rv(1) set by (auto simp: hmerge_loop.simps split: option.splits)
  moreover have "merge_loop lm ((k, w) # todo) d mx = merge_loop (alist_put k w lm) todo d mx"
  proof (cases "map_of (h l) k")
    case None
    then show ?thesis using cells_lookup(1) [OF F] by (auto simp: merge_loop.simps)
  next
    case (Some lv)
    then obtain lw where lw: "map_of lm k = Some lw" "rep h lv lw (F k)" using cellsD(3) [OF F] by blast
    then show ?thesis using set [OF Some] rep_kind [OF lw(2)] rep_kind [OF rv(2)] by (auto simp: merge_loop.simps)
  qed
  ultimately show ?thesis using merged_put [OF IH] by simp
qed

lemma loop_panic:
  assumes lp: "looping h l FL lm r FR rm (k # ks) ((k, w) # todo)" and rv: "map_of (h r) k = Some rv" "rep h rv w (FR k)"
    and lv: "map_of (h l) k = Some lv" "hkind_map lv" "hkind_map rv" and leaf: "\<not> (\<exists>la ra. lv = HRef la \<and> rv = HRef ra)"
  shows "merged h l FL FR (hmerge_loop h l r (k # ks) d mx) (merge_loop lm ((k, w) # todo) d mx)"
proof -
  obtain F where F: "cells h l lm F" using looping_entry [OF lp] by blast
  obtain lw where lw: "map_of lm k = Some lw" "rep h lv lw (F k)" using cellsD(3) [OF F lv(1)] by blast
  have "\<not> is_JMap lw \<or> \<not> is_JMap w" using leaf lw(2) rv(2) by (cases lv; cases rv) (auto simp: rep_Ref_iff)
  then have "merge_loop lm ((k, w) # todo) d mx = (MPanic, lm)"
    using lv(2,3) rep_kind [OF lw(2)] rep_kind [OF rv(2)] lw(1) by (auto simp: merge_loop.simps is_JMap_def split: jv.splits)
  moreover have "hmerge_loop h l r (k # ks) d mx = (MPanic, h)"
    using lv leaf rv(1) by (auto simp: hmerge_loop.simps split: hv.splits)
  ultimately show ?thesis using merged_stop [OF lp] by simp
qed

lemma loop_nested:
  assumes lp: "looping h l FL lm r FR rm (k # ks) ((k, w) # todo)" and rv: "map_of (h r) k = Some (HRef ra)" "rep h (HRef ra) w (FR k)"
    and lv: "map_of (h l) k = Some (HRef la)"
    and inner: "\<And>lm1 rm1 GL GR. cells h la lm1 GL \<Longrightarrow> cells h ra rm1 GR \<Longrightarrow> apart la GL ra GR \<Longrightarrow>
      merged h la GL GR (hmerge h la ra (d + 1) mx) (merge lm1 rm1 (d + 1) mx)"
    and outer: "\<And>h1 lm'. hmerge h la ra (d + 1) mx = (MOk, h1) \<Longrightarrow> looping h1 l FL lm' r FR rm ks todo \<Longrightarrow>
      merged h1 l FL FR (hmerge_loop h1 l r ks d mx) (merge_loop lm' todo d mx)"
  shows "merged h l FL FR (hmerge_loop h l r (k # ks) d mx) (merge_loop lm ((k, w) # todo) d mx)"
proof -
  obtain F where F: "cells h l lm F" using looping_entry [OF lp] by blast
  obtain lw where lw: "map_of lm k = Some lw" "rep h (HRef la) lw (F k)" using cellsD(3) [OF F lv] by blast
  obtain lm1 rm1 where t: "lw = JMap lm1" "w = JMap rm1" using lw(2) rv(2) by (auto simp: rep_Ref_iff)
  obtain GL GR where G: "cells h la lm1 GL" "cells h ra rm1 GR" "apart la GL ra GR"
    "\<And>x y. merged h la GL GR x y \<Longrightarrow> looping (snd x) l FL (alist_put k (JMap (snd y)) lm) r FR rm ks todo \<and>
      (\<forall>a. a \<noteq> l \<longrightarrow> (\<forall>k. a \<notin> FL k) \<longrightarrow> snd x a = h a)"
    using looping_nested [OF lp [unfolded t] lv lw(1) [unfolded t] rv(1)] by blast
  obtain st h1 where hm: "hmerge h la ra (d + 1) mx = (st, h1)" by (cases "hmerge h la ra (d + 1) mx")
  note m = inner [OF G(1-3)]
  then have "fst (merge lm1 rm1 (d + 1) mx) = st" unfolding merged_def hm by simp
  then obtain lm2 where mm: "merge lm1 rm1 (d + 1) mx = (st, lm2)" by (cases "merge lm1 rm1 (d + 1) mx") simp
  have rest: "looping h1 l FL (alist_put k (JMap lm2) lm) r FR rm ks todo" "\<forall>a. a \<noteq> l \<longrightarrow> (\<forall>k. a \<notin> FL k) \<longrightarrow> h1 a = h a"
    using G(4) [OF m] unfolding hm mm by simp_all
  have "hmerge_loop h l r (k # ks) d mx = (if st = MOk then hmerge_loop h1 l r ks d mx else (st, h1))"
    "merge_loop lm ((k, w) # todo) d mx =
       (if st = MOk then merge_loop (alist_put k (JMap lm2) lm) todo d mx else (st, alist_put k (JMap lm2) lm))"
    using rv(1) lv lw(1) hm mm
    by (simp_all add: hmerge_loop.simps merge_loop.simps t hkind_map_def kind_map_def split: merge_status.splits)
  then show ?thesis
    using merged_stop [OF rest, of st] merged_trans [OF outer [OF _ rest(1)] rest(2)] hm by simp
qed

lemma hmerge_refines:
  "cells h l lm FL \<Longrightarrow> cells h r rm FR \<Longrightarrow> apart l FL r FR \<Longrightarrow>
     merged h l FL FR (hmerge h l r d mx) (merge lm rm d mx)"
  "looping h l FL lm r FR rm ks todo \<Longrightarrow> merged h l FL FR (hmerge_loop h l r ks d mx) (merge_loop lm todo d mx)"
proof (induction h l r d mx and h l r ks d mx arbitrary: lm FL rm FR and lm todo FL rm FR rule: hmerge_hmerge_loop.induct)
  case (1 h l r d mx)
  show ?case
  proof (cases "mx \<le> d")
    case True
    then show ?thesis using 1(2) by (auto simp: hmerge.simps merge.simps merged_def)
  next
    case False
    have "looping h l FL lm r FR rm (map fst (h r)) rm"
      using 1(2-4) cellsD(1,2) [OF 1(3)] cellsD(5) [OF 1(2)] by (intro loopingI) auto
    with 1(1) [OF False] False show ?thesis by (simp add: hmerge.simps merge.simps)
  qed
next
  case (2 h l r d mx)
  then show ?case by (auto simp: looping_def merged_def)
next
  case (3 h l r rk rks d mx)
  from "3.prems" obtain w todo' where todo: "todo = (rk, w) # todo'" unfolding looping_def by (cases todo) auto
  note lp = "3.prems" [unfolded todo]
  obtain rv where rv: "map_of (h r) rk = Some rv" "rep h rv w (FR rk)" using looping_entry [OF lp] by blast
  consider "map_of (h l) rk = None"
    | lv where "map_of (h l) rk = Some lv" "\<not> hkind_map lv \<or> \<not> hkind_map rv"
    | lv where "map_of (h l) rk = Some lv" "\<not> (\<not> hkind_map lv \<or> \<not> hkind_map rv)" by fastforce
  then have "merged h l FL FR (hmerge_loop h l r (rk # rks) d mx) (merge_loop lm ((rk, w) # todo') d mx)"
  proof cases
    case 1
    show ?thesis by (rule loop_put [OF lp rv _ 3(2) [OF rv(1) 1 looping_put [OF lp rv(1)]]]) (simp add: 1)
  next
    case (2 lv)
    show ?thesis by (rule loop_put [OF lp rv _ 3(3) [OF rv(1) 2 looping_put [OF lp rv(1)]]]) (use 2 in simp)
  next
    case both: (3 lv)
    show ?thesis
    proof (cases "\<exists>la ra. lv = HRef la \<and> rv = HRef ra")
      case False
      then show ?thesis using loop_panic [OF lp rv both(1)] both(2) by blast
    next
      case True
      then obtain la ra where v: "lv = HRef la" "rv = HRef ra" by blast
      show ?thesis
      proof (rule loop_nested [OF lp rv [unfolded v] both(1) [unfolded v]])
      qed (use 3(4,5) [OF rv(1) both _ v] in \<open>simp_all\<close>)
    qed
  qed
  then show ?case by (simp only: todo)
qed

text \<open>The footprint of a tree below a map, in one set.\<close>

lemma rep_merge:
  assumes "rep h (HRef l) (JMap lm) L" "rep h (HRef r) (JMap rm) R" "L \<inter> R = {}"
  shows "fst (hmerge h l r d mx) = fst (merge lm rm d mx) \<and>
    (\<exists>F \<subseteq> L \<union> R. rep (snd (hmerge h l r d mx)) (HRef l) (JMap (snd (merge lm rm d mx))) F) \<and>
    (\<forall>a. a \<notin> L \<longrightarrow> snd (hmerge h l r d mx) a = h a)"
proof -
  obtain FL FR where F: "cells h l lm FL" "L = insert l (\<Union>k. FL k)" "cells h r rm FR" "R = insert r (\<Union>k. FR k)"
    using assms(1,2) by (auto simp: rep_Ref_iff)
  have "apart l FL r FR" using assms(3) unfolding F(2,4) apart_def by blast
  from hmerge_refines(1) [OF F(1,3) this, of d mx]
  obtain G where G: "fst (hmerge h l r d mx) = fst (merge lm rm d mx)"
    "cells (snd (hmerge h l r d mx)) l (snd (merge lm rm d mx)) G" "\<forall>k. G k \<subseteq> FL k \<union> FR k"
    "\<forall>a. a \<noteq> l \<longrightarrow> (\<forall>k. a \<notin> FL k) \<longrightarrow> snd (hmerge h l r d mx) a = h a"
    unfolding merged_def by blast
  have "rep (snd (hmerge h l r d mx)) (HRef l) (JMap (snd (merge lm rm d mx))) (insert l (\<Union>k. G k))"
    unfolding rep_Ref_iff using G(2) by blast
  moreover have "insert l (\<Union>k. G k) \<subseteq> L \<union> R" using G(3) unfolding F(2,4) by blast
  moreover have "\<forall>a. a \<notin> L \<longrightarrow> snd (hmerge h l r d mx) a = h a" using G(4) by (simp add: F(2))
  ultimately show ?thesis using G(1) by blast
qed

section \<open>A sequence of reports\<close>

text \<open>Reports arrive one after the other and are merged into one, whatever the status of each merge.\<close>

fun merge_all_heap :: "'s mheap \<Rightarrow> nat \<Rightarrow> nat list \<Rightarrow> merge_status list \<times> 's mheap" where
  "merge_all_heap h r [] = ([], h)"
| "merge_all_heap h r (a # as) =
     (case Report_Merge_heap h r a of (st, h') \<Rightarrow> (case merge_all_heap h' r as of (sts, h'') \<Rightarrow> (st # sts, h'')))"

fun merge_all :: "'s jmap \<Rightarrow> 's jmap list \<Rightarrow> merge_status list \<times> 's jmap" where
  "merge_all r [] = ([], r)"
| "merge_all r (m # ms) =
     (case Report_Merge r m of (st, r') \<Rightarrow> (case merge_all r' ms of (sts, r'') \<Rightarrow> (st # sts, r'')))"

text \<open>Each report is a tree of its own, apart from the others and from the one they are merged into.\<close>

fun arrivals :: "'s mheap \<Rightarrow> nat set \<Rightarrow> nat list \<Rightarrow> 's jmap list \<Rightarrow> bool" where
  "arrivals h U [] [] = True"
| "arrivals h U (a # as) (m # ms) \<longleftrightarrow> (\<exists>F. rep h (HRef a) (JMap m) F \<and> U \<inter> F = {} \<and> arrivals h (U \<union> F) as ms)"
| "arrivals h U _ _ = False"

lemma arrivals_frame:
  "arrivals h U as ms \<Longrightarrow> (\<And>a. a \<notin> U \<Longrightarrow> h' a = h a) \<Longrightarrow> arrivals h' U as ms"
proof (induction h U as ms rule: arrivals.induct)
  case (2 h U a as m ms)
  then obtain F where F: "rep h (HRef a) (JMap m) F" "U \<inter> F = {}" "arrivals h (U \<union> F) as ms" by auto
  have "rep h' (HRef a) (JMap m) F" using F(2) "2.prems"(2) by (intro rep_frame [OF F(1)]) blast
  moreover have "arrivals h' (U \<union> F) as ms" using "2.IH" F(3) "2.prems"(2) by blast
  ultimately show ?case using F(2) by auto
qed auto

lemma arrivals_mono: "arrivals h U as ms \<Longrightarrow> V \<subseteq> U \<Longrightarrow> arrivals h V as ms"
proof (induction h U as ms arbitrary: V rule: arrivals.induct)
  case (2 h U a as m ms)
  then obtain F where F: "rep h (HRef a) (JMap m) F" "U \<inter> F = {}" "arrivals h (U \<union> F) as ms" by auto
  have "arrivals h (V \<union> F) as ms" using "2.IH" [OF F(3), of "V \<union> F"] "2.prems"(2) by blast
  moreover have "V \<inter> F = {}" using F(2) "2.prems"(2) by blast
  ultimately show ?case using F(1) by auto
qed auto

text \<open>
  C12. Merging on the heap is merging of values, as long as every report is a structure of its own: for a report and a sequence of reports merged into it, none of which
  shares a map with another, each merge of the heap gives the status that the merge of values gives, and at the end the report is the tree that the merges of values give.
  That the report has taken over maps of the earlier reports does not disturb the later merges.
\<close>

theorem merges_on_heap:
  assumes "rep h (HRef r) (JMap m) U" "arrivals h U as ms"
  shows "fst (merge_all_heap h r as) = fst (merge_all m ms) \<and>
    (\<exists>F. rep (snd (merge_all_heap h r as)) (HRef r) (JMap (snd (merge_all m ms))) F)"
  using assms
proof (induction as arbitrary: h m U ms)
  case Nil
  then show ?case by (cases ms) auto
next
  case (Cons a as)
  then obtain m1 ms' F where ms: "ms = m1 # ms'" and F: "rep h (HRef a) (JMap m1) F" "U \<inter> F = {}" "arrivals h (U \<union> F) as ms'"
    by (cases ms) auto
  let ?h = "snd (Report_Merge_heap h r a)"
  note step = rep_merge [OF Cons.prems(1) F(1,2), of 1 maxJSONLevel, folded Report_Merge_heap_def Report_Merge_def]
  obtain V where V: "V \<subseteq> U \<union> F" "rep ?h (HRef r) (JMap (snd (Report_Merge m m1))) V" using step by blast
  have "arrivals ?h (U \<union> F) as ms'" using step by (intro arrivals_frame [OF F(3)]) blast
  then have "arrivals ?h V as ms'" using arrivals_mono V(1) by blast
  from Cons.IH [OF V(2) this] step show ?case by (simp add: ms split_beta)
qed

lemma rep_empty: "h a = [] \<Longrightarrow> rep h (HRef a) (JMap []) {a}"
  unfolding rep_Ref_iff by (intro exI [of _ "[]"] exI [of _ "\<lambda>_. {}"]) (simp add: cells_def)

lemma rep_single: "h a = [(k, v)] \<Longrightarrow> rep h v w F \<Longrightarrow> a \<notin> F \<Longrightarrow> rep h (HRef a) (JMap [(k, w)]) (insert a F)"
  unfolding rep_Ref_iff by (intro exI [of _ "[(k, w)]"] exI [of _ "(\<lambda>_. {})(k := F)"]) (auto simp: cells_def)

text \<open>An empty report and two reports that arrive, with the version of the core in a nested map.\<close>

definition demo_heap :: "unit mheap" where
  "demo_heap = (\<lambda>_. [])(1 := [(''core'', HRef 2)], 2 := [(''version'', HLeaf (JStr ''1''))],
     3 := [(''core'', HRef 4)], 4 := [(''version'', HLeaf (JStr ''2''))])"

definition demo_core :: "string \<Rightarrow> unit jmap" where
  "demo_core v = [(''core'', JMap [(''version'', JStr v)])]"

lemma demo_trees:
  "rep demo_heap (HRef 0) (JMap []) {0}" "rep demo_heap (HRef 1) (JMap (demo_core ''1'')) {1, 2}"
  "rep demo_heap (HRef 3) (JMap (demo_core ''2'')) {3, 4}"
  unfolding demo_core_def
  by (rule rep_empty rep_single | simp add: demo_heap_def is_JMap_def)+

text \<open>
  The first report is not what it was: its nested map has become a part of the merged report, and the second merge has changed it.
\<close>

lemma earlier_report_changed:
  "snd (merge_all_heap demo_heap 0 [1]) 2 = [(''version'', HLeaf (JStr ''1''))]"
  "snd (merge_all_heap demo_heap 0 [1, 3]) 1 = [(''core'', HRef 2)]"
  "snd (merge_all_heap demo_heap 0 [1, 3]) 2 = [(''version'', HLeaf (JStr ''2''))]"
  by code_simp+

theorem merges_on_heap_witness:
  "fst (merge_all_heap demo_heap 0 [1, 3]) = [MOk, MOk] \<and>
   (\<exists>F. rep (snd (merge_all_heap demo_heap 0 [1, 3])) (HRef 0) (JMap (demo_core ''2'')) F)"
proof -
  have "arrivals demo_heap {0} [1, 3] [demo_core ''1'', demo_core ''2'']"
    using demo_trees by (simp, intro exI conjI) (assumption | simp)+
  moreover have "merge_all [] [demo_core ''1'', demo_core ''2''] = ([MOk, MOk], demo_core ''2'')"
    by code_simp
  ultimately show ?thesis using merges_on_heap [OF demo_trees(1)] by fastforce
qed

end
