(* ===== verification/Spec_View.thy ===== *)
theory Spec_View
  imports Spec_Shadow Go_Strconv "HOL-Library.Word"
begin

text \<open>
  The view of a node (\<^verbatim>\<open>spec/v1/node.go\<close>, with the structs of \<^verbatim>\<open>spec/v1/sync_report.go\<close>): usage percentages, readiness, the reset of the
  application states of a node that is not online, and the count of instances. The quantities of Kubernetes, the text
  of floats and the JSON codec are parameters.
\<close>

section \<open>Structs\<close>

type_synonym texts = "(string \<times> string) list"

record NodeInfo =
  ni_Hostname :: string
  ni_Address :: string
  ni_Arch :: string
  ni_KernelVersion :: string
  ni_OS :: string
  ni_ContainerRuntime :: string
  ni_MachineID :: string
  ni_BootID :: string
  ni_SystemUUID :: string
  ni_OSImage :: string
  ni_Variant :: string
  ni_HostID :: string
  ni_Role :: string
  ni_Labels :: texts
  ni_ClientIP :: string

record NodeStats =
  ns_DiskPressure :: bool
  ns_MemoryPressure :: bool
  ns_PIDPressure :: bool
  ns_NetworkUnavailable :: bool
  ns_Ready :: bool
  ns_Usage :: "texts option"
  ns_Capacity :: "texts option"
  ns_Percent :: "texts option"
  ns_NetIO :: "texts option"
  ns_Extension :: "unit jv"

record ContainerInfo =
  ci_Name :: string
  ci_Usage :: texts
  ci_State :: string
  ci_Reason :: string

record InstanceStats =
  is_Name :: string
  is_ServiceName :: string
  is_AppName :: string
  is_Usage :: "texts option"
  is_Extension :: "unit jv"
  is_Status :: string
  is_Cause :: string
  is_IP :: string
  is_NodeName :: string
  is_Pid :: "32 word"
  is_PPid :: "32 word"
  is_CreateTime :: int
  is_Containers :: "ContainerInfo list"
  is_InitContainers :: "ContainerInfo list"

record AppStat =
  as_Info :: AppInfo
  as_DeployType :: string
  as_Status :: string
  as_Cause :: string
  as_InstanceStats :: "(string \<times> InstanceStats) list option"

record CoreInfo =
  co_GoVersion :: string
  co_BinVersion :: string
  co_GitRevision :: string

text \<open>Times are nanoseconds, pointers are options; a nil slice counts as an empty one, which no code here tells apart.\<close>

record ReportView =
  rv_Time :: "int option"
  rv_Apps :: "AppInfo list"
  rv_SysApps :: "AppInfo list"
  rv_Core :: "CoreInfo option"
  rv_AppStats :: "AppStat list"
  rv_SysAppStats :: "AppStat list"
  rv_Node :: "(string \<times> NodeInfo option) list"
  rv_NodeStats :: "(string \<times> NodeStats option) list"
  rv_NodeInsNum :: "string \<Rightarrow> nat"
  rv_ModeInfo :: string

text \<open>What the values of a report may hold beside decoded JSON.\<close>

datatype stored = SAppStats "AppStat list" | SNodes "(string \<times> NodeInfo) list" | SNodeStats "(string \<times> NodeStats) list"

record Node =
  no_Namespace :: string
  no_Name :: string
  no_Version :: string
  no_CreationTimestamp :: int
  no_Accelerator :: string
  no_Mode :: string
  no_NodeMode :: string
  no_Cluster :: bool
  no_Labels :: texts
  no_Annotations :: texts
  no_Attributes :: "stored jmap"
  no_Report :: "stored jmap"
  no_Desire :: "stored jmap"
  no_SysApps :: "string list"
  no_Description :: string
  no_Link :: string
  no_CoreId :: string

datatype ready = NodeUninstall | NodeOnline | NodeOffline

record NodeView =
  nv_Namespace :: string
  nv_Name :: string
  nv_Version :: string
  nv_CreationTimestamp :: int
  nv_Accelerator :: string
  nv_Labels :: texts
  nv_Annotations :: texts
  nv_Report :: "ReportView option"
  nv_AppMode :: string
  nv_Desire :: "stored jmap"
  nv_SysApps :: "string list"
  nv_Description :: string
  nv_Cluster :: bool
  nv_Ready :: ready
  nv_Mode :: string
  nv_NodeMode :: string
  nv_Link :: string
  nv_CoreId :: string

section \<open>Quantities\<close>

text \<open>
  \<open>quantity q milli\<close> parses a quantity of Kubernetes and gives its value, in thousandths if \<open>milli\<close>; \<open>FormatFloat\<close> is
  \<^verbatim>\<open>strconv.FormatFloat(x, 'f', -1, 64)\<close> and \<open>rnd\<close> the rounding of floats.
\<close>

record view_env =
  quantity :: "string \<Rightarrow> bool \<Rightarrow> (string, int) result"
  FormatFloat :: "f64 \<Rightarrow> string"
  rnd :: rounding

definition float64_of :: "rounding \<Rightarrow> int \<Rightarrow> f64" where
  "float64_of r i = (if i = 0 then Zero False else r (of_int i))"

definition populateCPUResource :: "view_env \<Rightarrow> string \<Rightarrow> texts \<Rightarrow> (string, int \<times> texts) result" where
  "populateCPUResource env usage resource =
     rbind (quantity env usage True) (\<lambda>usg.
       Inr (usg, alist_put ''cpu'' (FormatFloat env (fdiv (rnd env) (float64_of (rnd env) usg) (Fin 1000))) resource))"

definition populateMemoryResource :: "view_env \<Rightarrow> string \<Rightarrow> texts \<Rightarrow> (string, int \<times> texts) result" where
  "populateMemoryResource env usage resource =
     rbind (quantity env usage False) (\<lambda>usg. Inr (usg, alist_put ''memory'' (int_text usg) resource))"

text \<open>A nil map reads as an empty one.\<close>

definition entries :: "texts option \<Rightarrow> texts" where
  "entries m = (case m of None \<Rightarrow> [] | Some m \<Rightarrow> m)"

definition populate_entry ::
  "(string \<Rightarrow> texts \<Rightarrow> (string, int \<times> texts) result) \<Rightarrow> string \<Rightarrow> texts option \<Rightarrow> (string, int \<times> texts option) result" where
  "populate_entry populate resourceType m =
     (case map_of (entries m) resourceType of
        None \<Rightarrow> Inr (0, m)
      | Some q \<Rightarrow> rbind (populate q (entries m)) (\<lambda>(n, m'). Inr (n, Some m')))"

definition processResourcePercent ::
  "view_env \<Rightarrow> NodeStats \<Rightarrow> string \<Rightarrow> (string \<Rightarrow> texts \<Rightarrow> (string, int \<times> texts) result) \<Rightarrow> (string, string \<times> NodeStats) result" where
  "processResourcePercent env s resourceType populate =
     rbind (populate_entry populate resourceType (ns_Capacity s)) (\<lambda>(total, capacity).
     rbind (populate_entry populate resourceType (ns_Usage s)) (\<lambda>(usage, used).
       Inr (if map_of (entries (ns_Capacity s)) resourceType \<noteq> None \<and> map_of (entries (ns_Usage s)) resourceType \<noteq> None \<and> total \<noteq> 0
            then (if usage \<ge> total then ''1''
                  else FormatFloat env (fdiv (rnd env) (float64_of (rnd env) usage) (float64_of (rnd env) total)))
            else ''0'',
            s\<lparr>ns_Capacity := capacity, ns_Usage := used\<rparr>)))"

section \<open>Statistics of the nodes\<close>

definition float_of :: "unit jv \<Rightarrow> f64" where
  "float_of v = (case v of JNum x \<Rightarrow> x | _ \<Rightarrow> Zero False)"

definition copy_stat :: "view_env \<Rightarrow> unit jmap \<Rightarrow> string \<Rightarrow> string \<Rightarrow> texts option \<Rightarrow> texts option" where
  "copy_stat env stats key target m =
     (case map_of stats key of None \<Rightarrow> m | Some v \<Rightarrow> Some (alist_put target (FormatFloat env (float_of v)) (entries m)))"

definition populateGPUStats :: "view_env \<Rightarrow> NodeStats \<Rightarrow> unit jv \<Rightarrow> NodeStats" where
  "populateGPUStats env s extension =
     (case extension of
        JMap stats \<Rightarrow>
          s\<lparr>ns_Usage := copy_stat env stats ''usedMemory'' ''gpu'' (ns_Usage s),
            ns_Capacity := copy_stat env stats ''totalMemory'' ''gpu'' (ns_Capacity s),
            ns_Percent := copy_stat env stats ''percent'' ''gpu'' (ns_Percent s)\<rparr>
      | _ \<Rightarrow> s)"

definition populateDiskNetStats :: "view_env \<Rightarrow> NodeStats \<Rightarrow> unit jv \<Rightarrow> NodeStats" where
  "populateDiskNetStats env s extension =
     (let stats = (case extension of JMap m \<Rightarrow> m | _ \<Rightarrow> []);
          s = s\<lparr>ns_Usage := copy_stat env stats ''diskUsed'' ''disk'' (ns_Usage s),
                ns_Capacity := copy_stat env stats ''diskTotal'' ''disk'' (ns_Capacity s),
                ns_Percent := copy_stat env stats ''diskPercent'' ''disk'' (ns_Percent s)\<rparr>
      in s\<lparr>ns_NetIO :=
             foldl (\<lambda>m key. copy_stat env stats key key m) (Some [])
               [''netBytesSent'', ''netBytesRecv'', ''netPacketsRecv'', ''netPacketsSent'']\<rparr>)"

datatype view_error = ViewErr string | ViewPanic

definition lift_err :: "(string, 'a) result \<Rightarrow> (view_error, 'a) result" where
  "lift_err r = (case r of Inl e \<Rightarrow> Inl (ViewErr e) | Inr x \<Rightarrow> Inr x)"

definition make_maps :: "NodeStats \<Rightarrow> NodeStats" where
  "make_maps s = s\<lparr>ns_Percent := Some (entries (ns_Percent s)), ns_Capacity := Some (entries (ns_Capacity s)),
                   ns_Usage := Some (entries (ns_Usage s))\<rparr>"

definition set_percent :: "string \<Rightarrow> string \<times> NodeStats \<Rightarrow> NodeStats" where
  "set_percent resourceType = (\<lambda>(p, s). s\<lparr>ns_Percent := Some (alist_put resourceType p (entries (ns_Percent s)))\<rparr>)"

text \<open>The body of the loop over the nodes; a nil pointer panics, a null extension is no extension.\<close>

definition populate_node :: "view_env \<Rightarrow> NodeStats option \<Rightarrow> (view_error, NodeStats) result" where
  "populate_node env node =
     (case node of
        None \<Rightarrow> Inl ViewPanic
      | Some s0 \<Rightarrow>
          rbind (lift_err (processResourcePercent env (make_maps s0) ''memory'' (populateMemoryResource env))) (\<lambda>r1.
          rbind (lift_err (processResourcePercent env (set_percent ''memory'' r1) ''cpu'' (populateCPUResource env))) (\<lambda>r2.
            let s = set_percent ''cpu'' r2
            in Inr (if is_JNull (ns_Extension s) then s
                    else populateDiskNetStats env (populateGPUStats env s (ns_Extension s)) (ns_Extension s)))))"

fun populate_nodes ::
  "view_env \<Rightarrow> (string \<times> NodeStats option) list \<Rightarrow> (view_error, (string \<times> NodeStats option) list) result" where
  "populate_nodes env [] = Inr []"
| "populate_nodes env ((k, s) # stats) =
     rbind (populate_node env s) (\<lambda>s'. rbind (populate_nodes env stats) (\<lambda>rest. Inr ((k, Some s') # rest)))"

definition populateNodeStats :: "view_env \<Rightarrow> NodeView \<Rightarrow> int \<Rightarrow> int \<Rightarrow> (view_error, NodeView) result" where
  "populateNodeStats env view timeout now =
     (case nv_Report view of
        None \<Rightarrow> Inr (view\<lparr>nv_Ready := NodeUninstall\<rparr>)
      | Some report \<Rightarrow>
          rbind (populate_nodes env (rv_NodeStats report)) (\<lambda>stats.
            Inr (view\<lparr>nv_Report := Some (report\<lparr>rv_NodeStats := stats\<rparr>),
                      nv_Ready := (case rv_Time report of
                                     None \<Rightarrow> NodeUninstall
                                   | Some t \<Rightarrow> if now < t + timeout then NodeOnline else NodeOffline)\<rparr>)))"

section \<open>Applications and instances\<close>

definition translateResourceQuantity :: "view_env \<Rightarrow> InstanceStats \<Rightarrow> (string, InstanceStats) result" where
  "translateResourceQuantity env s =
     (case is_Usage s of
        None \<Rightarrow> Inr s
      | Some usage \<Rightarrow>
          rbind (populate_entry (populateCPUResource env) ''cpu'' (Some usage)) (\<lambda>(_, u1).
          rbind (populate_entry (populateMemoryResource env) ''memory'' u1) (\<lambda>(_, u2). Inr (s\<lparr>is_Usage := u2\<rparr>))))"

fun mapM :: "('a \<Rightarrow> (string, 'b) result) \<Rightarrow> 'a list \<Rightarrow> (string, 'b list) result" where
  "mapM f [] = Inr []"
| "mapM f (x # xs) = rbind (f x) (\<lambda>y. rbind (mapM f xs) (\<lambda>ys. Inr (y # ys)))"

definition translate_stat :: "view_env \<Rightarrow> AppStat \<Rightarrow> (string, AppStat) result" where
  "translate_stat env a =
     (case as_InstanceStats a of
        None \<Rightarrow> Inr a
      | Some is \<Rightarrow>
          rbind (mapM (\<lambda>(k, s). rbind (translateResourceQuantity env s) (\<lambda>s'. Inr (k, s'))) is)
            (\<lambda>is'. Inr (a\<lparr>as_InstanceStats := Some is'\<rparr>)))"

definition translateServiceResourceQuantity :: "view_env \<Rightarrow> ReportView \<Rightarrow> (string, ReportView) result" where
  "translateServiceResourceQuantity env view =
     rbind (mapM (translate_stat env) (rv_SysAppStats view)) (\<lambda>sys.
     rbind (mapM (translate_stat env) (rv_AppStats view)) (\<lambda>apps.
       Inr (view\<lparr>rv_SysAppStats := sys, rv_AppStats := apps\<rparr>)))"

definition resetNodeAppStats :: "ReportView \<Rightarrow> ReportView" where
  "resetNodeAppStats view =
     view\<lparr>rv_SysAppStats := map (\<lambda>a. a\<lparr>as_Status := []\<rparr>) (rv_SysAppStats view),
          rv_AppStats := map (\<lambda>a. a\<lparr>as_Status := []\<rparr>) (rv_AppStats view)\<rparr>"

definition stat_instances :: "AppStat \<Rightarrow> InstanceStats list" where
  "stat_instances a = (case as_InstanceStats a of None \<Rightarrow> [] | Some is \<Rightarrow> map snd is)"

definition count_stat :: "(string \<Rightarrow> nat) \<Rightarrow> AppStat \<Rightarrow> string \<Rightarrow> nat" where
  "count_stat nums a = foldl (\<lambda>ns ins. ns(is_NodeName ins := ns (is_NodeName ins) + 1)) nums (stat_instances a)"

text \<open>A node without an instance has no entry in the map of the code and reads as zero here.\<close>

definition countInstanceNum :: "ReportView \<Rightarrow> ReportView" where
  "countInstanceNum view =
     view\<lparr>rv_NodeInsNum := foldl count_stat (foldl count_stat (\<lambda>_. 0) (rv_AppStats view)) (rv_SysAppStats view)\<rparr>"

text \<open>A nil pointer among the nodes panics if the loop reaches it.\<close>

fun calculateAppMode :: "(string \<times> NodeInfo option) list \<Rightarrow> string option" where
  "calculateAppMode [] = Some ''kube''"
| "calculateAppMode ((k, node) # nodes) =
     (case node of
        None \<Rightarrow> None
      | Some i \<Rightarrow> if ni_ContainerRuntime i = [] \<and> ni_MachineID i = [] then Some ''native'' else calculateAppMode nodes)"

section \<open>The view\<close>

text \<open>
  \<open>marshal\<close> encodes a value, \<open>as_cluster\<close> tells whether a text decodes to a map of node infos, \<open>as_info\<close> and \<open>as_stats\<close> decode one
  info and one set of statistics.
\<close>

record codec =
  marshal :: "stored jv \<Rightarrow> (string, string) result"
  as_cluster :: "string \<Rightarrow> bool"
  as_info :: "string \<Rightarrow> (string, NodeInfo) result"
  as_stats :: "string \<Rightarrow> (string, NodeStats) result"
  to_view :: "Node \<Rightarrow> (string, NodeView) result"

definition compatibleSingleNode :: "codec \<Rightarrow> Node \<Rightarrow> (string, Node) result" where
  "compatibleSingleNode c n =
     (case map_of (no_Report n) ''node'' of
        None \<Rightarrow> Inr n
      | Some nodeInfo \<Rightarrow>
          rbind (marshal c nodeInfo) (\<lambda>nodeInfoStr.
            if as_cluster c nodeInfoStr then Inr n
            else rbind (as_info c nodeInfoStr) (\<lambda>info.
              let name = ni_Hostname info;
                  report = alist_put ''node'' (JStats (SNodes [(name, info\<lparr>ni_Role := ''master''\<rparr>)])) (no_Report n)
              in case map_of report ''nodestats'' of
                   None \<Rightarrow> Inr (n\<lparr>no_Report := report\<rparr>)
                 | Some nodeStats \<Rightarrow>
                     rbind (marshal c nodeStats) (\<lambda>nodeStatsStr.
                     rbind (as_stats c nodeStatsStr) (\<lambda>stats.
                       Inr (n\<lparr>no_Report := alist_put ''nodestats'' (JStats (SNodeStats [(name, stats)])) report\<rparr>))))))"

definition finish_view :: "view_env \<Rightarrow> NodeView \<Rightarrow> (view_error, NodeView) result" where
  "finish_view env view =
     (case nv_Report view of
        None \<Rightarrow> Inr view
      | Some report \<Rightarrow>
          rbind (lift_err (translateServiceResourceQuantity env report)) (\<lambda>report1.
            let report2 = countInstanceNum (if nv_Ready view \<noteq> NodeOnline then resetNodeAppStats report1 else report1)
            in case calculateAppMode (rv_Node report2) of
                 None \<Rightarrow> Inl ViewPanic
               | Some mode \<Rightarrow> Inr (view\<lparr>nv_Report := Some report2, nv_AppMode := mode\<rparr>)))"

definition View :: "codec \<Rightarrow> view_env \<Rightarrow> Node \<Rightarrow> int \<Rightarrow> int \<Rightarrow> (view_error, NodeView) result" where
  "View c env n timeout now =
     rbind (lift_err (compatibleSingleNode c n)) (\<lambda>n.
     rbind (lift_err (to_view c n)) (\<lambda>view.
     rbind (populateNodeStats env view timeout now) (finish_view env)))"

section \<open>Instance counts\<close>

lemma count_stat_eq:
  "count_stat nums a x = nums x + length (filter (\<lambda>i. is_NodeName i = x) (stat_instances a))"
proof -
  have "foldl (\<lambda>ns i. ns(is_NodeName i := ns (is_NodeName i) + 1)) nums is x = nums x + length (filter (\<lambda>i. is_NodeName i = x) is)" for "is"
    by (induction "is" arbitrary: nums) auto
  then show ?thesis by (simp add: count_stat_def)
qed

definition instances_on :: "string \<Rightarrow> AppStat list \<Rightarrow> nat" where
  "instances_on x as = length (filter (\<lambda>i. is_NodeName i = x) (concat (map stat_instances as)))"

lemma count_stats_eq: "foldl count_stat nums as x = nums x + instances_on x as"
  by (induction as arbitrary: nums) (simp_all add: instances_on_def count_stat_eq)

lemma translate_keeps_nodes:
  assumes "translate_stat env a = Inr a'"
  shows "map is_NodeName (stat_instances a') = map is_NodeName (stat_instances a)" "as_Status a' = as_Status a"
    "as_Info a' = as_Info a"
proof -
  have one: "is_NodeName s' = is_NodeName s" if "translateResourceQuantity env s = Inr s'" for s s'
    using that by (auto simp: translateResourceQuantity_def rbind_eq_Inr split: option.splits prod.splits)
  have many: "map (is_NodeName \<circ> snd) is' = map (is_NodeName \<circ> snd) is"
    if "mapM (\<lambda>(k, s). rbind (translateResourceQuantity env s) (\<lambda>s'. Inr (k, s'))) is = Inr is'" for "is" is'
    using that by (induction "is" arbitrary: is') (auto simp: rbind_eq_Inr dest: one)
  show "map is_NodeName (stat_instances a') = map is_NodeName (stat_instances a)"
    using assms by (auto simp: translate_stat_def stat_instances_def rbind_eq_Inr dest: many split: option.splits)
  show "as_Status a' = as_Status a" "as_Info a' = as_Info a"
    using assms by (auto simp: translate_stat_def rbind_eq_Inr split: option.splits)
qed

lemma instances_on_names: "instances_on x as = count_list (concat (map (map is_NodeName \<circ> stat_instances) as)) x"
proof -
  have "length (filter (\<lambda>i. is_NodeName i = x) is) = count_list (map is_NodeName is) x" for "is"
    by (induction "is") auto
  from this [of "concat (map stat_instances as)"] show ?thesis by (simp add: instances_on_def map_concat)
qed

lemma mapM_translate:
  "mapM (translate_stat env) as = Inr as' \<Longrightarrow>
     map (map is_NodeName \<circ> stat_instances) as' = map (map is_NodeName \<circ> stat_instances) as \<and> map as_Status as' = map as_Status as \<and>
     map as_Info as' = map as_Info as"
  by (induction as arbitrary: as') (auto simp: rbind_eq_Inr translate_keeps_nodes)

lemma finish_view_report:
  assumes "nv_Report view = Some report" "finish_view env view = Inr v"
  obtains sys apps mode where "mapM (translate_stat env) (rv_SysAppStats report) = Inr sys"
    "mapM (translate_stat env) (rv_AppStats report) = Inr apps"
    "v = view\<lparr>nv_Report := Some (countInstanceNum ((if nv_Ready view \<noteq> NodeOnline then resetNodeAppStats else id)
            (report\<lparr>rv_SysAppStats := sys, rv_AppStats := apps\<rparr>))), nv_AppMode := mode\<rparr>"
  using assms
  by (auto simp: finish_view_def lift_err_def translateServiceResourceQuantity_def rbind_eq_Inr Let_def
      split: option.splits sum.splits if_splits)

text \<open>
  C13. The view of a node. When it is built, a node without a report or without a report time is not installed; otherwise it is online exactly while the
  report is younger than the timeout. The states of all applications are blank unless the node is online, in which case they are those of the
  report. For every node name the number of instances is the number of instances of applications and system applications that run there.
\<close>

theorem node_view:
  assumes "compatibleSingleNode c n = Inr n'" "to_view c n' = Inr v0" "View c env n timeout now = Inr v"
  shows "nv_Ready v = (case nv_Report v0 of
           None \<Rightarrow> NodeUninstall
         | Some r \<Rightarrow> (case rv_Time r of None \<Rightarrow> NodeUninstall
                    | Some t \<Rightarrow> if now < t + timeout then NodeOnline else NodeOffline)) \<and>
    (nv_Report v = None \<longleftrightarrow> nv_Report v0 = None) \<and>
    (\<forall>r0 r. nv_Report v0 = Some r0 \<and> nv_Report v = Some r \<longrightarrow>
       map as_Status (rv_AppStats r) = map (\<lambda>a. if nv_Ready v = NodeOnline then as_Status a else []) (rv_AppStats r0) \<and>
       map as_Status (rv_SysAppStats r) = map (\<lambda>a. if nv_Ready v = NodeOnline then as_Status a else []) (rv_SysAppStats r0) \<and>
       (\<forall>x. rv_NodeInsNum r x = instances_on x (rv_AppStats r0) + instances_on x (rv_SysAppStats r0)))"
proof (cases "nv_Report v0")
  case None
  then have "v = v0\<lparr>nv_Ready := NodeUninstall\<rparr>"
    using assms by (simp add: View_def lift_err_def populateNodeStats_def finish_view_def)
  with None show ?thesis by simp
next
  case (Some r0)
  let ?ready = "case rv_Time r0 of None \<Rightarrow> NodeUninstall | Some t \<Rightarrow> if now < t + timeout then NodeOnline else NodeOffline"
  from assms Some obtain stats where stats: "populate_nodes env (rv_NodeStats r0) = Inr stats"
    and fin: "finish_view env (v0\<lparr>nv_Report := Some (r0\<lparr>rv_NodeStats := stats\<rparr>), nv_Ready := ?ready\<rparr>) = Inr v"
    by (auto simp: View_def lift_err_def populateNodeStats_def rbind_eq_Inr)
  obtain sys apps mode where sys: "mapM (translate_stat env) (rv_SysAppStats r0) = Inr sys"
    and apps: "mapM (translate_stat env) (rv_AppStats r0) = Inr apps"
    and v: "v = v0\<lparr>nv_Ready := ?ready, nv_Report := Some (countInstanceNum ((if ?ready \<noteq> NodeOnline then resetNodeAppStats else id)
          (r0\<lparr>rv_NodeStats := stats, rv_SysAppStats := sys, rv_AppStats := apps\<rparr>))), nv_AppMode := mode\<rparr>"
    by (rule finish_view_report [OF _ fin, of "r0\<lparr>rv_NodeStats := stats\<rparr>"]) simp_all
  note keep = mapM_translate [OF sys] mapM_translate [OF apps]
  have len: "length sys = length (rv_SysAppStats r0)" "length apps = length (rv_AppStats r0)"
    using keep map_eq_imp_length_eq by blast+
  have blank: "stat_instances (a\<lparr>as_Status := []\<rparr>) = stat_instances a" for a
    by (simp add: stat_instances_def)
  have counts: "instances_on x apps = instances_on x (rv_AppStats r0)" "instances_on x sys = instances_on x (rv_SysAppStats r0)" for x
    using keep by (simp_all add: instances_on_names)
  have "instances_on x (map (\<lambda>a. a\<lparr>as_Status := []\<rparr>) as) = instances_on x as" for x as
    by (simp add: instances_on_def blank o_def)
  then show ?thesis
    using keep counts Some
    by (auto simp: v countInstanceNum_def resetNodeAppStats_def count_stats_eq o_def len map_replicate_const)
qed

definition demo_instance :: InstanceStats where
  "demo_instance = \<lparr>is_Name = ''i'', is_ServiceName = [], is_AppName = ''a'', is_Usage = None, is_Extension = JNull, is_Status = ''Running'',
     is_Cause = [], is_IP = [], is_NodeName = ''n1'', is_Pid = 0, is_PPid = 0, is_CreateTime = 0, is_Containers = [], is_InitContainers = []\<rparr>"

definition demo_stat :: AppStat where
  "demo_stat = \<lparr>as_Info = \<lparr>ai_Name = ''a'', ai_Version = ''1''\<rparr>, as_DeployType = [], as_Status = ''Running'', as_Cause = [],
     as_InstanceStats = Some [(''i'', demo_instance)]\<rparr>"

definition demo_report :: ReportView where
  "demo_report = \<lparr>rv_Time = Some 100, rv_Apps = [], rv_SysApps = [], rv_Core = None, rv_AppStats = [demo_stat], rv_SysAppStats = [],
     rv_Node = [], rv_NodeStats = [], rv_NodeInsNum = (\<lambda>_. 0), rv_ModeInfo = []\<rparr>"

definition demo_view :: NodeView where
  "demo_view = \<lparr>nv_Namespace = [], nv_Name = ''n'', nv_Version = [], nv_CreationTimestamp = 0, nv_Accelerator = [], nv_Labels = [],
     nv_Annotations = [], nv_Report = Some demo_report, nv_AppMode = [], nv_Desire = [], nv_SysApps = [], nv_Description = [],
     nv_Cluster = False, nv_Ready = NodeUninstall, nv_Mode = [], nv_NodeMode = [], nv_Link = [], nv_CoreId = []\<rparr>"

definition demo_node :: Node where
  "demo_node = \<lparr>no_Namespace = [], no_Name = ''n'', no_Version = [], no_CreationTimestamp = 0, no_Accelerator = [], no_Mode = [],
     no_NodeMode = [], no_Cluster = False, no_Labels = [], no_Annotations = [], no_Attributes = [], no_Report = [], no_Desire = [],
     no_SysApps = [], no_Description = [], no_Link = [], no_CoreId = []\<rparr>"

definition demo_codec :: codec where
  "demo_codec = \<lparr>marshal = (\<lambda>_. Inr []), as_cluster = (\<lambda>_. True), as_info = (\<lambda>_. Inl []), as_stats = (\<lambda>_. Inl []),
     to_view = (\<lambda>_. Inr demo_view)\<rparr>"

definition demo_env :: view_env where
  "demo_env = \<lparr>quantity = (\<lambda>_ _. Inr 0), FormatFloat = (\<lambda>_. ''0''), rnd = Fin\<rparr>"

theorem node_view_witness:
  "\<exists>v r. View demo_codec demo_env demo_node 50 200 = Inr v \<and> nv_Report v = Some r \<and>
     nv_Ready v = NodeOffline \<and> map as_Status (rv_AppStats r) = [[]] \<and> rv_NodeInsNum r ''n1'' = 1"
proof -
  have compat: "compatibleSingleNode demo_codec demo_node = Inr demo_node" and dec: "to_view demo_codec demo_node = Inr demo_view"
    by (simp_all add: compatibleSingleNode_def demo_node_def demo_codec_def)
  have "\<exists>v. View demo_codec demo_env demo_node 50 200 = Inr v"
    by (simp add: View_def lift_err_def compat dec populateNodeStats_def finish_view_def translateServiceResourceQuantity_def
        translate_stat_def translateResourceQuantity_def resetNodeAppStats_def countInstanceNum_def demo_view_def demo_report_def
        demo_stat_def demo_instance_def)
  then obtain v where v: "View demo_codec demo_env demo_node 50 200 = Inr v" ..
  from node_view [OF compat dec v] have *: "nv_Ready v = NodeOffline" "nv_Report v \<noteq> None"
    "\<And>r. nv_Report v = Some r \<Longrightarrow> map as_Status (rv_AppStats r) = [[]] \<and> rv_NodeInsNum r ''n1'' = 1"
    by (simp_all add: demo_view_def demo_report_def demo_stat_def demo_instance_def instances_on_def stat_instances_def)
  then show ?thesis using v by auto
qed

end
