(* ===== verification/Utils_Sync.thy ===== *)
theory Utils_Sync
  imports Baetyl_Prelude
begin

text \<open>
  The file lock and the tomb of package \<^verbatim>\<open>utils\<close>: \<^verbatim>\<open>utils/flock.go\<close> and \<^verbatim>\<open>utils/tomb.go\<close>. The lock loop is a
  partial function over the answers of the system call and the clock; the tomb is a step relation over
  threads, with the mutex of the wrapper and the goroutines the tomb tracks.
\<close>

section \<open>The file lock\<close>

datatype flock_answer = LockOk | WouldBlock | LockErr string

text \<open>Nanoseconds: 100 microseconds.\<close>

definition DefaultFlockRetry :: int where
  "DefaultFlockRetry = 100000"

text \<open>
  \<open>sys i\<close> is the answer of the \<open>i\<close>-th system call, \<open>since i\<close> the time that has passed when the \<open>i\<close>-th iteration reads the
  clock. \<open>None\<close> is a loop that does not end.
\<close>

partial_function (option) Flock_loop ::
  "(nat \<Rightarrow> flock_answer) \<Rightarrow> (nat \<Rightarrow> int) \<Rightarrow> int \<Rightarrow> nat \<Rightarrow> (string, unit) result option" where
  "Flock_loop sys since timeout i =
     (case sys i of
        LockOk \<Rightarrow> Some (Inr ())
      | LockErr e \<Rightarrow> Some (Inl e)
      | WouldBlock \<Rightarrow>
          if timeout \<noteq> 0 \<and> since i > timeout - DefaultFlockRetry then Some (Inl ''timeout'')
          else Flock_loop sys since timeout (Suc i))"

definition Flock :: "(nat \<Rightarrow> flock_answer) \<Rightarrow> (nat \<Rightarrow> int) \<Rightarrow> int \<Rightarrow> (string, unit) result option" where
  "Flock sys since timeout = Flock_loop sys since timeout 0"

text \<open>\<open>file\<close> is the file descriptor of a file that is not nil; the answer of unlocking it is an argument.\<close>

definition Funlock :: "(int \<Rightarrow> string option) \<Rightarrow> int option \<Rightarrow> string option" where
  "Funlock unlock file = (case file of Some fd \<Rightarrow> unlock fd | None \<Rightarrow> Some ''file does not exist'')"

definition flock_expired :: "(nat \<Rightarrow> int) \<Rightarrow> int \<Rightarrow> nat \<Rightarrow> bool" where
  "flock_expired since timeout i \<longleftrightarrow> timeout \<noteq> 0 \<and> since i > timeout - DefaultFlockRetry"

definition flock_stops :: "(nat \<Rightarrow> flock_answer) \<Rightarrow> (nat \<Rightarrow> int) \<Rightarrow> int \<Rightarrow> nat \<Rightarrow> bool" where
  "flock_stops sys since timeout i \<longleftrightarrow> sys i \<noteq> WouldBlock \<or> flock_expired since timeout i"

definition flock_result :: "flock_answer \<Rightarrow> (string, unit) result" where
  "flock_result a = (case a of LockOk \<Rightarrow> Inr () | LockErr e \<Rightarrow> Inl e | WouldBlock \<Rightarrow> Inl ''timeout'')"

lemma Flock_loop_step:
  "Flock_loop sys since timeout i =
     (if flock_stops sys since timeout i then Some (flock_result (sys i))
      else Flock_loop sys since timeout (Suc i))"
  by (subst Flock_loop.simps)
    (auto simp: flock_stops_def flock_expired_def flock_result_def split: flock_answer.splits)

lemma Flock_loop_stops:
  assumes "flock_stops sys since timeout n" and "i \<le> n"
    and "\<And>j. i \<le> j \<Longrightarrow> j < n \<Longrightarrow> \<not> flock_stops sys since timeout j"
  shows "Flock_loop sys since timeout i = Some (flock_result (sys n))"
  using assms(2,3)
proof (induction "n - i" arbitrary: i)
  case 0
  then show ?case using assms(1) by (simp add: Flock_loop_step [of _ _ _ i])
next
  case (Suc k)
  then have "\<not> flock_stops sys since timeout i" by simp
  with Suc show ?case by (simp add: Flock_loop_step [of _ _ _ i])
qed

lemma Flock_loop_never:
  assumes "\<And>j. i \<le> j \<Longrightarrow> \<not> flock_stops sys since timeout j"
  shows "Flock_loop sys since timeout i = None"
proof -
  have "(\<forall>j \<ge> i. \<not> flock_stops sys since timeout j) \<longrightarrow> False" if "Flock_loop sys since timeout i = Some r" for r
    using that
  proof (rule Flock_loop.raw_induct [of "\<lambda>s c t i r. (\<forall>j \<ge> i. \<not> flock_stops s c t j) \<longrightarrow> False", rotated])
    fix f s c t i r
    assume IH: "\<And>s c t i r. f s c t i = Some r \<Longrightarrow> (\<forall>j \<ge> i. \<not> flock_stops s c t j) \<longrightarrow> False"
      and step: "(case s i of LockOk \<Rightarrow> Some (Inr ())
        | WouldBlock \<Rightarrow> if t \<noteq> 0 \<and> t - DefaultFlockRetry < c i then Some (Inl ''timeout'') else f s c t (Suc i)
        | LockErr e \<Rightarrow> Some (Inl e)) = Some r"
    show "(\<forall>j \<ge> i. \<not> flock_stops s c t j) \<longrightarrow> False"
    proof
      assume never: "\<forall>j \<ge> i. \<not> flock_stops s c t j"
      then have "\<not> flock_stops s c t i" by simp
      with step have "f s c t (Suc i) = Some r"
        by (auto simp: flock_stops_def flock_expired_def split: flock_answer.splits)
      with IH never show False by (meson Suc_leD)
    qed
  qed
  then show ?thesis using assms by (cases "Flock_loop sys since timeout i") blast+
qed

lemma flock_expires:
  assumes "timeout \<noteq> 0" and sleeps: "\<And>i. int i * DefaultFlockRetry \<le> since i"
  shows "flock_expired since timeout (nat (timeout div DefaultFlockRetry))"
proof -
  let ?m = "nat (timeout div DefaultFlockRetry)"
  have "timeout - DefaultFlockRetry < int ?m * DefaultFlockRetry"
    unfolding DefaultFlockRetry_def by linarith
  with sleeps [of ?m] show ?thesis using assms(1) by (simp add: flock_expired_def)
qed

lemma Flock_first_stop:
  assumes "flock_stops sys since timeout m"
  obtains n where "n \<le> m" "flock_stops sys since timeout n" "\<forall>j < n. \<not> flock_stops sys since timeout j"
    "Flock sys since timeout = Some (flock_result (sys n))"
proof -
  let ?stop = "flock_stops sys since timeout"
  obtain n where n: "?stop n" "\<forall>j < n. \<not> ?stop j"
    using assms exists_least_iff [of ?stop] by blast
  with assms have "n \<le> m" by (meson not_less)
  moreover have "Flock sys since timeout = Some (flock_result (sys n))"
    unfolding Flock_def using n by (intro Flock_loop_stops) auto
  ultimately show ?thesis using that n by blast
qed

lemma Flock_returns: "flock_stops sys since timeout m \<Longrightarrow> Flock sys since timeout \<noteq> None"
  by (erule Flock_first_stop) simp

text \<open>
  C14. The file lock ends. With a timeout, and sleeps that last at least as long as asked for, \<^verbatim>\<open>Flock\<close> returns after at
  most \<open>timeout / 100us\<close> rounds (one more than the sleeps that fit): with the first answer that is not
  \<^verbatim>\<open>EWOULDBLOCK\<close> if it comes before the first round in which the time is up, else with a timeout.
\<close>

theorem Flock_terminates:
  assumes "timeout \<noteq> 0" and sleeps: "\<And>i. int i * DefaultFlockRetry \<le> since i"
  shows "\<exists>n. n \<le> nat (timeout div DefaultFlockRetry) \<and>
     Flock sys since timeout = Some (flock_result (sys n)) \<and>
     (sys n = WouldBlock \<longrightarrow> timeout - DefaultFlockRetry < since n) \<and>
     (\<forall>j < n. sys j = WouldBlock \<and> since j \<le> timeout - DefaultFlockRetry)"
proof -
  have m: "flock_stops sys since timeout (nat (timeout div DefaultFlockRetry))"
    using flock_expires [OF assms] by (simp add: flock_stops_def)
  obtain n where n: "n \<le> nat (timeout div DefaultFlockRetry)" "flock_stops sys since timeout n"
    "\<forall>j < n. \<not> flock_stops sys since timeout j" "Flock sys since timeout = Some (flock_result (sys n))"
    by (rule Flock_first_stop [OF m])
  then show ?thesis
    using assms(1) by (intro exI [of _ n]) (auto simp: flock_stops_def flock_expired_def not_less)
qed

text \<open>Without a timeout the loop ends exactly when some call does not block.\<close>

lemma Flock_no_timeout: "Flock sys since 0 = None \<longleftrightarrow> (\<forall>i. sys i = WouldBlock)"
proof
  assume "Flock sys since 0 = None"
  show "\<forall>i. sys i = WouldBlock"
  proof (rule ccontr)
    assume "\<not> (\<forall>i. sys i = WouldBlock)"
    then have ex: "\<exists>n. flock_stops sys since 0 n" by (auto simp: flock_stops_def)
    with \<open>Flock sys since 0 = None\<close> show False using Flock_returns by blast
  qed
qed (auto simp: Flock_def flock_stops_def flock_expired_def intro: Flock_loop_never)

theorem Flock_terminates_witness:
  "\<exists>n \<le> 3. Flock (\<lambda>_. WouldBlock) (\<lambda>i. int i * 100000) 300000 = Some (flock_result WouldBlock) \<and> 200000 < int n * 100000"
  using Flock_terminates [of 300000 "\<lambda>i. int i * 100000" "\<lambda>_. WouldBlock"] by (auto simp: DefaultFlockRetry_def)

section \<open>The tomb\<close>

text \<open>
  Threads are goroutines outside the tomb or goroutines the tomb tracks. A thread is outside the wrapper, waits for
  its mutex in \<^verbatim>\<open>Go\<close> (with the number of functions to start) or in \<^verbatim>\<open>Wait\<close>, or holds it. The embedded tomb is dead when its last
  tracked goroutine has ended; starting one after that panics, which \<^verbatim>\<open>Go\<close> turns into an error.
\<close>

datatype thread = Outer nat | Worker nat

datatype tomb_pc = Outside | GoLock nat | GoRun nat | WaitLock | WaitBlock | WaitReturn

record Tomb =
  gos :: bool
  mutex :: "thread option"
  pc :: "thread \<Rightarrow> tomb_pc"
  tracked :: "thread set"
  dead :: bool

definition new_Tomb :: Tomb where
  "new_Tomb = \<lparr>gos = False, mutex = None, pc = (\<lambda>_. Outside), tracked = {}, dead = False\<rparr>"

inductive tomb_step :: "Tomb \<Rightarrow> Tomb \<Rightarrow> bool" where
  go_call: "pc y th = Outside \<Longrightarrow> tomb_step y (y\<lparr>pc := (pc y)(th := GoLock n)\<rparr>)"
| go_lock: "pc y th = GoLock n \<Longrightarrow> mutex y = None \<Longrightarrow>
    tomb_step y (y\<lparr>mutex := Some th, gos := True, pc := (pc y)(th := GoRun n)\<rparr>)"
| go_start: "pc y th = GoRun (Suc n) \<Longrightarrow> \<not> dead y \<Longrightarrow> Worker g \<notin> tracked y \<Longrightarrow> pc y (Worker g) = Outside \<Longrightarrow>
    tomb_step y (y\<lparr>tracked := insert (Worker g) (tracked y), pc := (pc y)(th := GoRun n)\<rparr>)"
| go_panic: "pc y th = GoRun (Suc n) \<Longrightarrow> dead y \<Longrightarrow>
    tomb_step y (y\<lparr>mutex := None, pc := (pc y)(th := Outside)\<rparr>)"
| go_return: "pc y th = GoRun 0 \<Longrightarrow> tomb_step y (y\<lparr>mutex := None, pc := (pc y)(th := Outside)\<rparr>)"
| wait_call: "pc y th = Outside \<Longrightarrow> tomb_step y (y\<lparr>pc := (pc y)(th := WaitLock)\<rparr>)"
| wait_lock: "pc y th = WaitLock \<Longrightarrow> mutex y = None \<Longrightarrow>
    tomb_step y (y\<lparr>mutex := Some th, pc := (pc y)(th := if gos y then WaitBlock else WaitReturn)\<rparr>)"
| wait_dead: "pc y th = WaitBlock \<Longrightarrow> dead y \<Longrightarrow> tomb_step y (y\<lparr>pc := (pc y)(th := WaitReturn)\<rparr>)"
| wait_return: "pc y th = WaitReturn \<Longrightarrow> tomb_step y (y\<lparr>mutex := None, pc := (pc y)(th := Outside)\<rparr>)"
| finish: "g \<in> tracked y \<Longrightarrow> pc y g = Outside \<Longrightarrow>
    tomb_step y (y\<lparr>tracked := tracked y - {g}, dead := (tracked y - {g} = {})\<rparr>)"

inductive_cases tomb_stepE: "tomb_step y y'"

abbreviation tomb_steps :: "Tomb \<Rightarrow> Tomb \<Rightarrow> bool" where
  "tomb_steps \<equiv> rtranclp tomb_step"

text \<open>
  The mutex is held exactly by the thread inside; the tomb is dead only when nothing is tracked and something was
  started, and nothing is tracked that was never started.
\<close>

definition holds :: "tomb_pc \<Rightarrow> bool" where
  "holds p \<longleftrightarrow> (case p of GoRun _ \<Rightarrow> True | WaitBlock \<Rightarrow> True | WaitReturn \<Rightarrow> True | _ \<Rightarrow> False)"

lemma holds_simps [simp]:
  "\<not> holds Outside" "\<not> holds (GoLock n)" "holds (GoRun n)" "\<not> holds WaitLock" "holds WaitBlock" "holds WaitReturn"
  by (simp_all add: holds_def)

definition tomb_inv :: "Tomb \<Rightarrow> bool" where
  "tomb_inv y \<longleftrightarrow> (\<forall>th. holds (pc y th) \<longleftrightarrow> mutex y = Some th) \<and> (dead y \<longrightarrow> tracked y = {}) \<and>
     (\<not> gos y \<longrightarrow> tracked y = {} \<and> \<not> dead y \<and> (\<forall>th n. pc y th \<noteq> GoRun n \<and> pc y th \<noteq> WaitBlock))"

lemma tomb_inv_step: "tomb_step y y' \<Longrightarrow> tomb_inv y \<Longrightarrow> tomb_inv y'"
proof (induction rule: tomb_step.induct)
  case (go_start y th n g)
  then have "mutex y = Some th" "gos y" unfolding tomb_inv_def by (metis holds_simps(3))+
  with go_start show ?case by (simp add: tomb_inv_def)
next
  case (go_panic y th n)
  then have "mutex y = Some th" unfolding tomb_inv_def by (metis holds_simps(3))
  with go_panic show ?case by (simp add: tomb_inv_def)
next
  case (go_return y th)
  then have "mutex y = Some th" unfolding tomb_inv_def by (metis holds_simps(3))
  with go_return show ?case by (auto simp: tomb_inv_def)
next
  case (wait_return y th)
  then have "mutex y = Some th" unfolding tomb_inv_def by (metis holds_simps(6))
  with wait_return show ?case by (auto simp: tomb_inv_def)
next
  case (wait_dead y th)
  then have "mutex y = Some th" "gos y" unfolding tomb_inv_def by (metis holds_simps(5))+
  with wait_dead show ?case by (simp add: tomb_inv_def)
next
  case (go_call y th n)
  then have "mutex y \<noteq> Some th" unfolding tomb_inv_def by (metis holds_simps(1))
  with go_call show ?case by (simp add: tomb_inv_def)
next
  case (wait_call y th)
  then have "mutex y \<noteq> Some th" unfolding tomb_inv_def by (metis holds_simps(1))
  with wait_call show ?case by (simp add: tomb_inv_def)
qed (auto simp: tomb_inv_def split: if_splits)

interpretation tomb_system: step_system tomb_step tomb_inv
  by unfold_locales (rule tomb_inv_step)

lemma tomb_inv_new: "tomb_inv new_Tomb"
  by (simp add: tomb_inv_def new_Tomb_def)

text \<open>Without a \<^verbatim>\<open>Go\<close>, \<^verbatim>\<open>Wait\<close> never blocks once it has the mutex.\<close>

lemma wait_without_go: "tomb_inv y \<Longrightarrow> \<not> gos y \<Longrightarrow> pc y th \<noteq> WaitBlock"
  by (simp add: tomb_inv_def)

lemma deadlock_step:
  assumes "tomb_inv y" "pc y th = WaitBlock" "g \<in> tracked y" "pc y g = GoLock n" "tomb_step y y'"
  shows "pc y' th = WaitBlock \<and> g \<in> tracked y' \<and> pc y' g = GoLock n"
proof -
  have "mutex y = Some th" "\<not> dead y"
    using assms(1-3) unfolding tomb_inv_def by (metis holds_simps(5) empty_iff)+
  with assms(5,2,3,4) show ?thesis by (induction rule: tomb_step.induct) auto
qed

text \<open>
  C16. Waiting can block the goroutines it waits for. \<^verbatim>\<open>Wait\<close> keeps the mutex of the wrapper while it waits for the tomb
  to die, and \<^verbatim>\<open>Go\<close> needs it: once a thread waits and a goroutine of the tomb has called \<^verbatim>\<open>Go\<close>, in every
  continuation the goroutine is still at the lock and the thread still waits.
\<close>

theorem tomb_wait_deadlock:
  assumes "tomb_steps new_Tomb y" "pc y th = WaitBlock" "g \<in> tracked y" "pc y g = GoLock n" "tomb_steps y y'"
  shows "pc y' th = WaitBlock \<and> pc y' g = GoLock n"
proof -
  have "tomb_inv y" using tomb_system.steps_inv [OF assms(1) tomb_inv_new] .
  then have "pc y' th = WaitBlock \<and> g \<in> tracked y' \<and> pc y' g = GoLock n"
    using assms(2-4) deadlock_step
    by (intro tomb_system.steps_stable [OF assms(5), of "\<lambda>y. pc y th = WaitBlock \<and> g \<in> tracked y \<and> pc y g = GoLock n"]) blast+
  then show ?thesis by simp
qed

text \<open>A run that gets there: start one goroutine, wait, and let the goroutine start another.\<close>

definition tomb_locked :: Tomb where
  "tomb_locked = \<lparr>gos = True, mutex = Some (Outer 0),
     pc = (\<lambda>_. Outside)(Outer 0 := WaitBlock, Worker 0 := GoLock 1), tracked = {Worker 0}, dead = False\<rparr>"

lemma tomb_locked_reachable: "tomb_steps new_Tomb tomb_locked"
proof -
  let ?o = "\<lambda>_. Outside :: tomb_pc"
  let ?y = "\<lambda>g m p t. \<lparr>gos = g, mutex = m, pc = p, tracked = t, dead = False\<rparr>"
  have 1: "tomb_step new_Tomb (?y False None (?o(Outer 0 := GoLock 1)) {})"
    using go_call [of new_Tomb "Outer 0" 1] by (simp add: new_Tomb_def)
  have 2: "tomb_step (?y False None (?o(Outer 0 := GoLock 1)) {}) (?y True (Some (Outer 0)) (?o(Outer 0 := GoRun 1)) {})"
    using go_lock [of "?y False None (?o(Outer 0 := GoLock 1)) {}" "Outer 0" 1] by simp
  have 3: "tomb_step (?y True (Some (Outer 0)) (?o(Outer 0 := GoRun 1)) {})
      (?y True (Some (Outer 0)) (?o(Outer 0 := GoRun 0)) {Worker 0})"
    using go_start [of "?y True (Some (Outer 0)) (?o(Outer 0 := GoRun 1)) {}" "Outer 0" 0 0] by simp
  have 4: "tomb_step (?y True (Some (Outer 0)) (?o(Outer 0 := GoRun 0)) {Worker 0}) (?y True None ?o {Worker 0})"
    using go_return [of "?y True (Some (Outer 0)) (?o(Outer 0 := GoRun 0)) {Worker 0}" "Outer 0"]
    by (simp add: fun_upd_idem)
  have 5: "tomb_step (?y True None ?o {Worker 0}) (?y True None (?o(Outer 0 := WaitLock)) {Worker 0})"
    using wait_call [of "?y True None ?o {Worker 0}" "Outer 0"] by simp
  have 6: "tomb_step (?y True None (?o(Outer 0 := WaitLock)) {Worker 0})
      (?y True (Some (Outer 0)) (?o(Outer 0 := WaitBlock)) {Worker 0})"
    using wait_lock [of "?y True None (?o(Outer 0 := WaitLock)) {Worker 0}" "Outer 0"] by simp
  have 7: "tomb_step (?y True (Some (Outer 0)) (?o(Outer 0 := WaitBlock)) {Worker 0}) tomb_locked"
    using go_call [of "?y True (Some (Outer 0)) (?o(Outer 0 := WaitBlock)) {Worker 0}" "Worker 0" 1]
    by (simp add: tomb_locked_def)
  from 1 2 3 4 5 6 7 show ?thesis by (meson converse_rtranclp_into_rtranclp rtranclp.rtrancl_refl)
qed

definition tomb_later :: Tomb where
  "tomb_later = tomb_locked\<lparr>pc := (pc tomb_locked)(Outer 1 := WaitLock)\<rparr>"

theorem tomb_wait_deadlock_witness:
  "tomb_steps new_Tomb tomb_locked \<and> tomb_steps tomb_locked tomb_later \<and>
   pc tomb_later (Outer 0) = WaitBlock \<and> pc tomb_later (Worker 0) = GoLock 1"
proof -
  have "tomb_step tomb_locked tomb_later"
    using wait_call [of tomb_locked "Outer 1"] by (simp add: tomb_locked_def tomb_later_def)
  then have later: "tomb_steps tomb_locked tomb_later" by blast
  have "pc tomb_later (Outer 0) = WaitBlock \<and> pc tomb_later (Worker 0) = GoLock 1"
    by (rule tomb_wait_deadlock [OF tomb_locked_reachable _ _ _ later]) (simp_all add: tomb_locked_def)
  with tomb_locked_reachable later show ?thesis by blast
qed

section \<open>The state of a tomb\<close>

text \<open>
  The other methods of the wrapper go straight to the embedded tomb, without the mutex. The package \<^verbatim>\<open>tomb.v2\<close> is an argument; of a channel that is only ever closed all that counts is
  whether it is closed.
\<close>

record ('t, 'e) tomb_lib =
  tb_Kill :: "'e option \<Rightarrow> 't \<Rightarrow> 't"
  tb_Dying :: "'t \<Rightarrow> bool"
  tb_Dead :: "'t \<Rightarrow> bool"
  tb_Alive :: "'t \<Rightarrow> bool"
  tb_Err :: "'t \<Rightarrow> 'e option"

definition Tomb_Kill :: "('t, 'e) tomb_lib \<Rightarrow> 'e option \<Rightarrow> 't \<Rightarrow> 't" where "Tomb_Kill T reason t = tb_Kill T reason t"
definition Tomb_Dying :: "('t, 'e) tomb_lib \<Rightarrow> 't \<Rightarrow> bool" where "Tomb_Dying T t = tb_Dying T t"
definition Tomb_Dead :: "('t, 'e) tomb_lib \<Rightarrow> 't \<Rightarrow> bool" where "Tomb_Dead T t = tb_Dead T t"
definition Tomb_Alive :: "('t, 'e) tomb_lib \<Rightarrow> 't \<Rightarrow> bool" where "Tomb_Alive T t = tb_Alive T t"
definition Tomb_Err :: "('t, 'e) tomb_lib \<Rightarrow> 't \<Rightarrow> 'e option" where "Tomb_Err T t = tb_Err T t"

text \<open>
  What the package documents: a killed tomb is dying and not alive, and only the first reason that is not nil is recorded. \<open>ErrDying\<close> as a reason
  means something else and is left out.
\<close>

definition tomb_law :: "('t, 'e) tomb_lib \<Rightarrow> 'e \<Rightarrow> bool" where
  "tomb_law T ErrDying \<longleftrightarrow>
     (\<forall>t r. r \<noteq> Some ErrDying \<longrightarrow> tb_Dying T (tb_Kill T r t) \<and> \<not> tb_Alive T (tb_Kill T r t) \<and>
        tb_Err T (tb_Kill T r t) = (if \<not> tb_Alive T t \<and> tb_Err T t \<noteq> None then tb_Err T t else r))"

fun first_reason :: "'e option list \<Rightarrow> 'e option" where
  "first_reason [] = None"
| "first_reason (r # rs) = (case r of None \<Rightarrow> first_reason rs | Some e \<Rightarrow> Some e)"

text \<open>Over any sequence of kills of a living tomb the first reason that is not nil is the reason of death.\<close>

lemma kill_reason:
  assumes law: "tomb_law T ErrDying" and alive: "Tomb_Alive T t" and other: "Some ErrDying \<notin> set (r # rs)"
  shows "Tomb_Err T (foldl (\<lambda>t r. Tomb_Kill T r t) t (r # rs)) = first_reason (r # rs)"
proof -
  have dead: "Tomb_Err T (foldl (\<lambda>t r. Tomb_Kill T r t) u rs) =
      (case Tomb_Err T u of None \<Rightarrow> first_reason rs | Some e \<Rightarrow> Some e)" if "\<not> Tomb_Alive T u" "Some ErrDying \<notin> set rs" for u rs
    using that
  proof (induction rs arbitrary: u)
    case (Cons r rs)
    have "\<not> Tomb_Alive T (Tomb_Kill T r u)"
      "Tomb_Err T (Tomb_Kill T r u) = (case Tomb_Err T u of None \<Rightarrow> r | Some e \<Rightarrow> Some e)"
      using law Cons.prems by (auto simp: tomb_law_def Tomb_Alive_def Tomb_Kill_def Tomb_Err_def split: option.splits)
    then show ?case using Cons.IH [of "Tomb_Kill T r u"] Cons.prems(2) by (auto split: option.splits)
  qed (simp split: option.splits)
  have "\<not> Tomb_Alive T (Tomb_Kill T r t)" "Tomb_Err T (Tomb_Kill T r t) = r"
    using law alive other by (auto simp: tomb_law_def Tomb_Alive_def Tomb_Kill_def Tomb_Err_def)
  then show ?thesis using dead [of "Tomb_Kill T r t" rs] other by (simp split: option.splits)
qed

end
