(* ===== verification/Utils_Flock_Windows.thy ===== *)
theory Utils_Flock_Windows
  imports Utils_Sync "HOL-Library.Word"
begin

text \<open>
  The file lock on Windows: \<^verbatim>\<open>utils/flock_windows.go\<close>. The two procedures of \<^verbatim>\<open>kernel32.dll\<close> are arguments; they
  return a result word and the last error of the thread. The loop is the one of \<^verbatim>\<open>utils/flock.go\<close> over other system calls, and
  the property says so: it refines the loop of \<^verbatim>\<open>Utils_Sync\<close> on the translated answers.
\<close>

unbundle bit_operations_syntax

section \<open>The system calls\<close>

type_synonym uintptr = "64 word"

text \<open>\<^verbatim>\<open>syscall.Overlapped\<close>; the source sets the two halves of the offset.\<close>

record Overlapped =
  Internal :: uintptr
  InternalHigh :: uintptr
  Offset :: "32 word"
  OffsetHigh :: "32 word"
  HEvent :: uintptr

type_synonym lock_proc =
  "uintptr \<Rightarrow> uintptr \<Rightarrow> uintptr \<Rightarrow> uintptr \<Rightarrow> uintptr \<Rightarrow> Overlapped \<Rightarrow> uintptr \<times> uintptr"

type_synonym unlock_proc =
  "uintptr \<Rightarrow> uintptr \<Rightarrow> uintptr \<Rightarrow> uintptr \<Rightarrow> Overlapped \<Rightarrow> uintptr \<Rightarrow> uintptr \<times> uintptr"

definition flagLockExclusive :: "32 word" where
  "flagLockExclusive = 2"

definition flagLockFailImmediately :: "32 word" where
  "flagLockFailImmediately = 1"

definition errLockViolation :: uintptr where
  "errLockViolation = 0x21"

definition lockFileEx ::
  "lock_proc \<Rightarrow> uintptr \<Rightarrow> 32 word \<Rightarrow> 32 word \<Rightarrow> 32 word \<Rightarrow> 32 word \<Rightarrow> Overlapped \<Rightarrow> uintptr option" where
  "lockFileEx procLockFileEx h flags reserved locklow lockhigh ol =
     (case procLockFileEx h (ucast flags) (ucast reserved) (ucast locklow) (ucast lockhigh) ol of
        (r, err) \<Rightarrow> if r = 0 then Some err else None)"

definition unlockFileEx ::
  "unlock_proc \<Rightarrow> uintptr \<Rightarrow> 32 word \<Rightarrow> 32 word \<Rightarrow> 32 word \<Rightarrow> Overlapped \<Rightarrow> uintptr option" where
  "unlockFileEx procUnlockFileEx h reserved locklow lockhigh ol =
     (case procUnlockFileEx h (ucast reserved) (ucast locklow) (ucast lockhigh) ol 0 of
        (r, err) \<Rightarrow> if r = 0 then Some err else None)"

section \<open>Lock and unlock\<close>

datatype win_error = Errno uintptr | WinTimeout

text \<open>\<^verbatim>\<open>file.Fd()\<close>: the descriptor of a nil file is the word with all bits set.\<close>

definition Fd :: "uintptr option \<Rightarrow> uintptr" where
  "Fd file = (case file of Some fd \<Rightarrow> fd | None \<Rightarrow> - 1)"

text \<open>The byte at the largest offset of a file, which both operations name.\<close>

definition last_byte :: Overlapped where
  "last_byte = (let m1 = (- 1 :: 32 word) in
     \<lparr>Internal = 0, InternalHigh = 0, Offset = m1, OffsetHigh = m1, HEvent = 0\<rparr>)"

definition lock_attempt :: "lock_proc \<Rightarrow> uintptr \<Rightarrow> uintptr option" where
  "lock_attempt procLockFileEx fd =
     (let flag = flagLockFailImmediately OR flagLockExclusive in lockFileEx procLockFileEx fd flag 0 1 0 last_byte)"

text \<open>\<open>procs i\<close> is the procedure at its \<open>i\<close>-th call, \<open>since i\<close> what the clock says in the \<open>i\<close>-th round.\<close>

partial_function (option) Flock_windows_loop ::
  "(nat \<Rightarrow> lock_proc) \<Rightarrow> (nat \<Rightarrow> int) \<Rightarrow> int \<Rightarrow> uintptr \<Rightarrow> nat \<Rightarrow> (win_error, unit) result option" where
  "Flock_windows_loop procs since timeout fd i =
     (case lock_attempt (procs i) fd of
        None \<Rightarrow> Some (Inr ())
      | Some err \<Rightarrow>
          if err \<noteq> errLockViolation then Some (Inl (Errno err))
          else if timeout \<noteq> 0 \<and> since i > timeout - DefaultFlockRetry then Some (Inl WinTimeout)
          else Flock_windows_loop procs since timeout fd (Suc i))"

definition Flock_windows ::
  "(nat \<Rightarrow> lock_proc) \<Rightarrow> (nat \<Rightarrow> int) \<Rightarrow> uintptr option \<Rightarrow> int \<Rightarrow> (win_error, unit) result option" where
  "Flock_windows procs since file timeout = Flock_windows_loop procs since timeout (Fd file) 0"

definition Funlock_windows :: "unlock_proc \<Rightarrow> uintptr option \<Rightarrow> uintptr option" where
  "Funlock_windows procUnlockFileEx file = unlockFileEx procUnlockFileEx (Fd file) 0 1 0 last_byte"

section \<open>Refinement of the lock on unix\<close>

text \<open>The answer of a call as the loop on unix sees it; \<open>msg\<close> gives the text of an error number.\<close>

definition win_answer :: "(uintptr \<Rightarrow> string) \<Rightarrow> lock_proc \<Rightarrow> uintptr \<Rightarrow> flock_answer" where
  "win_answer msg p fd =
     (case lock_attempt p fd of
        None \<Rightarrow> LockOk
      | Some err \<Rightarrow> if err = errLockViolation then WouldBlock else LockErr (msg err))"

fun win_error_text :: "(uintptr \<Rightarrow> string) \<Rightarrow> win_error \<Rightarrow> string" where
  "win_error_text msg (Errno e) = msg e"
| "win_error_text msg WinTimeout = ''timeout''"

definition win_result :: "(uintptr \<Rightarrow> string) \<Rightarrow> (win_error, unit) result \<Rightarrow> (string, unit) result" where
  "win_result msg = map_sum (win_error_text msg) id"

lemma Flock_windows_sound:
  assumes "Flock_windows_loop procs since timeout fd i = Some r"
  shows "Flock_loop (\<lambda>i. win_answer msg (procs i) fd) since timeout i = Some (win_result msg r)"
  using assms
proof (rule Flock_windows_loop.raw_induct
    [of "\<lambda>p c t fd i r. Flock_loop (\<lambda>i. win_answer msg (p i) fd) c t i = Some (win_result msg r)", rotated])
  fix f p c t fd i r
  assume IH: "\<And>p c t fd i r. f p c t fd i = Some r \<Longrightarrow>
      Flock_loop (\<lambda>i. win_answer msg (p i) fd) c t i = Some (win_result msg r)"
    and step: "(case lock_attempt (p i) fd of None \<Rightarrow> Some (Inr ())
      | Some err \<Rightarrow> if err \<noteq> errLockViolation then Some (Inl (Errno err))
          else if t \<noteq> 0 \<and> t - DefaultFlockRetry < c i then Some (Inl WinTimeout) else f p c t fd (Suc i)) = Some r"
  show "Flock_loop (\<lambda>i. win_answer msg (p i) fd) c t i = Some (win_result msg r)"
    using step IH [of p c t fd "Suc i" r]
    by (subst Flock_loop.simps) (auto simp: win_answer_def win_result_def split: option.splits if_splits)
qed

lemma Flock_windows_complete:
  assumes "Flock_loop (\<lambda>i. win_answer msg (procs i) fd) since timeout i = Some r"
  shows "Flock_windows_loop procs since timeout fd i \<noteq> None"
proof -
  have "(\<forall>j. s j = win_answer msg (procs j) fd) \<longrightarrow> Flock_windows_loop procs c t fd i \<noteq> None"
    if "Flock_loop s c t i = Some r" for s c t i
    using that
  proof (rule Flock_loop.raw_induct
      [of "\<lambda>s c t i r. (\<forall>j. s j = win_answer msg (procs j) fd) \<longrightarrow> Flock_windows_loop procs c t fd i \<noteq> None", rotated])
    fix f s c t i r
    assume IH: "\<And>s c t i r. f s c t i = Some r \<Longrightarrow>
        (\<forall>j. s j = win_answer msg (procs j) fd) \<longrightarrow> Flock_windows_loop procs c t fd i \<noteq> None"
      and step: "(case s i of LockOk \<Rightarrow> Some (Inr ())
        | WouldBlock \<Rightarrow> if t \<noteq> 0 \<and> t - DefaultFlockRetry < c i then Some (Inl ''timeout'') else f s c t (Suc i)
        | LockErr e \<Rightarrow> Some (Inl e)) = Some r"
    show "(\<forall>j. s j = win_answer msg (procs j) fd) \<longrightarrow> Flock_windows_loop procs c t fd i \<noteq> None"
    proof
      assume s: "\<forall>j. s j = win_answer msg (procs j) fd"
      then have "s i = win_answer msg (procs i) fd" by blast
      with step IH [of s c t "Suc i" r] s show "Flock_windows_loop procs c t fd i \<noteq> None"
        by (subst Flock_windows_loop.simps) (auto simp: win_answer_def split: option.splits if_splits)
    qed
  qed
  with assms show ?thesis by blast
qed

text \<open>
  C15. The lock on Windows refines the lock on unix. Whatever the procedures answer and the clock shows, \<^verbatim>\<open>Flock\<close> on Windows
  returns exactly when the loop on unix does on the translated answers (a lock violation for \<^verbatim>\<open>EWOULDBLOCK\<close>), and with
  the same outcome: the lock, the error of the call, or the timeout.
\<close>

theorem Flock_windows_refines:
  "map_option (win_result msg) (Flock_windows procs since file timeout) =
     Flock (\<lambda>i. win_answer msg (procs i) (Fd file)) since timeout"
proof (cases "Flock_windows_loop procs since timeout (Fd file) 0")
  case None
  then have "Flock_loop (\<lambda>i. win_answer msg (procs i) (Fd file)) since timeout 0 = None"
    using Flock_windows_complete by (metis not_None_eq)
  with None show ?thesis by (simp add: Flock_windows_def Flock_def)
next
  case (Some r)
  then show ?thesis using Flock_windows_sound [OF Some, of msg] by (simp add: Flock_windows_def Flock_def)
qed

text \<open>The termination of the loop on unix carries over: with a timeout the call returns.\<close>

lemma Flock_windows_returns:
  assumes "timeout \<noteq> 0" and "\<And>i. int i * DefaultFlockRetry \<le> since i"
  shows "\<exists>r. Flock_windows procs since file timeout = Some r"
proof -
  obtain n where "flock_stops (\<lambda>i. win_answer (\<lambda>_. []) (procs i) (Fd file)) since timeout n"
    using flock_expires [OF assms] by (auto simp: flock_stops_def)
  then have "Flock (\<lambda>i. win_answer (\<lambda>_. []) (procs i) (Fd file)) since timeout \<noteq> None"
    using Flock_returns by blast
  then show ?thesis
    unfolding Flock_windows_def Flock_def using Flock_windows_sound Flock_windows_complete
    by (metis not_None_eq)
qed

text \<open>A nil file reaches the system as an invalid handle; on unix it is refused before the call.\<close>

lemma Funlock_nil:
  "Funlock_windows p None = unlockFileEx p (- 1) 0 1 0 last_byte"
  "Funlock u None = Some ''file does not exist''"
  by (simp_all add: Funlock_windows_def Fd_def Funlock_def)

end
