(* ===== verification/Utils_Validate.thy ===== *)
theory Utils_Validate
  imports Baetyl_Prelude
begin

text \<open>
  The validators of package \<^verbatim>\<open>utils\<close>: \<^verbatim>\<open>utils/validate.go\<close>. Patterns are terms of a small type of regular expressions with an
  executable matcher by derivatives; the validator library that calls the registered functions is
  not modelled.
\<close>

section \<open>Anchored patterns\<close>

text \<open>A class is a list of ranges; \<open>Upto n r\<close> is \<open>r{0,n}\<close>. All patterns of the sources are anchored at both ends.\<close>

datatype re = RNone | REmpty | Cls "(char \<times> char) list" | Seq re re | Alt re re | Many re | Upto nat re

definition in_cls :: "(char \<times> char) list \<Rightarrow> char \<Rightarrow> bool" where
  "in_cls rs c = list_ex (\<lambda>(a, b). (of_char a :: nat) \<le> of_char c \<and> (of_char c :: nat) \<le> of_char b) rs"

fun nullable :: "re \<Rightarrow> bool" where
  "nullable RNone = False"
| "nullable REmpty = True"
| "nullable (Cls rs) = False"
| "nullable (Seq r s) = (nullable r \<and> nullable s)"
| "nullable (Alt r s) = (nullable r \<or> nullable s)"
| "nullable (Many r) = True"
| "nullable (Upto n r) = True"

fun deriv :: "char \<Rightarrow> re \<Rightarrow> re" where
  "deriv c RNone = RNone"
| "deriv c REmpty = RNone"
| "deriv c (Cls rs) = (if in_cls rs c then REmpty else RNone)"
| "deriv c (Seq r s) = (if nullable r then Alt (Seq (deriv c r) s) (deriv c s) else Seq (deriv c r) s)"
| "deriv c (Alt r s) = Alt (deriv c r) (deriv c s)"
| "deriv c (Many r) = Seq (deriv c r) (Many r)"
| "deriv c (Upto n r) = (case n of 0 \<Rightarrow> RNone | Suc m \<Rightarrow> Seq (deriv c r) (Upto m r))"

definition MatchString :: "re \<Rightarrow> string \<Rightarrow> bool" where
  "MatchString r s = nullable (foldl (\<lambda>r c. deriv c r) r s)"

text \<open>What a pattern means.\<close>

inductive matches :: "re \<Rightarrow> string \<Rightarrow> bool" where
  m_empty: "matches REmpty []"
| m_cls: "in_cls rs c \<Longrightarrow> matches (Cls rs) [c]"
| m_seq: "matches r u \<Longrightarrow> matches s v \<Longrightarrow> matches (Seq r s) (u @ v)"
| m_alt1: "matches r u \<Longrightarrow> matches (Alt r s) u"
| m_alt2: "matches s u \<Longrightarrow> matches (Alt r s) u"
| m_many0: "matches (Many r) []"
| m_many: "matches r u \<Longrightarrow> matches (Many r) v \<Longrightarrow> matches (Many r) (u @ v)"
| m_upto0: "matches (Upto n r) []"
| m_upto: "matches r u \<Longrightarrow> matches (Upto n r) v \<Longrightarrow> matches (Upto (Suc n) r) (u @ v)"

inductive_cases m_noneE [elim!]: "matches RNone u"
inductive_cases m_emptyE [elim!]: "matches REmpty u"
inductive_cases m_clsE [elim!]: "matches (Cls rs) u"
inductive_cases m_seqE: "matches (Seq r s) u"
inductive_cases m_altE: "matches (Alt r s) u"
inductive_cases m_manyE: "matches (Many r) u"
inductive_cases m_uptoE: "matches (Upto n r) u"

lemma matches_seq: "matches (Seq r s) w \<longleftrightarrow> (\<exists>u v. w = u @ v \<and> matches r u \<and> matches s v)"
  by (blast elim: m_seqE intro: m_seq)

lemma matches_alt: "matches (Alt r s) w \<longleftrightarrow> matches r w \<or> matches s w"
  by (auto elim: m_altE intro: matches.intros)

lemma matches_empty: "matches REmpty w \<longleftrightarrow> w = []"
  by (auto intro: matches.intros)

lemma matches_cls: "matches (Cls rs) w \<longleftrightarrow> (\<exists>c. w = [c] \<and> in_cls rs c)"
  by (auto intro: matches.intros)

lemma nullable_matches: "nullable r \<longleftrightarrow> matches r []"
  by (induction r) (auto simp: matches_seq matches_alt matches_empty intro: matches.intros)

lemma many_Cons: "matches (Many r) w \<Longrightarrow> w = c # t \<Longrightarrow> \<exists>u v. t = u @ v \<and> matches r (c # u) \<and> matches (Many r) v"
  by (induction "Many r" w arbitrary: c t rule: matches.induct) (auto simp: append_eq_Cons_conv)

lemma upto_Cons:
  "matches (Upto n r) w \<Longrightarrow> w = c # t \<Longrightarrow>
     \<exists>m u v. n = Suc m \<and> t = u @ v \<and> matches r (c # u) \<and> matches (Upto m r) v"
proof (induction "Upto n r" w arbitrary: n c t rule: matches.induct)
  case (m_upto u n v)
  then show ?case
  proof (cases u)
    case Nil
    with m_upto.prems have "v = c # t" by simp
    with m_upto.hyps(4) obtain m u' v' where
      "n = Suc m" "t = u' @ v'" "matches r (c # u')" "matches (Upto m r) v'" by blast
    moreover have "matches (Upto n r) v'"
      using m_upto.hyps(1) Nil \<open>matches (Upto m r) v'\<close> \<open>n = Suc m\<close> matches.m_upto [of r "[]" m v'] by simp
    ultimately show ?thesis by blast
  next
    case (Cons a u')
    with m_upto show ?thesis by auto
  qed
qed simp

lemma deriv_matches: "matches (deriv c r) t \<longleftrightarrow> matches r (c # t)"
proof (induction r arbitrary: t)
  case (Seq r s)
  show ?case
    by (auto simp: matches_seq matches_alt Seq.IH nullable_matches append_eq_Cons_conv Cons_eq_append_conv)
next
  case (Many r)
  show ?case
    using many_Cons [of r "c # t" c t] by (auto simp: matches_seq Many.IH dest: matches.m_many)
next
  case (Upto n r)
  show ?case
    using upto_Cons [of n r "c # t" c t]
    by (cases n) (auto simp: matches_seq Upto.IH dest: matches.m_upto)
qed (auto simp: matches_alt intro: matches.intros)

text \<open>The matcher decides what a pattern means.\<close>

lemma MatchString_matches: "MatchString r s \<longleftrightarrow> matches r s"
proof -
  have "nullable (foldl (\<lambda>r c. deriv c r) r s) \<longleftrightarrow> matches r s" for r
    by (induction s arbitrary: r) (simp_all add: nullable_matches deriv_matches)
  then show ?thesis by (simp add: MatchString_def)
qed

lemma many_cls: "matches (Many (Cls rs)) w \<longleftrightarrow> list_all (in_cls rs) w"
proof
  assume "list_all (in_cls rs) w"
  then show "matches (Many (Cls rs)) w"
    by (induction w) (auto intro: matches.intros dest: matches.m_many [OF m_cls])
qed (induction "Many (Cls rs)" w rule: matches.induct, auto)

lemma upto_cls: "matches (Upto n (Cls rs)) w \<longleftrightarrow> length w \<le> n \<and> list_all (in_cls rs) w"
proof
  assume "length w \<le> n \<and> list_all (in_cls rs) w"
  then show "matches (Upto n (Cls rs)) w"
  proof (induction w arbitrary: n)
    case (Cons c w)
    then show ?case using matches.m_upto [OF m_cls, of rs c _ w] by (cases n) auto
  qed (auto intro: matches.intros)
qed (induction "Upto n (Cls rs)" w arbitrary: n rule: matches.induct, auto)

lemmas re_simps = matches_seq matches_alt matches_empty matches_cls many_cls upto_cls

section \<open>The patterns\<close>

abbreviation one :: "char \<Rightarrow> char \<times> char" where "one c \<equiv> (c, c)"

definition low_alnum :: "(char \<times> char) list" where
  "low_alnum = [(CHR ''a'', CHR ''z''), (CHR ''0'', CHR ''9'')]"

definition alnum :: "(char \<times> char) list" where
  "alnum = [(CHR ''a'', CHR ''z''), (CHR ''A'', CHR ''Z''), (CHR ''0'', CHR ''9'')]"

definition digits :: "(char \<times> char) list" where "digits = [(CHR ''0'', CHR ''9'')]"

definition lit :: "string \<Rightarrow> re" where
  "lit s = foldr (\<lambda>c r. Seq (Cls [one c]) r) s REmpty"

definition alts :: "string list \<Rightarrow> re" where
  "alts ss = foldr (\<lambda>s r. Alt (lit s) r) ss RNone"

definition opt :: "re \<Rightarrow> re" where "opt r = Alt r REmpty"

definition resName :: re where
  "resName = Seq (Cls low_alnum) (Seq (Upto 61 (Cls (low_alnum @ [one CHR ''-'', one CHR ''.'']))) (Cls low_alnum))"

definition svcName :: re where
  "svcName = Seq (Cls low_alnum) (Seq (Upto 61 (Cls (low_alnum @ [one CHR ''-'']))) (Cls low_alnum))"

definition fingerprint :: re where
  "fingerprint = Seq (Cls alnum) (Seq (Upto 61 (Cls (alnum @ [one CHR ''-'', one CHR ''.'']))) (Cls alnum))"

definition memory :: re where
  "memory = Seq (Cls [(CHR ''1'', CHR ''9'')]) (Seq (Many (Cls digits)) (alts [''k'', ''m'', ''g'', ''t'', ''p'', []]))"

definition duration :: re where
  "duration = Seq (Cls [(CHR ''1'', CHR ''9'')]) (Seq (Many (Cls digits)) (alts [''s'', ''m'', ''h'']))"

definition devModel :: re where
  "devModel = Seq (Cls (alnum @ [one CHR ''-'', one CHR ''_''])) (Upto 31 (Cls (alnum @ [one CHR ''-'', one CHR ''_''])))"

definition namespace_label :: re where
  "namespace_label = Seq (Cls low_alnum) (opt (Seq (Many (Cls (one CHR ''-'' # low_alnum))) (Cls low_alnum)))"

definition namespace :: re where
  "namespace = Seq namespace_label (Many namespace_label)"

definition validConfigKeys :: re where
  "validConfigKeys = Seq (Cls (alnum @ [one CHR ''-'', one CHR ''.'', one CHR ''_'']))
     (Many (Cls (alnum @ [one CHR ''-'', one CHR ''.'', one CHR ''_''])))"

definition dateType :: re where
  "dateType = opt (alts [''int16'', ''int32'', ''int64'', ''float32'', ''float64'', ''string'', ''bool'', ''time'', ''date''])"

definition dateEnumType :: re where
  "dateEnumType = opt (alts [''int16'', ''int32'', ''int64'', ''string''])"

definition datePlusType :: re where
  "datePlusType = opt (alts [''int16'', ''int32'', ''int64'', ''float32'', ''float64'', ''string'', ''time'', ''date'', ''bool'',
     ''array'', ''enum'', ''object''])"

definition regexps :: "(string \<times> re) list" where
  "regexps = [(''res_name'', resName), (''svc_name'', svcName), (''fingerprint'', fingerprint), (''memory'', memory),
     (''duration'', duration), (''dev_model'', devModel), (''namespace'', namespace), (''config_key'', validConfigKeys),
     (''data_type'', dateType), (''enum_type'', dateEnumType), (''data_plus_type'', datePlusType)]"

section \<open>Fields\<close>

text \<open>
  The values of a field by kind, as far as the validators look: the length of a collection, whether a pointer is nil,
  whether a number is zero. \<open>text\<close> is what \<^verbatim>\<open>String()\<close> of a reflected value gives for
  another kind than a string, \<^verbatim>\<open><T Value>\<close>.
\<close>

datatype field =
    FString string
  | FLabels "(string \<times> string) list"
  | FPtr bool
  | FColl nat
  | FInt int
  | FUint nat
  | FFloatZero bool
  | FBool bool
  | FInvalid
  | FStruct
  | FOther

definition field_String :: "field \<Rightarrow> string" where
  "field_String f = (case f of FString s \<Rightarrow> s | _ \<Rightarrow> ''<T Value>'')"

definition nonzeroValid :: "field \<Rightarrow> bool" where
  "nonzeroValid f =
     (case f of
        FString s \<Rightarrow> s \<noteq> []
      | FPtr nil \<Rightarrow> \<not> nil
      | FLabels m \<Rightarrow> m \<noteq> []
      | FColl n \<Rightarrow> n \<noteq> 0
      | FInt i \<Rightarrow> i \<noteq> 0
      | FUint n \<Rightarrow> n \<noteq> 0
      | FFloatZero z \<Rightarrow> \<not> z
      | FBool b \<Rightarrow> b
      | FInvalid \<Rightarrow> False
      | FStruct \<Rightarrow> True
      | FOther \<Rightarrow> False)"

definition nonnilValid :: "field \<Rightarrow> bool" where
  "nonnilValid f = (case f of FPtr nil \<Rightarrow> \<not> nil | FInvalid \<Rightarrow> False | _ \<Rightarrow> True)"

definition nonbaetylValid :: "field \<Rightarrow> bool" where
  "nonbaetylValid f = (\<not> strings_Contains (strings_ToLower (field_String f)) ''baetyl'')"

definition label_chars :: "(char \<times> char) list" where
  "label_chars = alnum @ [one CHR ''-'', one CHR ''_'', one CHR ''.'']"

definition labelRegex :: re where
  "labelRegex = Seq (opt (Seq (Cls alnum) (Many (Cls label_chars)))) (opt (Cls alnum))"

definition validLabel :: "string \<Rightarrow> string \<Rightarrow> bool" where
  "validLabel k v =
     ((if strings_Contains k ''/''
       then (case strings_Split CHR ''/'' k of
               [p, n] \<Rightarrow> \<not> (length p > 253 \<or> length p < 1 \<or> \<not> MatchString labelRegex p \<or>
                           length n > 63 \<or> \<not> MatchString labelRegex n)
             | _ \<Rightarrow> False)
       else \<not> (length k > 63 \<or> \<not> MatchString labelRegex k)) \<and>
      \<not> (length v > 63 \<or> \<not> MatchString labelRegex v))"

definition validLabelsFunc :: "field \<Rightarrow> bool" where
  "validLabelsFunc f = (case f of FLabels labels \<Rightarrow> list_all (\<lambda>(k, v). validLabel k v) labels | _ \<Rightarrow> False)"

text \<open>\<^verbatim>\<open>RegisterValidate\<close>: the functions under their names.\<close>

definition RegisterValidate :: "(string \<times> (field \<Rightarrow> bool)) list" where
  "RegisterValidate =
     map (\<lambda>(key, val). (key, \<lambda>f. MatchString val (field_String f))) regexps @
     [(''nonzero'', nonzeroValid), (''nonnil'', nonnilValid), (''nonbaetyl'', nonbaetylValid), (''label'', validLabelsFunc)]"

section \<open>What the validators accept\<close>

text \<open>The shape of names: a character, up to \<open>n\<close> inner characters and a last one.\<close>

lemma name_pattern:
  assumes "\<And>c. in_cls edge c \<Longrightarrow> in_cls inner c"
  shows "matches (Seq (Cls edge) (Seq (Upto n (Cls inner)) (Cls edge))) s \<longleftrightarrow>
    2 \<le> length s \<and> length s \<le> n + 2 \<and> in_cls edge (hd s) \<and> in_cls edge (last s) \<and> list_all (in_cls inner) s"
proof
  assume "matches (Seq (Cls edge) (Seq (Upto n (Cls inner)) (Cls edge))) s"
  then show "2 \<le> length s \<and> length s \<le> n + 2 \<and> in_cls edge (hd s) \<and> in_cls edge (last s) \<and> list_all (in_cls inner) s"
    using assms by (auto simp: re_simps)
next
  assume s: "2 \<le> length s \<and> length s \<le> n + 2 \<and> in_cls edge (hd s) \<and> in_cls edge (last s) \<and> list_all (in_cls inner) s"
  then obtain c t where t: "s = c # t" "t \<noteq> []" by (cases s) (auto simp: Suc_le_eq)
  then have "s = [c] @ butlast t @ [last t]" by simp
  moreover have "list_all (in_cls inner) (butlast t)" using s t by (auto simp: list_all_iff dest: in_set_butlastD)
  ultimately show "matches (Seq (Cls edge) (Seq (Upto n (Cls inner)) (Cls edge))) s"
    unfolding re_simps using s t by (metis (no_types, lifting) diff_Suc_1 last_ConsR length_Cons length_butlast list.sel(1) add_2_eq_Suc' Suc_le_mono le_diff_conv add.commute plus_1_eq_Suc)
qed

definition is_low_alnum :: "char \<Rightarrow> bool" where "is_low_alnum = in_cls low_alnum"

text \<open>
  The names of resources and services: from 2 to 63 characters, lower case letters and digits at both ends, between them also
  hyphens and, for resources, dots. Names of one character are refused.
\<close>

lemma res_name_accepted:
  "MatchString resName s \<longleftrightarrow> 2 \<le> length s \<and> length s \<le> 63 \<and> is_low_alnum (hd s) \<and> is_low_alnum (last s) \<and>
     (\<forall>c \<in> set s. is_low_alnum c \<or> c = CHR ''-'' \<or> c = CHR ''.'')"
  "MatchString svcName s \<longleftrightarrow> 2 \<le> length s \<and> length s \<le> 63 \<and> is_low_alnum (hd s) \<and> is_low_alnum (last s) \<and>
     (\<forall>c \<in> set s. is_low_alnum c \<or> c = CHR ''-'')"
proof -
  have one: "(of_char a :: nat) \<le> of_char c \<and> (of_char c :: nat) \<le> of_char a \<longleftrightarrow> c = a" for a c :: char
    by (metis antisym of_char_eq_iff order_refl)
  have r: "in_cls (low_alnum @ [one CHR ''-'', one CHR ''.'']) c \<longleftrightarrow> is_low_alnum c \<or> c = CHR ''-'' \<or> c = CHR ''.''"
    "in_cls (low_alnum @ [one CHR ''-'']) c \<longleftrightarrow> is_low_alnum c \<or> c = CHR ''-''" for c
    using one [of "CHR ''-''" c] one [of "CHR ''.''" c] by (auto simp: is_low_alnum_def in_cls_def simp del: of_char_eq_iff)
  show "MatchString resName s \<longleftrightarrow> 2 \<le> length s \<and> length s \<le> 63 \<and> is_low_alnum (hd s) \<and> is_low_alnum (last s) \<and>
     (\<forall>c \<in> set s. is_low_alnum c \<or> c = CHR ''-'' \<or> c = CHR ''.'')"
    unfolding MatchString_matches resName_def
    by (subst name_pattern) (auto simp: r list_all_iff is_low_alnum_def [symmetric])
  show "MatchString svcName s \<longleftrightarrow> 2 \<le> length s \<and> length s \<le> 63 \<and> is_low_alnum (hd s) \<and> is_low_alnum (last s) \<and>
     (\<forall>c \<in> set s. is_low_alnum c \<or> c = CHR ''-'')"
    unfolding MatchString_matches svcName_def
    by (subst name_pattern) (auto simp: r list_all_iff is_low_alnum_def [symmetric])
qed

lemma namespace_accepted:
  "MatchString namespace s \<longleftrightarrow> s \<noteq> [] \<and> is_low_alnum (hd s) \<and> is_low_alnum (last s) \<and>
     list_all (in_cls (one CHR ''-'' # low_alnum)) s"
proof -
  let ?in = "in_cls (one CHR ''-'' # low_alnum)"
  have sub: "in_cls low_alnum c \<Longrightarrow> ?in c" for c by (simp add: in_cls_def)
  have label: "matches namespace_label w \<longleftrightarrow> w \<noteq> [] \<and> in_cls low_alnum (hd w) \<and> in_cls low_alnum (last w) \<and> list_all ?in w" for w
  proof
    assume "matches namespace_label w"
    then show "w \<noteq> [] \<and> in_cls low_alnum (hd w) \<and> in_cls low_alnum (last w) \<and> list_all ?in w"
      using sub by (auto simp: namespace_label_def opt_def re_simps)
  next
    assume w: "w \<noteq> [] \<and> in_cls low_alnum (hd w) \<and> in_cls low_alnum (last w) \<and> list_all ?in w"
    then obtain c t where t: "w = c # t" by (cases w) auto
    show "matches namespace_label w"
    proof (cases "t = []")
      case True
      then show ?thesis using w t by (auto simp: namespace_label_def opt_def re_simps)
    next
      case False
      then have "w = [c] @ butlast t @ [last t]" "list_all ?in (butlast t)"
        using w t by (auto simp: list_all_iff dest: in_set_butlastD)
      with False w t show ?thesis unfolding namespace_label_def opt_def re_simps by (metis last_ConsR list.sel(1))
    qed
  qed
  have many: "matches (Many namespace_label) w \<Longrightarrow> list_all ?in w \<and> (w \<noteq> [] \<longrightarrow> in_cls low_alnum (last w))" for w
    by (induction "Many namespace_label" w rule: matches.induct) (auto simp: label last_append split: if_splits)
  have "matches namespace s \<longleftrightarrow> matches namespace_label s"
  proof
    assume "matches namespace s"
    then obtain w v where "s = w @ v" "matches namespace_label w" "matches (Many namespace_label) v"
      by (auto simp: namespace_def matches_seq)
    then show "matches namespace_label s" using many [of v] by (auto simp: label last_append)
  next
    assume "matches namespace_label s"
    then show "matches namespace s"
      using m_seq [OF _ m_many0, of namespace_label s namespace_label] by (simp add: namespace_def)
  qed
  then show ?thesis by (simp add: MatchString_matches label is_low_alnum_def)
qed

definition label_text :: "string \<Rightarrow> bool" where
  "label_text s \<longleftrightarrow> s = [] \<or> in_cls alnum (hd s) \<and> list_all (in_cls label_chars) s"

lemma labelRegex_accepts: "MatchString labelRegex s \<longleftrightarrow> label_text s"
proof -
  have sub: "in_cls alnum c \<Longrightarrow> in_cls label_chars c" for c by (simp add: in_cls_def label_chars_def)
  have "matches labelRegex s \<longleftrightarrow> label_text s"
  proof
    assume "matches labelRegex s"
    then show "label_text s"
      using sub by (auto simp: labelRegex_def opt_def re_simps label_text_def)
  next
    assume s: "label_text s"
    show "matches labelRegex s"
    proof (cases s)
      case Nil
      then show ?thesis by (simp add: labelRegex_def opt_def re_simps)
    next
      case (Cons c t)
      with s have "s = ([c] @ t) @ []" "in_cls alnum c" "list_all (in_cls label_chars) t" by (simp_all add: label_text_def)
      then show ?thesis unfolding labelRegex_def opt_def re_simps by blast
    qed
  qed
  then show ?thesis by (simp add: MatchString_matches)
qed


end
