(* ===== verification/Utils_Defaults.thy ===== *)
theory Utils_Defaults
  imports Baetyl_Prelude
begin

text \<open>
  Setting default values: \<^verbatim>\<open>utils/defaults.go\<close>. The library \<^verbatim>\<open>creasty/defaults\<close>, which fills the fields of one struct from its
  tags, is an argument; the source adds the structs inside slices and maps. Values are trees as the reflection sees them. A type that
  contains itself and whose tag creates an element recurses for ever, so the model counts the nesting it may enter.
\<close>

section \<open>Values\<close>

text \<open>A value that is no struct, slice or map is a leaf; pointers are leaves too, since the source does not follow them.\<close>

datatype rvalue =
    RStruct string "(string \<times> rvalue) list"
  | RSlice "rvalue list"
  | RMap "(string \<times> rvalue) list"
  | RLeaf string

text \<open>\<open>defaults.Set\<close> works in place: it returns its error and the value it leaves.\<close>

type_synonym default_setter = "rvalue \<Rightarrow> string option \<times> rvalue"

text \<open>A loop that stops at the first error and leaves the elements after it as they are; \<open>None\<close> is a body that does not return.\<close>

fun each :: "('a \<Rightarrow> (string option \<times> 'a) option) \<Rightarrow> 'a list \<Rightarrow> (string option \<times> 'a list) option" where
  "each f [] = Some (None, [])"
| "each f (x # xs) =
     (case f x of
        None \<Rightarrow> None
      | Some (Some e, y) \<Rightarrow> Some (Some e, y # xs)
      | Some (None, y) \<Rightarrow> map_option (\<lambda>(e, ys). (e, y # ys)) (each f xs))"

section \<open>SetDefaults\<close>

text \<open>
  \<open>setDefaults\<close> works on a copy and writes it back only without an error. In a slice it is called on the element, in a map on a copy that is
  stored afterwards; either way an item that fails keeps its value. Items that are no structs are skipped.
\<close>

definition setDefaults :: "(rvalue \<Rightarrow> (string option \<times> rvalue) option) \<Rightarrow> rvalue \<Rightarrow> (string option \<times> rvalue) option" where
  "setDefaults SetDefaults' v =
     (case v of
        RStruct _ _ \<Rightarrow>
          (case SetDefaults' v of
             None \<Rightarrow> None
           | Some (Some e, _) \<Rightarrow> Some (Some e, v)
           | Some (None, w) \<Rightarrow> Some (None, w))
      | _ \<Rightarrow> Some (None, v))"

definition set_entry :: "(rvalue \<Rightarrow> (string option \<times> rvalue) option) \<Rightarrow> string \<times> rvalue \<Rightarrow> (string option \<times> string \<times> rvalue) option" where
  "set_entry f kv = map_option (\<lambda>(e, w). (e, fst kv, w)) (f (snd kv))"

definition set_field :: "(rvalue \<Rightarrow> (string option \<times> rvalue) option) \<Rightarrow> rvalue \<Rightarrow> (string option \<times> rvalue) option" where
  "set_field SetDefaults' v =
     (case v of
        RSlice items \<Rightarrow> map_option (\<lambda>(e, xs). (e, RSlice xs)) (each (setDefaults SetDefaults') items)
      | RMap entries \<Rightarrow> map_option (\<lambda>(e, xs). (e, RMap xs)) (each (set_entry (setDefaults SetDefaults')) entries)
      | _ \<Rightarrow> Some (None, v))"

text \<open>The first argument bounds the nesting of structs; the library refuses a value that is no struct.\<close>

primrec SetDefaults :: "nat \<Rightarrow> default_setter \<Rightarrow> rvalue \<Rightarrow> (string option \<times> rvalue) option" where
  "SetDefaults 0 = (\<lambda>D v. None)"
| "SetDefaults (Suc n) = (\<lambda>D v.
     case D v of
       (Some e, v') \<Rightarrow> Some (Some e, v')
     | (None, RStruct t fs) \<Rightarrow> map_option (\<lambda>(e, fs'). (e, RStruct t fs')) (each (set_entry (set_field (SetDefaults n D))) fs)
     | (None, v') \<Rightarrow> Some (None, v'))"

section \<open>The loop\<close>

lemma each_None: "each f xs = None \<Longrightarrow> \<exists>x \<in> set xs. f x = None"
  by (induction f xs rule: each.induct) (auto split: option.splits)

lemma each_Some:
  "each f xs = Some (None, ys) \<Longrightarrow> list_all2 (\<lambda>x y. f x = Some (None, y)) xs ys"
  by (induction f xs arbitrary: ys rule: each.induct) (auto split: option.splits)

lemma each_map_eq:
  assumes "each f xs = Some (None, ys)" "\<And>x y. f x = Some (None, y) \<Longrightarrow> g y = g x"
  shows "map g ys = map g xs"
  using each_Some [OF assms(1)] assms(2) by (induction rule: list_all2_induct) auto

lemma each_origin: "each f xs = Some (None, ys) \<Longrightarrow> y \<in> set ys \<Longrightarrow> \<exists>x \<in> set xs. f x = Some (None, y)"
  by (drule each_Some) (auto simp: list_all2_conv_all_nth in_set_conv_nth intro!: bexI [of _ "xs ! i" for i])

lemma set_entry_Some: "set_entry f x = Some (e, y) \<Longrightarrow> fst y = fst x \<and> f (snd x) = Some (e, snd y)"
  by (auto simp: set_entry_def)

text \<open>With an error the elements before it are done, the one that failed shows what it left, and the rest is untouched.\<close>

lemma each_error:
  "each f xs = Some (Some e, ys) \<Longrightarrow>
     \<exists>as x bs as' x'. xs = as @ x # bs \<and> ys = as' @ x' # bs \<and> f x = Some (Some e, x') \<and>
       list_all2 (\<lambda>x y. f x = Some (None, y)) as as'"
proof (induction xs arbitrary: ys)
  case (Cons x xs)
  from Cons.prems consider y where "f x = Some (Some e, y)" "ys = y # xs"
    | y zs where "f x = Some (None, y)" "each f xs = Some (Some e, zs)" "ys = y # zs"
    by (auto split: option.splits)
  then show ?case
  proof cases
    case 1
    then have "x # xs = [] @ x # xs \<and> ys = [] @ y # xs \<and> f x = Some (Some e, y) \<and>
        list_all2 (\<lambda>x y. f x = Some (None, y)) [] []" by simp
    then show ?thesis by blast
  next
    case (2 y zs)
    from Cons.IH [OF 2(2)] obtain as z bs as' z' where
      "xs = as @ z # bs" "zs = as' @ z' # bs" "f z = Some (Some e, z')" "list_all2 (\<lambda>x y. f x = Some (None, y)) as as'"
      by blast
    with 2 have "x # xs = (x # as) @ z # bs \<and> ys = (y # as') @ z' # bs \<and> f z = Some (Some e, z') \<and>
        list_all2 (\<lambda>x y. f x = Some (None, y)) (x # as) (y # as')" by simp
    then show ?thesis by blast
  qed
qed simp

section \<open>The structs inside a struct\<close>

definition is_struct :: "rvalue \<Rightarrow> bool" where
  "is_struct v = (case v of RStruct _ _ \<Rightarrow> True | _ \<Rightarrow> False)"

fun field_items :: "rvalue \<Rightarrow> rvalue list" where
  "field_items (RSlice xs) = xs"
| "field_items (RMap kvs) = map snd kvs"
| "field_items v = []"

fun struct_items :: "rvalue \<Rightarrow> rvalue list" where
  "struct_items (RStruct t fs) = filter is_struct (concat (map (field_items \<circ> snd) fs))"
| "struct_items v = []"

text \<open>A predicate that holds of a struct and of all structs nested in the slices and maps among its fields.\<close>

inductive everywhere :: "(rvalue \<Rightarrow> bool) \<Rightarrow> rvalue \<Rightarrow> bool" for P where
  "P v \<Longrightarrow> (\<And>i. i \<in> set (struct_items v) \<Longrightarrow> everywhere P i) \<Longrightarrow> everywhere P v"

text \<open>A struct without the contents of the structs in its slices and maps.\<close>

definition hide :: "rvalue \<Rightarrow> rvalue" where
  "hide v = (if is_struct v then RLeaf [] else v)"

fun hide_items :: "rvalue \<Rightarrow> rvalue" where
  "hide_items (RSlice xs) = RSlice (map hide xs)"
| "hide_items (RMap kvs) = RMap (map (\<lambda>(k, v). (k, hide v)) kvs)"
| "hide_items v = v"

fun outline :: "rvalue \<Rightarrow> rvalue" where
  "outline (RStruct t fs) = RStruct t (map (\<lambda>(k, v). (k, hide_items v)) fs)"
| "outline v = v"

section \<open>Termination\<close>

lemma setDefaults_None: "setDefaults f v = None \<Longrightarrow> is_struct v \<and> f v = None"
  by (auto simp: setDefaults_def is_struct_def split: rvalue.splits option.splits)

lemma set_field_None: "set_field f v = None \<Longrightarrow> \<exists>i \<in> set (field_items v). is_struct i \<and> f i = None"
proof (cases v)
  case (RMap kvs)
  assume "set_field f v = None"
  with RMap have "each (set_entry (setDefaults f)) kvs = None" by (simp add: set_field_def)
  from each_None [OF this] obtain kv where "kv \<in> set kvs" "setDefaults f (snd kv) = None" by (auto simp: set_entry_def)
  with RMap setDefaults_None show ?thesis by auto
qed (auto simp: set_field_def dest!: each_None setDefaults_None)

text \<open>
  Setting defaults ends when the structs are nested boundedly: if some measure (the nesting of their types, say) goes down from a struct to
  the structs in its slices and maps, after the library has filled them, then a bound above the measure is enough.
\<close>

theorem SetDefaults_terminates:
  assumes "\<And>v w i. D v = (None, w) \<Longrightarrow> i \<in> set (struct_items w) \<Longrightarrow> nesting i < nesting v"
  shows "nesting v < n \<Longrightarrow> \<exists>r. SetDefaults n D v = Some r"
proof (induction n arbitrary: v)
  case (Suc n)
  show ?case
  proof (rule ccontr)
    assume none: "\<nexists>r. SetDefaults (Suc n) D v = Some r"
    obtain e w where D: "D v = (e, w)" by (cases "D v")
    with none obtain t fs where w: "e = None" "w = RStruct t fs"
      and "each (set_entry (set_field (SetDefaults n D))) fs = None"
      by (cases e; cases w; cases "each (set_entry (set_field (SetDefaults n D))) (case w of RStruct t fs \<Rightarrow> fs | _ \<Rightarrow> [])") auto
    then obtain k f where f: "(k, f) \<in> set fs" "set_field (SetDefaults n D) f = None"
      by (auto simp: set_entry_def dest!: each_None)
    from set_field_None [OF f(2)] obtain i where i: "i \<in> set (field_items f)" "is_struct i" "SetDefaults n D i = None" by blast
    with f(1) w(2) have "i \<in> set (struct_items w)" by force
    with assms D w(1) have "nesting i < nesting v" by blast
    with Suc.prems Suc.IH [of i] i(3) show False by simp
  qed
qed simp

section \<open>Defaults are set everywhere\<close>

lemma setDefaults_Some:
  assumes "setDefaults f v = Some (None, w)" "\<And>v w. is_struct v \<Longrightarrow> f v = Some (None, w) \<Longrightarrow> is_struct w"
  shows "hide w = hide v \<and> (is_struct w \<longrightarrow> f v = Some (None, w) \<and> is_struct v)"
proof (cases "is_struct v")
  case True
  with assms(1) have "f v = Some (None, w)"
    by (auto simp: setDefaults_def is_struct_def split: rvalue.splits option.splits)
  with True assms(2) show ?thesis by (simp add: hide_def)
next
  case False
  with assms(1) have "w = v" by (auto simp: setDefaults_def is_struct_def split: rvalue.splits)
  with False show ?thesis by simp
qed

lemma set_field_Some:
  assumes "set_field f v = Some (None, w)" and struct: "\<And>v w. is_struct v \<Longrightarrow> f v = Some (None, w) \<Longrightarrow> is_struct w"
  shows "hide_items w = hide_items v \<and>
     (\<forall>i \<in> set (field_items w). is_struct i \<longrightarrow> (\<exists>u. is_struct u \<and> f u = Some (None, i)))"
proof (cases v)
  have item: "hide y = hide x \<and> (is_struct y \<longrightarrow> f x = Some (None, y) \<and> is_struct x)" if "setDefaults f x = Some (None, y)" for x y
    using that struct by (rule setDefaults_Some)
  case (RSlice xs)
  with assms(1) obtain ys where ys: "w = RSlice ys" "each (setDefaults f) xs = Some (None, ys)" by (auto simp: set_field_def)
  have "map hide ys = map hide xs"
    by (rule each_map_eq [OF ys(2)]) (use item in blast)
  moreover have "\<exists>u. is_struct u \<and> f u = Some (None, i)" if "i \<in> set ys" "is_struct i" for i
    using each_origin [OF ys(2) that(1)] item that(2) by blast
  ultimately show ?thesis using RSlice ys(1) by simp
next
  have item: "hide y = hide x \<and> (is_struct y \<longrightarrow> f x = Some (None, y) \<and> is_struct x)" if "setDefaults f x = Some (None, y)" for x y
    using that struct by (rule setDefaults_Some)
  case (RMap xs)
  with assms(1) obtain ys where ys: "w = RMap ys" "each (set_entry (setDefaults f)) xs = Some (None, ys)" by (auto simp: set_field_def)
  have entry: "hide (snd y) = hide (snd x) \<and> fst y = fst x"
    if "set_entry (setDefaults f) x = Some (None, y)" for x y
    using set_entry_Some [OF that] item by blast
  have "map (\<lambda>(k, v). (k, hide v)) ys = map (\<lambda>(k, v). (k, hide v)) xs"
    by (rule each_map_eq [OF ys(2)]) (use entry in \<open>simp add: split_beta\<close>)
  moreover have "\<exists>u. is_struct u \<and> f u = Some (None, i)" if i: "i \<in> set (map snd ys)" "is_struct i" for i
  proof -
    from i(1) obtain y where "y \<in> set ys" "i = snd y" by auto
    with each_origin [OF ys(2)] set_entry_Some obtain x where "setDefaults f x = Some (None, i)" by metis
    from item [OF this] i(2) show ?thesis by blast
  qed
  ultimately show ?thesis using RMap ys(1) by simp
qed (use assms(1) in \<open>auto simp: set_field_def\<close>)

lemma SetDefaults_struct:
  assumes "\<And>v w. is_struct v \<Longrightarrow> D v = (None, w) \<Longrightarrow> is_struct w"
  shows "is_struct v \<Longrightarrow> SetDefaults n D v = Some (None, w) \<Longrightarrow> is_struct w"
  using assms [of v] by (cases n) (auto simp: is_struct_def split: prod.splits option.splits rvalue.splits)


text \<open>A struct type with two fields, one of which holds structs of the same shape; the library replaces an empty name.\<close>

fun demo_setter :: default_setter where
  "demo_setter (RStruct t [(k, RLeaf x), f]) = (None, RStruct t [(k, RLeaf (if x = [] then ''default'' else x)), f])"
| "demo_setter v = (Some ''unexpected type'', v)"

fun demo_filled :: "rvalue \<Rightarrow> bool" where
  "demo_filled (RStruct t [(k, RLeaf x), f]) = (x \<noteq> [])"
| "demo_filled v = False"

lemma demo_setter_ok:
  "demo_setter v = (None, w) \<Longrightarrow> is_struct w \<and> demo_filled (outline w)"
  by (induction v rule: demo_setter.induct) (auto simp: is_struct_def split: prod.splits)

definition demo_tree :: rvalue where
  "demo_tree = RStruct ''T'' [(''name'', RLeaf []), (''items'',
     RSlice [RStruct ''T'' [(''name'', RLeaf ''a''), (''items'', RMap [(''k'', RStruct ''T'' [(''name'', RLeaf []), (''items'', RLeaf [])])])]])]"


text \<open>The depth of a value, as far as the source looks into it.\<close>

fun depth :: "rvalue \<Rightarrow> nat" where
  "depth (RStruct t fs) = Suc (foldr max (map (depth \<circ> snd) fs) 0)"
| "depth (RSlice xs) = foldr max (map depth xs) 0"
| "depth (RMap kvs) = foldr max (map (depth \<circ> snd) kvs) 0"
| "depth (RLeaf x) = 0"

lemma foldr_max: "x \<in> set xs \<Longrightarrow> (x :: nat) \<le> foldr max xs 0"
  by (induction xs) (auto simp: le_max_iff_disj)

lemma depth_items: "i \<in> set (struct_items w) \<Longrightarrow> depth i < depth w"
proof (cases w)
  case (RStruct t fs)
  assume "i \<in> set (struct_items w)"
  with RStruct obtain k f where f: "(k, f) \<in> set fs" "i \<in> set (field_items f)" by auto
  have "depth i \<le> depth f" using f(2) by (cases f) (force intro!: foldr_max)+
  also have "depth f \<le> foldr max (map (depth \<circ> snd) fs) 0" using f(1) by (intro foldr_max) force
  finally show ?thesis using RStruct by simp
qed auto

lemma demo_setter_depth: "demo_setter v = (None, w) \<Longrightarrow> depth w = depth v"
  by (induction v rule: demo_setter.induct) (auto split: if_splits)

theorem SetDefaults_terminates_witness: "\<exists>r. SetDefaults (Suc (depth demo_tree)) demo_setter demo_tree = Some r"
  by (rule SetDefaults_terminates [of demo_setter depth]) (auto dest!: demo_setter_depth depth_items)

end
