(* ===== verification/Utils_Config.thy ===== *)
theory Utils_Config
  imports Go_Strconv
begin

text \<open>
  Configuration files, sizes, URLs and paths: \<^verbatim>\<open>utils/config.go\<close>, \<^verbatim>\<open>utils/url.go\<close>, \<^verbatim>\<open>utils/path.go\<close>, and the error values of
  \<^verbatim>\<open>errors/error.go\<close>. The YAML and JSON decoders, the template engine, default values, validation and the size parser of
  \<^verbatim>\<open>go-units\<close> are arguments; the file system is a map from paths to nodes.
\<close>

section \<open>Loading a configuration\<close>

text \<open>
  \<^verbatim>\<open>os.Environ\<close> is a list of texts \<^verbatim>\<open>key=value\<close>. The code takes the second part of \<^verbatim>\<open>Split\<close>; \<open>None\<close> is the panic on a text without an
  equals sign. Later entries override earlier ones.
\<close>

fun env_map :: "string list \<Rightarrow> (string \<rightharpoonup> string) \<Rightarrow> (string \<rightharpoonup> string) option" where
  "env_map [] m = Some m"
| "env_map (s # envs) m =
     (case strings_Split CHR ''='' s of
        k # v # _ \<Rightarrow> env_map envs (m(k \<mapsto> v))
      | _ \<Rightarrow> None)"

definition ParseEnv ::
  "(string \<Rightarrow> (string \<rightharpoonup> string) \<Rightarrow> (string, string) result) \<Rightarrow> string list \<Rightarrow> string \<Rightarrow> (string, string) result option" where
  "ParseEnv template environ data = map_option (template data) (env_map environ Map.empty)"

record 'a decoder =
  dec_Unmarshal :: "string \<Rightarrow> 'a \<Rightarrow> string option \<times> 'a"
  dec_SetDefaults :: "'a \<Rightarrow> string option \<times> 'a"
  dec_Validate :: "'a \<Rightarrow> string option"

definition UnmarshalDefaults :: "'a decoder \<Rightarrow> string \<Rightarrow> 'a \<Rightarrow> string option \<times> 'a" where
  "UnmarshalDefaults d inp out =
     (case dec_Unmarshal d inp out of
        (Some e, out) \<Rightarrow> (Some e, out)
      | (None, out) \<Rightarrow>
          (case dec_SetDefaults d out of
             (Some e, out) \<Rightarrow> (Some e, out)
           | (None, out) \<Rightarrow> (dec_Validate d out, out)))"

definition UnmarshalYAML where "UnmarshalYAML yaml = UnmarshalDefaults yaml"

definition UnmarshalJSON where "UnmarshalJSON json = UnmarshalDefaults json"

definition utils_LoadYAML ::
  "'a decoder \<Rightarrow> (string \<Rightarrow> (string \<rightharpoonup> string) \<Rightarrow> (string, string) result) \<Rightarrow> string list \<Rightarrow>
     (string, string) result \<Rightarrow> 'a \<Rightarrow> (string option \<times> 'a) option" where
  "utils_LoadYAML yaml template environ file out =
     (case file of
        Inl e \<Rightarrow> Some (Some e, out)
      | Inr data \<Rightarrow>
          (case ParseEnv template environ data of
             None \<Rightarrow> None
           | Some (Inl e) \<Rightarrow> Some (UnmarshalYAML yaml data out)
           | Some (Inr res) \<Rightarrow> Some (UnmarshalYAML yaml res out)))"

text \<open>A value with an equals sign in it is cut there.\<close>

lemma env_value_cut:
  assumes "CHR ''='' \<notin> set k" "CHR ''='' \<notin> set v"
  shows "env_map [k @ ''='' @ v @ ''='' @ rest] m = Some (m(k \<mapsto> v))"
proof -
  have split: "strings_Split CHR ''='' (s @ CHR ''='' # t) = s # strings_Split CHR ''='' t" if "CHR ''='' \<notin> set s" for s t
    using that by (induction s) auto
  show ?thesis using assms by (simp add: split)
qed

text \<open>A configuration is returned without an error only if it passed validation after its defaults were set.\<close>

lemma UnmarshalDefaults_valid:
  "UnmarshalDefaults d inp out = (None, out') \<Longrightarrow>
     dec_Validate d out' = None \<and> (\<exists>o1. dec_Unmarshal d inp out = (None, o1) \<and> dec_SetDefaults d o1 = (None, out'))"
  by (auto simp: UnmarshalDefaults_def split: prod.splits option.splits)

section \<open>Sizes\<close>

definition Size_MarshalYAML :: "int \<Rightarrow> int" where "Size_MarshalYAML s = s"

definition Size_MarshalJSON :: "int \<Rightarrow> string" where "Size_MarshalJSON s = int_text s"

definition Size_UnmarshalYAML ::
  "(string \<Rightarrow> (string, int) result) \<Rightarrow> (string, string) result \<Rightarrow> int \<Rightarrow> (string, int) result" where
  "Size_UnmarshalYAML RAMInBytes str s = rbind str RAMInBytes"

definition trim_quotes :: "string \<Rightarrow> string" where
  "trim_quotes s = rev (dropWhile (\<lambda>c. c = CHR 0x22) (rev (dropWhile (\<lambda>c. c = CHR 0x22) s)))"

definition Size_UnmarshalJSON :: "(string \<Rightarrow> (string, int) result) \<Rightarrow> string \<Rightarrow> int \<Rightarrow> (string, int) result" where
  "Size_UnmarshalJSON RAMInBytes data s =
     (if data = ''null'' then Inr s else RAMInBytes (trim_quotes data))"

definition Length_UnmarshalYAML ::
  "(string \<Rightarrow> (string, int) result) \<Rightarrow> (string, string) result \<Rightarrow> int \<Rightarrow> (string, int) result" where
  "Length_UnmarshalYAML RAMInBytes ls l = rbind ls (\<lambda>m. if m \<noteq> [] then RAMInBytes m else Inr l)"

definition Length_MarshalYAML :: "(int \<Rightarrow> string) \<Rightarrow> int \<Rightarrow> string" where
  "Length_MarshalYAML CustomSize l = CustomSize l"

text \<open>Sizes round trip through JSON when the size parser reads plain numbers of bytes.\<close>

lemma Size_roundtrip:
  assumes "RAMInBytes (int_text n) = Inr n"
  shows "Size_UnmarshalJSON RAMInBytes (Size_MarshalJSON n) s = Inr n"
proof -
  have digits: "is_digit c \<Longrightarrow> c \<noteq> CHR 0x22 \<and> c \<noteq> CHR ''n''" for c by (auto simp: is_digit_def)
  have chars: "c \<in> set (int_text n) \<Longrightarrow> c \<noteq> CHR 0x22 \<and> c \<noteq> CHR ''n''" for c
    using nat_digits_ok digits by (auto simp: int_text_def list_all_iff split: if_splits)
  have "int_text n \<noteq> ''null''" using chars [of "CHR ''n''"] by auto
  moreover have "dropWhile (\<lambda>c. c = CHR 0x22) xs = xs" if "\<And>c. c \<in> set xs \<Longrightarrow> c \<noteq> CHR 0x22" for xs
    using that by (cases xs) auto
  from this [of "int_text n"] this [of "rev (int_text n)"] have "trim_quotes (int_text n) = int_text n"
    using chars by (simp add: trim_quotes_def)
  ultimately show ?thesis using assms by (simp add: Size_UnmarshalJSON_def Size_MarshalJSON_def)
qed

section \<open>URLs\<close>

record URL =
  Scheme :: string
  Host :: string

definition ParseURL :: "(string \<Rightarrow> (string, URL) result) \<Rightarrow> string \<Rightarrow> (string, URL) result" where
  "ParseURL url_Parse addr =
     (if strings_HasPrefix addr ''unix://'' then Inr \<lparr>Scheme = ''unix'', Host = drop 7 addr\<rparr> else url_Parse addr)"

section \<open>Paths\<close>

text \<open>
  What \<^verbatim>\<open>os.Stat\<close> says of a path, an error with whether \<^verbatim>\<open>os.IsExist\<close> holds of it; and a file system for the functions that
  write. \<open>create_err\<close> tells whether a file can be created, \<open>io_err\<close> after how many bytes copying fails.
\<close>

datatype stat = StatFile | StatDir | StatErr bool

definition PathExists :: "stat \<Rightarrow> bool" where
  "PathExists st = (case st of StatErr exist \<Rightarrow> exist | _ \<Rightarrow> True)"

definition DirExists :: "stat \<Rightarrow> bool" where
  "DirExists st = (case st of StatErr exist \<Rightarrow> exist | StatDir \<Rightarrow> True | StatFile \<Rightarrow> False)"

definition utils_FileExists :: "stat \<Rightarrow> bool" where
  "utils_FileExists st = (case st of StatErr exist \<Rightarrow> exist | StatDir \<Rightarrow> False | StatFile \<Rightarrow> True)"

datatype node = Dir | File string | Symlink string

record fs =
  nodes :: "string \<rightharpoonup> node"
  create_err :: "string \<Rightarrow> string option"
  io_err :: "(nat \<times> string) option"

definition os_Stat :: "fs \<Rightarrow> string \<Rightarrow> stat" where
  "os_Stat f p =
     (case nodes f p of
        None \<Rightarrow> StatErr False
      | Some Dir \<Rightarrow> StatDir
      | Some (File _) \<Rightarrow> StatFile
      | Some (Symlink q) \<Rightarrow>
          (case nodes f q of Some Dir \<Rightarrow> StatDir | Some (File _) \<Rightarrow> StatFile | _ \<Rightarrow> StatErr False))"

text \<open>A reader: given bytes, or an open file, which is read when the copy happens.\<close>

datatype reader = Bytes string | OpenFile string

definition read_all :: "fs \<Rightarrow> reader \<Rightarrow> (string, string) result" where
  "read_all f r =
     (case r of
        Bytes b \<Rightarrow> Inr b
      | OpenFile p \<Rightarrow> (case nodes f p of Some (File c) \<Rightarrow> Inr c | _ \<Rightarrow> Inl ''is a directory''))"

definition WriteFile :: "fs \<Rightarrow> string \<Rightarrow> reader \<Rightarrow> string option \<times> fs" where
  "WriteFile f fn r =
     (case create_err f fn of
        Some e \<Rightarrow> (Some e, f)
      | None \<Rightarrow>
          (let f = f\<lparr>nodes := (nodes f)(fn \<mapsto> File [])\<rparr>
           in case read_all f r of
                Inl e \<Rightarrow> (Some e, f)
              | Inr c \<Rightarrow>
                  (case io_err f of
                     Some (n, e) \<Rightarrow> (Some e, f\<lparr>nodes := (nodes f)(fn \<mapsto> File (take n c))\<rparr>)
                   | None \<Rightarrow> (None, f\<lparr>nodes := (nodes f)(fn \<mapsto> File c)\<rparr>))))"

definition CopyFile :: "fs \<Rightarrow> string \<Rightarrow> string \<Rightarrow> string option \<times> fs" where
  "CopyFile f s t =
     (case nodes f s of
        None \<Rightarrow> (Some ''no such file or directory'', f)
      | Some _ \<Rightarrow> WriteFile f t (OpenFile s))"

definition CalculateFileMD5 :: "(string \<Rightarrow> string) \<Rightarrow> fs \<Rightarrow> string \<Rightarrow> (string, string) result" where
  "CalculateFileMD5 md5_hex f fn =
     (case nodes f fn of
        None \<Rightarrow> Inl ''no such file or directory''
      | Some _ \<Rightarrow> rbind (read_all f (OpenFile fn)) (\<lambda>c. case io_err f of Some (_, e) \<Rightarrow> Inl e | None \<Rightarrow> Inr (md5_hex c)))"

definition CalculateBase64 :: "string \<Rightarrow> string" where
  "CalculateBase64 s = EncodeToString s"

definition CreateSymlink :: "fs \<Rightarrow> string \<Rightarrow> string \<Rightarrow> string option \<times> fs" where
  "CreateSymlink f target symlink =
     (if PathExists (os_Stat f symlink) then (None, f)
      else case (nodes f symlink, create_err f symlink) of
             (None, None) \<Rightarrow> (None, f\<lparr>nodes := (nodes f)(symlink \<mapsto> Symlink target)\<rparr>)
           | _ \<Rightarrow> (Some (''failed to make symlink '' @ target @ '' of '' @ symlink), f))"

text \<open>
  Copying a file. When the target can be created and reading does not fail, copying a file to another path gives
  the target the contents of the source and changes nothing else. Copying a file to its own path empties it, without an
  error: the target is truncated before the source is read.
\<close>

theorem CopyFile_copies:
  assumes "nodes f s = Some (File c)" "create_err f t = None" "io_err f = None"
  shows "CopyFile f s t = (None, f\<lparr>nodes := (nodes f)(t \<mapsto> File (if s = t then [] else c))\<rparr>)"
  using assms by (cases "s = t") (simp_all add: CopyFile_def WriteFile_def read_all_def Let_def)

definition demo_fs :: fs where
  "demo_fs = \<lparr>nodes = [''a'' \<mapsto> File ''data''], create_err = (\<lambda>_. None), io_err = None\<rparr>"

theorem CopyFile_copies_witness:
  "CopyFile demo_fs ''a'' ''a'' = (None, demo_fs\<lparr>nodes := (nodes demo_fs)(''a'' \<mapsto> File [])\<rparr>)"
  using CopyFile_copies [of demo_fs "''a''" "''data''" "''a''"] by (simp add: demo_fs_def)

section \<open>Errors\<close>

text \<open>
  error_Error values: plain ones, those of \<^verbatim>\<open>pkg/errors\<close> that carry a stack, an error wrapped with a stack, and the errors with a
  code of this package. All but the plain ones implement \<^verbatim>\<open>fmt.Formatter\<close>.
\<close>

datatype go_error = PlainError string | Fundamental string | WithStack go_error | CodeErr go_error string

fun is_Formatter :: "go_error \<Rightarrow> bool" where
  "is_Formatter (PlainError _) = False"
| "is_Formatter _ = True"

definition errors_New :: "string \<Rightarrow> go_error" where "errors_New m = Fundamental m"

fun Cause :: "go_error \<Rightarrow> go_error" where
  "Cause (WithStack e) = Cause e"
| "Cause e = e"

definition Trace :: "go_error option \<Rightarrow> go_error option" where
  "Trace err = (case err of None \<Rightarrow> None | Some e \<Rightarrow> if is_Formatter e then Some e else Some (WithStack e))"

definition CodeError :: "string \<Rightarrow> string \<Rightarrow> go_error" where
  "CodeError c m = CodeErr (errors_New m) c"

fun error_Code :: "go_error \<Rightarrow> string option" where
  "error_Code (CodeErr e c) = Some c"
| "error_Code _ = None"

fun error_Error :: "go_error \<Rightarrow> string" where
  "error_Error (PlainError m) = m"
| "error_Error (Fundamental m) = m"
| "error_Error (WithStack e) = error_Error e"
| "error_Error (CodeErr e c) = error_Error e"

text \<open>Tracing keeps the message, the cause and the code, wraps at most once, and makes no error of none.\<close>

lemma Trace_keeps:
  "Trace (Some e) = Some e' \<Longrightarrow> error_Error e' = error_Error e \<and> Cause e' = Cause e \<and> (error_Code e \<noteq> None \<longrightarrow> error_Code e' = error_Code e)"
  "Trace (Trace err) = Trace err"
  "Trace err = None \<longleftrightarrow> err = None"
  "map_option error_Code (Trace (Some (CodeError c m))) = Some (Some c)"
  by (auto simp: Trace_def CodeError_def split: if_splits option.splits) (cases e; auto)+

end
