(* ===== verification/Utils_Archive.thy ===== *)
theory Utils_Archive
  imports Utils_Config
begin

text \<open>
  Wrappers around libraries: the archives of \<^verbatim>\<open>utils/tar.go\<close>, \<^verbatim>\<open>utils/tgz.go\<close> and \<^verbatim>\<open>utils/zip.go\<close>, the JSON functions of \<^verbatim>\<open>json/jsoniter.go\<close>,
  the codec of \<^verbatim>\<open>cache/persist/codec.go\<close> and the topic templates of \<^verbatim>\<open>mqtt/topic.go\<close>. The libraries are arguments; what the model keeps is which
  options they are given, which of their errors is returned and in which form.
\<close>

section \<open>Archives\<close>

datatype archive_format = FormatTar | FormatTarGz | FormatZip

record Archiver =
  archive_format :: archive_format
  arch_MkdirAll :: bool
  arch_OverwriteExisting :: bool
  arch_CompressionLevel :: "int option"
  arch_SelectiveCompression :: bool

text \<open>\<^verbatim>\<open>flate.DefaultCompression\<close>\<close>

definition DefaultCompression :: int where
  "DefaultCompression = - 1"

definition defaultTar :: Archiver where
  "defaultTar = \<lparr>archive_format = FormatTar, arch_MkdirAll = True, arch_OverwriteExisting = True,
     arch_CompressionLevel = None, arch_SelectiveCompression = False\<rparr>"

definition defaultTgz :: Archiver where
  "defaultTgz = \<lparr>archive_format = FormatTarGz, arch_MkdirAll = True, arch_OverwriteExisting = True,
     arch_CompressionLevel = Some DefaultCompression, arch_SelectiveCompression = False\<rparr>"

definition defaultZip :: Archiver where
  "defaultZip = \<lparr>archive_format = FormatZip, arch_MkdirAll = True, arch_OverwriteExisting = True,
     arch_CompressionLevel = Some DefaultCompression, arch_SelectiveCompression = True\<rparr>"

text \<open>The library works on a file system: it returns its error and the file system it leaves.\<close>

record 'fs archiver_lib =
  Archive :: "Archiver \<Rightarrow> string list \<Rightarrow> string \<Rightarrow> 'fs \<Rightarrow> go_error option \<times> 'fs"
  Unarchive :: "Archiver \<Rightarrow> string \<Rightarrow> string \<Rightarrow> 'fs \<Rightarrow> go_error option \<times> 'fs"

definition traced :: "go_error option \<times> 'fs \<Rightarrow> go_error option \<times> 'fs" where
  "traced r = (Trace (fst r), snd r)"

definition Tar :: "'fs archiver_lib \<Rightarrow> string list \<Rightarrow> string \<Rightarrow> 'fs \<Rightarrow> go_error option \<times> 'fs" where
  "Tar L sources destination fs = traced (Archive L defaultTar sources destination fs)"

definition Untar :: "'fs archiver_lib \<Rightarrow> string \<Rightarrow> string \<Rightarrow> 'fs \<Rightarrow> go_error option \<times> 'fs" where
  "Untar L source destination fs = traced (Unarchive L defaultTar source destination fs)"

definition Tgz :: "'fs archiver_lib \<Rightarrow> string list \<Rightarrow> string \<Rightarrow> 'fs \<Rightarrow> go_error option \<times> 'fs" where
  "Tgz L sources destination fs = traced (Archive L defaultTgz sources destination fs)"

definition Untgz :: "'fs archiver_lib \<Rightarrow> string \<Rightarrow> string \<Rightarrow> 'fs \<Rightarrow> go_error option \<times> 'fs" where
  "Untgz L source destination fs = traced (Unarchive L defaultTgz source destination fs)"

definition Zip :: "'fs archiver_lib \<Rightarrow> string list \<Rightarrow> string \<Rightarrow> 'fs \<Rightarrow> go_error option \<times> 'fs" where
  "Zip L sources destination fs = traced (Archive L defaultZip sources destination fs)"

definition Unzip :: "'fs archiver_lib \<Rightarrow> string \<Rightarrow> string \<Rightarrow> 'fs \<Rightarrow> go_error option \<times> 'fs" where
  "Unzip L source destination fs = traced (Unarchive L defaultZip source destination fs)"

lemmas archive_defs = Tar_def Untar_def Tgz_def Untgz_def Zip_def Unzip_def

text \<open>The wrappers fail exactly when the library does, keep the text and the cause of its error, and leave its file system.\<close>

lemma traced_keeps:
  "traced (None, fs) = (None, fs)"
  "\<exists>e'. traced (Some e, fs) = (Some e', fs) \<and> error_Error e' = error_Error e \<and> Cause e' = Cause e"
proof -
  show "traced (None, fs) = (None, fs)" by (simp add: traced_def Trace_def)
  obtain e' where "Trace (Some e) = Some e'" using Trace_keeps(3) [of "Some e"] by (cases "Trace (Some e)") auto
  with Trace_keeps(1) [OF this]
  show "\<exists>e'. traced (Some e, fs) = (Some e', fs) \<and> error_Error e' = error_Error e \<and> Cause e' = Cause e" by (simp add: traced_def)
qed

section \<open>JSON and gob\<close>

text \<open>The configuration of the JSON library that all four functions use; \<open>'cfg\<close> are its configurations.\<close>

record ('cfg, 'v, 'reader, 'writer, 'dec, 'enc) json_lib =
  ConfigCompatibleWithStandardLibrary :: 'cfg
  lib_Marshal :: "'cfg \<Rightarrow> 'v \<Rightarrow> (string, string) result"
  lib_Unmarshal :: "'cfg \<Rightarrow> string \<Rightarrow> 'v \<Rightarrow> string option \<times> 'v"
  lib_NewDecoder :: "'cfg \<Rightarrow> 'reader \<Rightarrow> 'dec"
  lib_NewEncoder :: "'cfg \<Rightarrow> 'writer \<Rightarrow> 'enc"

definition json_Marshal where
  "json_Marshal L v = lib_Marshal L (ConfigCompatibleWithStandardLibrary L) v"

definition json_Unmarshal where
  "json_Unmarshal L data v = lib_Unmarshal L (ConfigCompatibleWithStandardLibrary L) data v"

definition json_NewDecoder where
  "json_NewDecoder L reader = lib_NewDecoder L (ConfigCompatibleWithStandardLibrary L) reader"

definition json_NewEncoder where
  "json_NewEncoder L writer = lib_NewEncoder L (ConfigCompatibleWithStandardLibrary L) writer"

text \<open>
  The gob encoder appends to a buffer and may have written a part of the value when it fails; the part is not returned. A decoder reads one
  value from the front of its input and ignores the rest.
\<close>

definition Serialize :: "('v \<Rightarrow> string option \<times> string) \<Rightarrow> 'v \<Rightarrow> (string, string) result" where
  "Serialize gob_Encode v =
     (case gob_Encode v of (Some e, _) \<Rightarrow> Inl e | (None, written) \<Rightarrow> Inr ([] @ written))"

definition Deserialize :: "(string \<Rightarrow> 'v \<Rightarrow> (string option \<times> 'v) \<times> string) \<Rightarrow> string \<Rightarrow> 'v \<Rightarrow> string option \<times> 'v" where
  "Deserialize gob_Decode payload ptr = fst (gob_Decode payload ptr)"

text \<open>A value survives the cache if one encoded value at the front of an input is decoded to it.\<close>

lemma Serialize_Deserialize:
  assumes "\<And>v written rest ptr. gob_Encode v = (None, written) \<Longrightarrow> gob_Decode (written @ rest) ptr = ((None, v), rest)"
    and "Serialize gob_Encode v = Inr payload"
  shows "Deserialize gob_Decode payload ptr = (None, v)"
proof -
  from assms(2) have "gob_Encode v = (None, payload)" by (auto simp: Serialize_def split: prod.splits option.splits)
  from assms(1) [OF this, of "[]" ptr] show ?thesis by (simp add: Deserialize_def)
qed

section \<open>Topic templates\<close>

definition TopicNamespace :: string where "TopicNamespace = ''(.Namespace)''"
definition TopicNodeName :: string where "TopicNodeName = ''(.NodeName)''"
definition TopicReport :: string where "TopicReport = ''report''"
definition TopicDesire :: string where "TopicDesire = ''desire''"
definition TopicDelta :: string where "TopicDelta = ''delta''"
definition TopicDesireResponse :: string where "TopicDesireResponse = ''desireResponse''"
definition TopicWildcard :: string where "TopicWildcard = ''+''"

text \<open>\<open>Parse\<close> gives the template of a name; \<open>Execute\<close> returns its error and what it wrote before.\<close>

definition ProcessTopic ::
  "(string \<Rightarrow> string \<Rightarrow> (string, 'tmpl) result) \<Rightarrow> ('tmpl \<Rightarrow> 'vars \<Rightarrow> string option \<times> string) \<Rightarrow> string \<Rightarrow> 'vars \<Rightarrow> (string, string) result" where
  "ProcessTopic Parse Execute topic vars =
     rbind (Parse ''mqttTopic'' topic) (\<lambda>tmpl.
       case Execute tmpl vars of (Some e, _) \<Rightarrow> Inl e | (None, written) \<Rightarrow> Inr written)"

end
