(* ===== verification/Log_Config.thy ===== *)
theory Log_Config
  imports Go_Strconv
begin

text \<open>
  The configuration of the logger: \<^verbatim>\<open>log/config.go\<close>, and the levels of \<^verbatim>\<open>log/logger.go\<close>. The configuration of the file sink
  travels through a URL: \<^verbatim>\<open>String\<close> writes its query, \<^verbatim>\<open>FromURL\<close> reads it back. The query parser of \<^verbatim>\<open>net/url\<close> is modelled;
  the logging library is not.
\<close>

section \<open>Queries\<close>

definition hex_val :: "char \<Rightarrow> nat option" where
  "hex_val c =
     (let n = of_char c in
      if 48 \<le> n \<and> n \<le> 57 then Some (n - 48) else if 97 \<le> n \<and> n \<le> 102 then Some (n - 87)
      else if 65 \<le> n \<and> n \<le> 70 then Some (n - 55) else None)"

fun QueryUnescape :: "string \<Rightarrow> string option" where
  "QueryUnescape [] = Some []"
| "QueryUnescape (c # s) =
     (if c = CHR ''%''
      then (case s of
              h # l # r \<Rightarrow>
                (case (hex_val h, hex_val l, QueryUnescape r) of
                   (Some a, Some b, Some t) \<Rightarrow> Some (char_of (16 * a + b) # t)
                 | _ \<Rightarrow> None)
            | _ \<Rightarrow> None)
      else if c = CHR ''+'' then map_option (Cons CHR '' '') (QueryUnescape s)
      else map_option (Cons c) (QueryUnescape s))"

text \<open>\<^verbatim>\<open>strings.Cut(s, "=")\<close>: the text before and after the first equals sign.\<close>

definition cut_eq :: "string \<Rightarrow> string \<times> string" where
  "cut_eq s = (takeWhile (\<lambda>c. c \<noteq> CHR ''='') s, drop 1 (dropWhile (\<lambda>c. c \<noteq> CHR ''='') s))"

definition query_pair :: "string \<Rightarrow> (string \<times> string) list" where
  "query_pair seg =
     (if CHR '';'' \<in> set seg \<or> seg = [] then []
      else case (QueryUnescape (fst (cut_eq seg)), QueryUnescape (snd (cut_eq seg))) of
             (Some k, Some v) \<Rightarrow> [(k, v)] | _ \<Rightarrow> [])"

definition ParseQuery :: "string \<Rightarrow> (string \<times> string) list" where
  "ParseQuery q = concat (map query_pair (strings_Split CHR ''&'' q))"

definition Values_Get :: "(string \<times> string) list \<Rightarrow> string \<Rightarrow> string" where
  "Values_Get vs k = (case map_of vs k of Some v \<Rightarrow> v | None \<Rightarrow> [])"

text \<open>The URL-safe alphabet of base64 differs from the standard one in two characters.\<close>

definition to_url :: "char \<Rightarrow> char" where
  "to_url c = (if c = CHR ''+'' then CHR ''-'' else if c = CHR ''/'' then CHR ''_'' else c)"

definition from_url :: "char \<Rightarrow> char" where
  "from_url c = (if c = CHR ''-'' then CHR ''+'' else if c = CHR ''_'' then CHR ''/'' else c)"

definition URLEncode :: "string \<Rightarrow> string" where
  "URLEncode s = map to_url (EncodeToString s)"

definition URLDecode :: "string \<Rightarrow> string option" where
  "URLDecode s = (if CHR ''+'' \<in> set s \<or> CHR ''/'' \<in> set s then None else DecodeString (map from_url s))"

section \<open>The configuration\<close>

record LogConfig =
  Level :: string
  Encoding :: string
  Filename :: string
  Compress :: bool
  MaxAge :: int
  MaxSize :: int
  MaxBackups :: int
  EncodeTime :: string
  EncodeLevel :: string

definition bool_text :: "bool \<Rightarrow> string" where
  "bool_text b = (if b then ''true'' else ''false'')"

definition ParseBool :: "string \<Rightarrow> bool option" where
  "ParseBool s =
     (if s \<in> {''1'', ''t'', ''T'', ''TRUE'', ''true'', ''True''} then Some True
      else if s \<in> {''0'', ''f'', ''F'', ''FALSE'', ''false'', ''False''} then Some False else None)"

text \<open>\<^verbatim>\<open>Atoi\<close> on a 64-bit platform.\<close>

definition Atoi :: "string \<Rightarrow> (num_error, int) result" where
  "Atoi s = ParseInt s 64"

definition LogConfig_String :: "LogConfig \<Rightarrow> string" where
  "LogConfig_String c =
     ''level='' @ Level c @ ''&encoding='' @ Encoding c @ ''&filename='' @ URLEncode (Filename c) @
     ''&compress='' @ bool_text (Compress c) @ ''&maxAge='' @ int_text (MaxAge c) @
     ''&maxSize='' @ int_text (MaxSize c) @ ''&maxBackups='' @ int_text (MaxBackups c)"

datatype log_error = ErrBase64 | ErrBool string | ErrNum num_error

definition num :: "(num_error, int) result \<Rightarrow> (log_error, int) result" where
  "num r = (case r of Inl e \<Rightarrow> Inl (ErrNum e) | Inr i \<Rightarrow> Inr i)"

text \<open>\<open>FromURL\<close> is given the query of the URL.\<close>

definition FromURL :: "string \<Rightarrow> (log_error, LogConfig) result" where
  "FromURL query =
     (let args = ParseQuery query
      in case URLDecode (Values_Get args ''filename'') of
           None \<Rightarrow> Inl ErrBase64
         | Some filename \<Rightarrow>
             (case ParseBool (Values_Get args ''compress'') of
                None \<Rightarrow> Inl (ErrBool (Values_Get args ''compress''))
              | Some compress \<Rightarrow>
                  rbind (num (Atoi (Values_Get args ''maxAge''))) (\<lambda>maxAge.
                  rbind (num (Atoi (Values_Get args ''maxSize''))) (\<lambda>maxSize.
                  rbind (num (Atoi (Values_Get args ''maxBackups''))) (\<lambda>maxBackups.
                  Inr \<lparr>Level = Values_Get args ''level'', Encoding = Values_Get args ''encoding'', Filename = filename,
                    Compress = compress, MaxAge = maxAge, MaxSize = maxSize, MaxBackups = maxBackups,
                    EncodeTime = [], EncodeLevel = []\<rparr>)))))"

datatype log_Level = DebugLevel | InfoLevel | WarnLevel | ErrorLevel | PanicLevel | FatalLevel

definition parseLevel :: "string \<Rightarrow> log_Level" where
  "parseLevel lvl =
     (let l = strings_ToLower lvl in
      if l = ''fatal'' then FatalLevel else if l = ''panic'' then PanicLevel else if l = ''error'' then ErrorLevel
      else if l = ''warn'' \<or> l = ''warning'' then WarnLevel else if l = ''info'' then InfoLevel
      else if l = ''debug'' then DebugLevel else InfoLevel)"

section \<open>Round trip\<close>

text \<open>A text that a query carries as it is.\<close>

definition plain_text :: "string \<Rightarrow> bool" where
  "plain_text s = list_all (\<lambda>c. c \<notin> {CHR ''&'', CHR ''%'', CHR ''+'', CHR '';''}) s"

lemma QueryUnescape_plain: "plain_text s \<Longrightarrow> QueryUnescape s = Some s"
  by (induction s) (simp_all add: plain_text_def)

lemma cut_eq_pair: "CHR ''='' \<notin> set k \<Longrightarrow> cut_eq (k @ ''='' @ v) = (k, v)"
  by (simp add: cut_eq_def takeWhile_append dropWhile_append)

lemma query_pair_plain:
  assumes "plain_text k" "plain_text v" "CHR ''='' \<notin> set k"
  shows "query_pair (k @ ''='' @ v) = [(k, v)]"
proof -
  have "CHR '';'' \<notin> set (k @ ''='' @ v)" using assms(1,2) by (auto simp: plain_text_def list_all_iff)
  moreover have "k @ ''='' @ v \<noteq> []" by simp
  ultimately show ?thesis
    unfolding query_pair_def cut_eq_pair [OF assms(3)] using assms(1,2) by (simp add: QueryUnescape_plain)
qed

lemma ParseQuery_plain:
  assumes "kvs \<noteq> []" "list_all (\<lambda>(k, v). plain_text k \<and> plain_text v \<and> CHR ''='' \<notin> set k) kvs"
  shows "ParseQuery (strings_Join (map (\<lambda>(k, v). k @ ''='' @ v) kvs) ''&'') = kvs"
proof -
  have "strings_Split CHR ''&'' (strings_Join (map (\<lambda>(k, v). k @ ''='' @ v) kvs) ''&'') = map (\<lambda>(k, v). k @ ''='' @ v) kvs"
  proof (rule Split_Join)
    show "map (\<lambda>(k, v). k @ ''='' @ v) kvs \<noteq> []" using assms(1) by simp
    have amp: "CHR ''&'' \<notin> set (k @ ''='' @ v)" if "plain_text k" "plain_text v" for k v
      using that by (auto simp: plain_text_def list_all_iff)
    fix x assume "x \<in> set (map (\<lambda>(k, v). k @ ''='' @ v) kvs)"
    then obtain k v where kv: "(k, v) \<in> set kvs" "x = k @ ''='' @ v" by auto
    with assms(2) have "plain_text k" "plain_text v" by (auto simp: list_all_iff)
    then show "CHR ''&'' \<notin> set x" using amp kv(2) by simp
  qed
  moreover have "concat (map query_pair (map (\<lambda>(k, v). k @ ''='' @ v) kvs)) = kvs"
    using assms(2) by (induction kvs) (auto simp: query_pair_plain [simplified])
  ultimately show ?thesis by (simp add: ParseQuery_def)
qed

lemma plain_int_text: "plain_text (int_text i)"
proof -
  have "is_digit c \<Longrightarrow> c \<notin> {CHR ''&'', CHR ''%'', CHR ''+'', CHR '';''}" for c by (auto simp: is_digit_def)
  then have "plain_text (nat_digits n)" for n
    using nat_digits_ok [of n] by (auto simp: plain_text_def list_all_iff)
  then show ?thesis by (simp add: int_text_def plain_text_def)
qed

lemma b64_char_mem: "n < 64 \<Longrightarrow> b64_char n \<in> insert pad (set b64_alphabet)"
  unfolding b64_char_def by (rule insertI2, rule nth_mem) (simp add: b64_alphabet_def)

lemma b64_encode_chars: "list_all (\<lambda>n. n < 256) xs \<Longrightarrow> set (b64_encode xs) \<subseteq> insert pad (set b64_alphabet)"
proof (induction xs rule: b64_encode.induct)
  case (2 a)
  then show ?case using sextets_below [of a 0 0] b64_char_mem by (simp add: subset_iff)
next
  case (3 a b)
  then show ?case using sextets_below [of a b 0] b64_char_mem by (simp add: subset_iff)
next
  case (4 a b c xs)
  then show ?case using sextets_below [of a b c] b64_char_mem by (simp add: subset_iff)
qed simp

lemma URLEncode_ok: "plain_text (URLEncode s)" "URLDecode (URLEncode s) = Some s"
proof -
  let ?u = "insert pad (set b64_alphabet)"
  have "list_all (\<lambda>n. n < 256) (map of_char s :: nat list)" by (simp add: list_all_iff)
  from b64_encode_chars [OF this] have chars: "set (EncodeToString s) \<subseteq> ?u" by (simp add: EncodeToString_def)
  have table: "list_all (\<lambda>c. to_url c \<notin> {CHR ''&'', CHR ''%'', CHR ''+'', CHR '';''} \<and> to_url c \<noteq> CHR ''/'' \<and>
      from_url (to_url c) = c) (pad # b64_alphabet)" by code_simp
  then have ok: "to_url c \<notin> {CHR ''&'', CHR ''%'', CHR ''+'', CHR '';''}" "to_url c \<noteq> CHR ''/''" "from_url (to_url c) = c"
    if "c \<in> set (EncodeToString s)" for c
    using that chars by (auto simp: list_all_iff)
  show "plain_text (URLEncode s)" using ok(1) by (auto simp: plain_text_def URLEncode_def list_all_iff)
  have "map from_url (URLEncode s) = EncodeToString s"
    using ok(3) by (simp add: URLEncode_def map_idI)
  moreover have "CHR ''+'' \<notin> set (URLEncode s)" "CHR ''/'' \<notin> set (URLEncode s)"
    using ok(1,2) by (force simp: URLEncode_def)+
  ultimately show "URLDecode (URLEncode s) = Some s" by (simp add: URLDecode_def)
qed

interpretation url_base64: text_codec URLEncode URLDecode
  by unfold_locales (rule URLEncode_ok(2))

lemma FromURL_String:
  assumes "plain_text (Level c)" "plain_text (Encoding c)"
    and "- (2 ^ 63) \<le> MaxAge c" "MaxAge c < 2 ^ 63" "- (2 ^ 63) \<le> MaxSize c" "MaxSize c < 2 ^ 63"
      "- (2 ^ 63) \<le> MaxBackups c" "MaxBackups c < 2 ^ 63"
  shows "FromURL (LogConfig_String c) = Inr (c\<lparr>EncodeTime := [], EncodeLevel := []\<rparr>)"
proof -
  let ?kvs = "[(''level'', Level c), (''encoding'', Encoding c), (''filename'', URLEncode (Filename c)),
     (''compress'', bool_text (Compress c)), (''maxAge'', int_text (MaxAge c)), (''maxSize'', int_text (MaxSize c)),
     (''maxBackups'', int_text (MaxBackups c))]"
  have "plain_text (bool_text b)" for b by (simp add: bool_text_def plain_text_def)
  then have "list_all (\<lambda>(k, v). plain_text k \<and> plain_text v \<and> CHR ''='' \<notin> set k) ?kvs"
    using assms(1,2) plain_int_text URLEncode_ok(1) by (simp add: plain_text_def [of "[_]"] plain_text_def [of "_ # _"])
  from ParseQuery_plain [OF _ this] have query: "ParseQuery (LogConfig_String c) = ?kvs"
    by (simp add: LogConfig_String_def)
  have bool: "ParseBool (bool_text (Compress c)) = Some (Compress c)" by (simp add: bool_text_def ParseBool_def)
  have atoi: "Atoi (int_text i) = Inr i" if "- (2 ^ 63) \<le> i" "i < 2 ^ 63" for i
    using that by (simp add: Atoi_def ParseInt_int_text)
  show ?thesis
    using atoi [OF assms(3,4)] atoi [OF assms(5,6)] atoi [OF assms(7,8)]
    by (simp add: FromURL_def query Values_Get_def URLEncode_ok(2) bool num_def)
qed

text \<open>
  The logger configuration survives its URL. For a level and an encoding without characters that a query treats
  specially, and any file name, reading the query that \<^verbatim>\<open>String\<close> writes gives back the configuration, except for the time and level
  formats, which the text does not carry.
\<close>

theorem log_config_roundtrip:
  assumes "plain_text (Level c)" "plain_text (Encoding c)"
    and "- (2 ^ 63) \<le> MaxAge c" "MaxAge c < 2 ^ 63" "- (2 ^ 63) \<le> MaxSize c" "MaxSize c < 2 ^ 63"
      "- (2 ^ 63) \<le> MaxBackups c" "MaxBackups c < 2 ^ 63"
  shows "FromURL (LogConfig_String c) = Inr (c\<lparr>EncodeTime := [], EncodeLevel := []\<rparr>)"
  using assms by (rule FromURL_String)

definition demo_log :: LogConfig where
  "demo_log = \<lparr>Level = ''info'', Encoding = ''json'', Filename = ''var/log/a&b.log'', Compress = True, MaxAge = 15, MaxSize = 50,
     MaxBackups = 15, EncodeTime = ''2006'', EncodeLevel = ''[level]''\<rparr>"

theorem log_config_roundtrip_witness:
  "FromURL (LogConfig_String demo_log) = Inr (demo_log\<lparr>EncodeTime := [], EncodeLevel := []\<rparr>)"
  by (rule log_config_roundtrip) (simp_all add: demo_log_def plain_text_def)

end
