(* ===== verification/Log_Init.thy ===== *)
theory Log_Init
  imports Log_Config
begin

text \<open>
  Setting up the logger: \<^verbatim>\<open>log/logger.go\<close> and the helpers of \<^verbatim>\<open>log/zap.go\<close>. The configuration is handed to the logging library
  as a record; the file sink is handed over as a URL, which the library parses and gives back to \<^verbatim>\<open>newFileHook\<close>. The library
  (its default configuration, its builder, its sinks and the names of the levels) is an argument; of the standard library the opaque URLs of \<^verbatim>\<open>net/url\<close>,
  \<^verbatim>\<open>strings.ReplaceAll\<close>, \<^verbatim>\<open>filepath.Dir\<close> and \<^verbatim>\<open>fmt.Sprintf\<close> with string arguments are modelled.
\<close>

section \<open>Standard library\<close>

text \<open>\<^verbatim>\<open>strings.ReplaceAll\<close> with a non-empty text to replace.\<close>

function strings_ReplaceAll :: "string \<Rightarrow> string \<Rightarrow> string \<Rightarrow> string" where
  "strings_ReplaceAll s old new =
     (if s = [] \<or> old = [] then s
      else if strings_HasPrefix s old then new @ strings_ReplaceAll (drop (length old) s) old new
      else hd s # strings_ReplaceAll (tl s) old new)"
  by auto
termination by (relation "measure (\<lambda>(s, _). length s)") auto

declare strings_ReplaceAll.simps [simp del]

text \<open>
  \<^verbatim>\<open>fmt.Sprintf\<close> on string arguments: a verb \<^verbatim>\<open>%s\<close> takes the next argument, a verb without an argument and an argument without
  a verb leave a note in the text. Other verbs and flags are outside the model (\<open>None\<close>).
\<close>

definition extra_args :: "string list \<Rightarrow> string" where
  "extra_args args =
     (if args = [] then []
      else ''%!(EXTRA '' @ strings_Join (map (\<lambda>a. ''string='' @ a) args) '', '' @ '')'')"

fun Sprintf :: "string \<Rightarrow> string list \<Rightarrow> string option" where
  "Sprintf [] args = Some (extra_args args)"
| "Sprintf [c] args = (if c = CHR ''%'' then Some (''%!(NOVERB)'' @ extra_args args) else Some (c # extra_args args))"
| "Sprintf (c # d # s) args =
     (if c \<noteq> CHR ''%'' then map_option (Cons c) (Sprintf (d # s) args)
      else if d = CHR ''%'' then map_option (Cons c) (Sprintf s args)
      else if d = CHR ''s''
      then (case args of
              [] \<Rightarrow> map_option ((@) ''%!s(MISSING)'') (Sprintf s [])
            | a # as \<Rightarrow> map_option ((@) a) (Sprintf s as))
      else None)"

text \<open>\<^verbatim>\<open>filepath.Clean\<close> and \<^verbatim>\<open>filepath.Dir\<close> with slashes; the last element of the path is the head of the stack.\<close>

definition clean_step :: "bool \<Rightarrow> string list \<Rightarrow> string \<Rightarrow> string list" where
  "clean_step rooted stack seg =
     (if seg = [] \<or> seg = ''.'' then stack
      else if seg = ''..''
      then (case stack of
              [] \<Rightarrow> if rooted then [] else [seg]
            | t # rest \<Rightarrow> if t = ''..'' then seg # stack else rest)
      else seg # stack)"

definition filepath_Clean :: "string \<Rightarrow> string" where
  "filepath_Clean path =
     (let rooted = strings_HasPrefix path ''/'';
          s = strings_Join (rev (foldl (clean_step rooted) [] (strings_Split CHR ''/'' path))) ''/''
      in if rooted then CHR ''/'' # s else if s = [] then ''.'' else s)"

definition filepath_Dir :: "string \<Rightarrow> string" where
  "filepath_Dir path = filepath_Clean (rev (dropWhile (\<lambda>c. c \<noteq> CHR ''/'') (rev path)))"

text \<open>
  \<^verbatim>\<open>url.Parse\<close> of a URL whose part after the scheme does not start with a slash: the scheme in lower case, the opaque part, the query.
  Control characters are refused, a fragment is cut off (its own escapes are not looked at).
\<close>

definition scheme_char :: "bool \<Rightarrow> char \<Rightarrow> bool" where
  "scheme_char first c =
     (let n = (of_char c :: nat)
      in 97 \<le> n \<and> n \<le> 122 \<or> 65 \<le> n \<and> n \<le> 90 \<or>
         \<not> first \<and> (48 \<le> n \<and> n \<le> 57 \<or> c = CHR ''+'' \<or> c = CHR ''-'' \<or> c = CHR ''.''))"

record opaque_URL =
  Scheme :: string
  Opaque :: string
  RawQuery :: string

definition url_Parse :: "string \<Rightarrow> opaque_URL option" where
  "url_Parse raw =
     (let u = takeWhile (\<lambda>c. c \<noteq> CHR ''#'') raw;
          scheme = takeWhile (\<lambda>c. c \<noteq> CHR '':'') u;
          rest = drop (Suc (length scheme)) u
      in if \<not> list_all (\<lambda>c. 32 \<le> (of_char c :: nat) \<and> of_char c \<noteq> (127 :: nat)) u then None
         else if scheme = [] \<or> length scheme = length u \<or> \<not> scheme_char True (hd scheme) \<or>
           \<not> list_all (scheme_char False) (tl scheme) \<or> strings_HasPrefix rest ''/'' then None
         else Some \<lparr>Scheme = strings_ToLower scheme, Opaque = takeWhile (\<lambda>c. c \<noteq> CHR ''?'') rest,
                RawQuery = drop 1 (dropWhile (\<lambda>c. c \<noteq> CHR ''?'') rest)\<rparr>)"

section \<open>The logging library\<close>

text \<open>The settings of \<^verbatim>\<open>zap.Config\<close> that the source touches; the encoders are functions.\<close>

record ('t, 'smp) zap_Config =
  zc_Level :: log_Level
  zc_Sampling :: "'smp option"
  zc_Encoding :: string
  zc_OutputPaths :: "string list"
  zc_EncodeTime :: "'t \<Rightarrow> string"
  zc_EncodeLevel :: "log_Level \<Rightarrow> string option"

text \<open>
  \<open>production\<close> is \<^verbatim>\<open>NewProductionConfig\<close>, \<open>Build\<close> the builder with the fields of the logger, \<open>level_String\<close> the names of the levels,
  \<open>ISO8601TimeEncoder\<close> the encoder of that name, \<open>Format\<close> is \<^verbatim>\<open>time.Format\<close>.
\<close>

record ('t, 'smp, 'f, 'l) zap_lib =
  production :: "('t, 'smp) zap_Config"
  Build :: "('t, 'smp) zap_Config \<Rightarrow> 'f list \<Rightarrow> (string, 'l) result"
  level_String :: "log_Level \<Rightarrow> string"
  ISO8601TimeEncoder :: "'t \<Rightarrow> string"
  Format :: "'t \<Rightarrow> string \<Rightarrow> string"
  RegisterSink :: "string \<Rightarrow> string list \<Rightarrow> string option"

text \<open>The global logger, the schemes that have a sink, and what has been logged (the message with its text field).\<close>

record 'l log_state =
  global :: 'l
  sinks :: "string list"
  logged :: "(string \<times> string) list"

section \<open>Start of the package\<close>

definition default_config :: "('t, 'smp, 'f, 'l) zap_lib \<Rightarrow> ('t, 'smp) zap_Config" where
  "default_config z = (production z)\<lparr>zc_Sampling := None, zc_OutputPaths := [''stdout'']\<rparr>"

text \<open>\<open>None\<close> is the panic of a default logger that cannot be built. The error of the registration goes to the new logger.\<close>

definition log_init :: "('t, 'smp, 'f, 'l) zap_lib \<Rightarrow> 'l log_state \<Rightarrow> 'l log_state option" where
  "log_init z g =
     (case Build z (default_config z) [] of
        Inl e \<Rightarrow> None
      | Inr l \<Rightarrow>
          let g = (case RegisterSink z ''lumberjack'' (sinks g) of
                     None \<Rightarrow> g\<lparr>sinks := ''lumberjack'' # sinks g\<rparr>
                   | Some e \<Rightarrow> g\<lparr>logged := logged g @ [(''failed to register lumberjack'', e)]\<rparr>)
          in Some (g\<lparr>global := l\<rparr>))"

section \<open>Init\<close>

definition known_level :: "string \<Rightarrow> bool" where
  "known_level lvl \<longleftrightarrow>
     strings_ToLower lvl \<in> set [''fatal'', ''panic'', ''error'', ''warn'', ''warning'', ''info'', ''debug'']"

text \<open>\<open>parseLevel\<close> with its warning, on the global logger of the moment.\<close>

definition parseLevel_warn :: "string \<Rightarrow> 'l log_state \<Rightarrow> log_Level \<times> 'l log_state" where
  "parseLevel_warn lvl g =
     (parseLevel lvl,
      if known_level lvl then g
      else g\<lparr>logged := logged g @ [(''failed to parse log level, use default level (info)'', lvl)]\<rparr>)"

definition encode_level :: "(log_Level \<Rightarrow> string) \<Rightarrow> string \<Rightarrow> log_Level \<Rightarrow> string option" where
  "encode_level level_name encodeLevel lvl =
     (let ft = strings_ReplaceAll encodeLevel ''level'' ''%s'' in Sprintf ft [level_name lvl])"

definition zap_config_of :: "('t, 'smp, 'f, 'l) zap_lib \<Rightarrow> LogConfig \<Rightarrow> ('t, 'smp) zap_Config" where
  "zap_config_of z cfg =
     (let c = (production z)\<lparr>zc_Sampling := None\<rparr>;
          c = (if Filename cfg \<noteq> [] then c\<lparr>zc_OutputPaths := zc_OutputPaths c @ [''lumberjack:?'' @ LogConfig_String cfg]\<rparr> else c);
          c = (if Encoding cfg = ''console'' then c\<lparr>zc_Encoding := ''console'', zc_EncodeTime := ISO8601TimeEncoder z\<rparr> else c);
          c = (if EncodeTime cfg \<noteq> [] then c\<lparr>zc_EncodeTime := (\<lambda>t. Format z t (EncodeTime cfg))\<rparr> else c);
          c = (if EncodeLevel cfg \<noteq> [] then c\<lparr>zc_EncodeLevel := encode_level (level_String z) (EncodeLevel cfg)\<rparr> else c)
      in c)"

definition logger_Init ::
  "('t, 'smp, 'f, 'l) zap_lib \<Rightarrow> LogConfig \<Rightarrow> 'f list \<Rightarrow> 'l log_state \<Rightarrow> (string, 'l) result \<times> 'l log_state" where
  "logger_Init z cfg fs g =
     (let c = zap_config_of z cfg;
          (lvl, g) = parseLevel_warn (Level cfg) g;
          c = c\<lparr>zc_Level := lvl\<rparr>
      in case Build z c fs of
           Inl e \<Rightarrow> (Inl e, g)
         | Inr l \<Rightarrow> let g = g\<lparr>global := l\<rparr> in (Inr (global g), g))"

section \<open>The file sink\<close>

record lumberjack_Logger =
  lj_Compress :: bool
  lj_Filename :: string
  lj_MaxAge :: int
  lj_MaxSize :: int
  lj_MaxBackups :: int

datatype sink_error = BadConfig log_error | MkdirError string

definition lumberjackSink_Sync :: "lumberjack_Logger \<Rightarrow> string option" where
  "lumberjackSink_Sync s = None"

text \<open>\<open>MkdirAll\<close> works on the state of the file system.\<close>

definition newFileHook ::
  "(string \<Rightarrow> 'fs \<Rightarrow> string option \<times> 'fs) \<Rightarrow> opaque_URL \<Rightarrow> 'fs \<Rightarrow> (sink_error, lumberjack_Logger) result \<times> 'fs" where
  "newFileHook MkdirAll u fs =
     (case FromURL (RawQuery u) of
        Inl e \<Rightarrow> (Inl (BadConfig e), fs)
      | Inr cfg \<Rightarrow>
          (case MkdirAll (filepath_Dir (Filename cfg)) fs of
             (Some e, fs) \<Rightarrow> (Inl (MkdirError e), fs)
           | (None, fs) \<Rightarrow>
               (Inr \<lparr>lj_Compress = Compress cfg, lj_Filename = Filename cfg, lj_MaxAge = MaxAge cfg,
                  lj_MaxSize = MaxSize cfg, lj_MaxBackups = MaxBackups cfg\<rparr>, fs)))"

section \<open>Fields\<close>

text \<open>\<open>Code\<close> makes a field of an error that has a code, and a field that is skipped of any other error.\<close>

datatype 'v log_field = AnyField string 'v | SkipField

definition log_Code :: "('e \<Rightarrow> string option) \<Rightarrow> (string \<Rightarrow> 'v) \<Rightarrow> 'e \<Rightarrow> 'v log_field" where
  "log_Code coder any err = (case coder err of Some code \<Rightarrow> AnyField ''errorCode'' (any code) | None \<Rightarrow> SkipField)"

section \<open>The levels of the output\<close>

lemma ReplaceAll_Nil [simp]: "strings_ReplaceAll [] old new = []"
  by (simp add: strings_ReplaceAll.simps)

lemma ReplaceAll_absent: "\<not> strings_Contains s old \<Longrightarrow> strings_ReplaceAll s old new = s"
proof (induction s)
  case (Cons c s)
  then show ?case by (subst strings_ReplaceAll.simps) simp
qed simp

text \<open>
  A text without per cent signs in front of which no occurrence of the word \<^verbatim>\<open>level\<close> begins, even when the word follows. The
  occurrence after it is replaced, and the rest treated in the same way.
\<close>

definition level_free :: "string \<Rightarrow> bool" where
  "level_free s \<longleftrightarrow> CHR ''%'' \<notin> set s \<and> \<not> strings_Contains (s @ ''leve'') ''level''"

lemma HasPrefix_append: "length p \<le> length s \<Longrightarrow> strings_HasPrefix (s @ t) p = strings_HasPrefix s p"
  by (simp add: strings_HasPrefix_def)

lemma ReplaceAll_level:
  assumes "level_free a"
  shows "strings_ReplaceAll (a @ ''level'' @ b) ''level'' new = a @ new @ strings_ReplaceAll b ''level'' new"
  using assms
proof (induction a)
  case Nil
  then show ?case by (subst strings_ReplaceAll.simps) (simp add: strings_HasPrefix_def)
next
  case (Cons c a)
  have "\<not> strings_HasPrefix (c # a @ ''leve'') ''level''" using Cons.prems by (simp add: level_free_def)
  then have "\<not> strings_HasPrefix ((c # a @ ''leve'') @ ''l'' @ b) ''level''"
    by (subst HasPrefix_append) simp_all
  then have "\<not> strings_HasPrefix (c # a @ ''level'' @ b) ''level''" by simp
  moreover have "level_free a" using Cons.prems by (simp add: level_free_def)
  ultimately have "strings_ReplaceAll ((c # a) @ ''level'' @ b) ''level'' new =
      c # strings_ReplaceAll (a @ ''level'' @ b) ''level'' new"
    by (subst strings_ReplaceAll.simps) (simp only: append_Cons list.sel list.simps if_False simp_thms)
  then show ?case unfolding Cons.IH [OF \<open>level_free a\<close>] by (simp only: append_Cons)
qed

lemma ReplaceAll_free: "level_free s \<Longrightarrow> strings_ReplaceAll s ''level'' new = s"
  by (rule ReplaceAll_absent) (auto simp: level_free_def Contains_sublist intro: sublist_order.order.trans)

lemma Sprintf_literal: "CHR ''%'' \<notin> set s \<Longrightarrow> Sprintf (s @ t) args = map_option ((@) s) (Sprintf t args)"
proof (induction s)
  case (Cons c s)
  then show ?case
    by (cases "s @ t") (auto simp: option.map_comp comp_def fun_eq_iff)
qed (cases "Sprintf t args"; simp)

lemma Sprintf_verb: "Sprintf (''%s'' @ t) (a # as) = map_option ((@) a) (Sprintf t as)"
  "Sprintf (''%s'' @ t) [] = map_option ((@) ''%!s(MISSING)'') (Sprintf t [])"
  by simp_all

text \<open>
  C37. How the level appears in a line of the log. A pattern with the word \<^verbatim>\<open>level\<close> once and no per cent sign shows the name of the
  level in its place. A pattern without the word is followed by a formatting error, and a second occurrence is
  replaced by one.
\<close>

theorem encode_level_shows:
  assumes "level_free a" "level_free b" "level_free c"
  shows "encode_level name (a @ ''level'' @ b) lvl = Some (a @ name lvl @ b) \<and>
     encode_level name a lvl = Some (a @ ''%!(EXTRA string='' @ name lvl @ '')'') \<and>
     encode_level name (a @ ''level'' @ b @ ''level'' @ c) lvl = Some (a @ name lvl @ b @ ''%!s(MISSING)'' @ c)"
proof (intro conjI)
  have "CHR ''%'' \<notin> set a" "CHR ''%'' \<notin> set b" "CHR ''%'' \<notin> set c" using assms by (simp_all add: level_free_def)
  note lit = Sprintf_literal [OF this(1)] Sprintf_literal [OF this(2)] Sprintf_literal [OF this(3), of "[]", simplified]
    Sprintf_literal [OF this(1), of "[]", simplified] Sprintf_literal [OF this(2), of "[]", simplified]
  show "encode_level name (a @ ''level'' @ b) lvl = Some (a @ name lvl @ b)"
    unfolding encode_level_def Let_def ReplaceAll_level [OF assms(1)] ReplaceAll_free [OF assms(2)] lit Sprintf_verb
    by (simp add: extra_args_def)
  show "encode_level name a lvl = Some (a @ ''%!(EXTRA string='' @ name lvl @ '')'')"
    unfolding encode_level_def Let_def ReplaceAll_free [OF assms(1)] lit by (simp add: extra_args_def)
  show "encode_level name (a @ ''level'' @ b @ ''level'' @ c) lvl = Some (a @ name lvl @ b @ ''%!s(MISSING)'' @ c)"
    unfolding encode_level_def Let_def ReplaceAll_level [OF assms(1)] ReplaceAll_level [OF assms(2)] ReplaceAll_free [OF assms(3)]
      lit Sprintf_verb
    by (simp add: extra_args_def)
qed


theorem encode_level_shows_witness:
  "encode_level (\<lambda>_. ''info'') ''[log level]'' InfoLevel = Some ''[log info]'' \<and>
     encode_level (\<lambda>_. ''info'') ''[]'' InfoLevel = Some ''[]%!(EXTRA string=info)'' \<and>
     encode_level (\<lambda>_. ''info'') ''level level'' InfoLevel = Some ''info %!s(MISSING)''"
proof -
  have free: "level_free ''[log ''" "level_free '']''" "level_free ''[]''" "level_free []" "level_free '' ''" by code_simp+
  show ?thesis
    using encode_level_shows [OF free(1,2,4), of "\<lambda>_. ''info''" InfoLevel] encode_level_shows [OF free(3,4,4), of "\<lambda>_. ''info''" InfoLevel]
      encode_level_shows [OF free(4,5,4), of "\<lambda>_. ''info''" InfoLevel] by simp
qed

section \<open>The file of the log\<close>

text \<open>A path that is clean and its directory: names between slashes, none of them empty or a dot name.\<close>

definition path_name :: "string \<Rightarrow> bool" where
  "path_name s \<longleftrightarrow> s \<noteq> [] \<and> s \<noteq> ''.'' \<and> s \<noteq> ''..'' \<and> CHR ''/'' \<notin> set s"

lemma clean_names: "list_all path_name segs \<Longrightarrow> foldl (clean_step r) st segs = rev segs @ st"
  by (induction segs arbitrary: st) (auto simp: clean_step_def path_name_def)

lemma clean_skip [simp]: "clean_step r st [] = st"
  by (simp add: clean_step_def)

lemma Join_snoc_Nil: "segs \<noteq> [] \<Longrightarrow> strings_Join (segs @ [[]]) sep = strings_Join segs sep @ sep"
  by (induction segs sep rule: strings_Join.induct) auto

lemma Split_dir:
  assumes "list_all path_name segs" "segs \<noteq> []"
  shows "strings_Split CHR ''/'' (strings_Join segs ''/'' @ ''/'') = segs @ [[]]"
proof -
  have "CHR ''/'' \<notin> set x" if "x \<in> set (segs @ [[]])" for x
  proof (cases "x = []")
    case False
    with that assms(1) have "path_name x" by (simp add: list_all_iff)
    then show ?thesis by (simp add: path_name_def)
  qed simp
  from Split_Join [of "segs @ [[]]", OF _ this] show ?thesis by (simp add: Join_snoc_Nil [OF assms(2)])
qed

lemma Dir_file:
  assumes "list_all path_name segs" "segs \<noteq> []" "CHR ''/'' \<notin> set f"
  shows "filepath_Dir (strings_Join segs ''/'' @ ''/'' @ f) = strings_Join segs ''/''"
    and "filepath_Dir (''/'' @ strings_Join segs ''/'' @ ''/'' @ f) = ''/'' @ strings_Join segs ''/''"
proof -
  have drop: "rev (dropWhile (\<lambda>c. c \<noteq> CHR ''/'') (rev (d @ ''/'' @ f))) = d @ ''/''" for d
    using assms(3) by (auto simp: dropWhile_append3)
  obtain c s rest where segs: "segs = (c # s) # rest" "c \<noteq> CHR ''/''"
    using assms(1,2) by (cases segs; cases "hd segs") (auto simp: path_name_def)
  then obtain t where t: "strings_Join segs ''/'' = c # t" by (cases rest) auto
  have "\<not> strings_HasPrefix (strings_Join segs ''/'' @ ''/'') ''/''"
    using segs t by (simp add: HasPrefix_single)
  then show "filepath_Dir (strings_Join segs ''/'' @ ''/'' @ f) = strings_Join segs ''/''"
    unfolding filepath_Dir_def drop filepath_Clean_def Split_dir [OF assms(1,2)]
    using t by (simp add: clean_names [OF assms(1)])
  show "filepath_Dir (''/'' @ strings_Join segs ''/'' @ ''/'' @ f) = ''/'' @ strings_Join segs ''/''"
    using drop [of "''/'' @ strings_Join segs ''/''"] Split_dir [OF assms(1,2)]
    by (simp add: filepath_Dir_def filepath_Clean_def clean_names [OF assms(1)] HasPrefix_single)
qed

text \<open>The characters that a URL carries in its query without being cut or refused.\<close>

definition url_text :: "string \<Rightarrow> bool" where
  "url_text s = list_all (\<lambda>c. c \<noteq> CHR ''#'' \<and> 32 \<le> (of_char c :: nat) \<and> of_char c \<noteq> (127 :: nat)) s"

lemma url_text_append [simp]: "url_text (s @ t) \<longleftrightarrow> url_text s \<and> url_text t"
  by (simp add: url_text_def)

lemma url_text_int: "url_text (int_text i)"
proof -
  have "c \<noteq> CHR ''#'' \<and> 32 \<le> (of_char c :: nat) \<and> of_char c \<noteq> (127 :: nat)" if "is_digit c \<or> c = CHR ''-''" for c
    using that by (auto simp: is_digit_def)
  then have "url_text (nat_digits n)" for n
    using nat_digits_ok [of n] by (auto simp: url_text_def list_all_iff)
  then show ?thesis by (simp add: int_text_def url_text_def)
qed

lemma url_text_URLEncode: "url_text (URLEncode s)"
proof -
  have table: "list_all (\<lambda>c. to_url c \<noteq> CHR ''#'' \<and> 32 \<le> (of_char (to_url c) :: nat) \<and> of_char (to_url c) \<noteq> (127 :: nat))
      (pad # b64_alphabet)" by code_simp
  have "list_all (\<lambda>n. n < 256) (map of_char s :: nat list)" by (simp add: list_all_iff)
  from b64_encode_chars [OF this] have "set (EncodeToString s) \<subseteq> insert pad (set b64_alphabet)"
    by (simp add: EncodeToString_def)
  then show ?thesis using table unfolding url_text_def URLEncode_def list_all_iff by auto
qed

lemma url_text_config:
  assumes "url_text (Level c)" "url_text (Encoding c)"
  shows "url_text (LogConfig_String c)"
  unfolding LogConfig_String_def bool_text_def
  using assms url_text_int url_text_URLEncode by (simp add: url_text_def)

lemma url_Parse_opaque:
  assumes "url_text q"
  shows "url_Parse (''lumberjack:?'' @ q) = Some \<lparr>Scheme = ''lumberjack'', Opaque = [], RawQuery = q\<rparr>"
proof -
  have tw: "takeWhile (\<lambda>c. c \<noteq> CHR ''#'') q = q"
    using assms by (simp add: url_text_def list_all_iff takeWhile_eq_all_conv)
  have "strings_ToLower ''lumberjack'' = ''lumberjack''" by code_simp
  then show ?thesis
    using assms by (simp add: tw url_Parse_def Let_def scheme_char_def strings_HasPrefix_def url_text_def list_all_iff)
qed

text \<open>
  C35. A log file that is configured is the file that is written. The last output path that \<^verbatim>\<open>Init\<close> gives the library is a URL of the scheme
  that the package registers; the hook of that scheme, called with the parsed URL, creates the directory of the file (here given as
  names between slashes) and opens a rotating file with the configured name, age, size, number of backups and compression.
\<close>

theorem configured_file_is_written:
  assumes "Filename c = ''/'' @ strings_Join dirs ''/'' @ ''/'' @ file" "list_all path_name dirs" "dirs \<noteq> []" "CHR ''/'' \<notin> set file"
    and "plain_text (Level c)" "url_text (Level c)" "plain_text (Encoding c)" "url_text (Encoding c)"
    and "- (2 ^ 63) \<le> MaxAge c" "MaxAge c < 2 ^ 63" "- (2 ^ 63) \<le> MaxSize c" "MaxSize c < 2 ^ 63"
      "- (2 ^ 63) \<le> MaxBackups c" "MaxBackups c < 2 ^ 63"
    and "MkdirAll (''/'' @ strings_Join dirs ''/'') fs = (None, fs')"
  shows "\<exists>u. url_Parse (last (zc_OutputPaths (zap_config_of z c))) = Some u \<and> Scheme u = ''lumberjack'' \<and>
     newFileHook MkdirAll u fs =
       (Inr \<lparr>lj_Compress = Compress c, lj_Filename = Filename c, lj_MaxAge = MaxAge c, lj_MaxSize = MaxSize c,
          lj_MaxBackups = MaxBackups c\<rparr>, fs')"
proof -
  have name: "Filename c \<noteq> []" using assms(1) by simp
  have "last (zc_OutputPaths (zap_config_of z c)) = ''lumberjack:?'' @ LogConfig_String c"
    using name by (simp add: zap_config_of_def Let_def)
  moreover note url_Parse_opaque [OF url_text_config [OF assms(6,8)]]
  moreover have "FromURL (LogConfig_String c) = Inr (c\<lparr>EncodeTime := [], EncodeLevel := []\<rparr>)"
    using assms(5,7,9-14) by (rule FromURL_String)
  ultimately show ?thesis
    using Dir_file(2) [OF assms(2-4)] assms(1,15) by (simp add: newFileHook_def)
qed

theorem configured_file_is_written_witness:
  "\<forall>z. \<exists>u. url_Parse (last (zc_OutputPaths (zap_config_of (z :: ('t, 's, 'f, 'l) zap_lib) (demo_log\<lparr>Filename := ''/var/log/a.log''\<rparr>)))) = Some u \<and>
     Scheme u = ''lumberjack'' \<and>
     newFileHook (\<lambda>d fs. (None, d # fs)) u [] =
       (Inr \<lparr>lj_Compress = True, lj_Filename = ''/var/log/a.log'', lj_MaxAge = 15, lj_MaxSize = 50, lj_MaxBackups = 15\<rparr>,
        [''/var/log''])"
  (is "\<forall>z. ?written z")
proof
  fix z :: "('t, 's, 'f, 'l) zap_lib"
  show "?written z"
    using configured_file_is_written [of "demo_log\<lparr>Filename := ''/var/log/a.log''\<rparr>" "[''var'', ''log'']" "''a.log''"
      "\<lambda>d fs. (None, d # fs)" "[]" "[''/var/log'']" z]
    by (simp add: demo_log_def path_name_def plain_text_def url_text_def)
qed

text \<open>\<open>Init\<close> installs the logger it returns, and only when it could be built; a level that is not known gives the level info and a warning.\<close>

lemma logger_Init_installs:
  "logger_Init z cfg fs g = (r, g') \<Longrightarrow>
     (case r of Inr l \<Rightarrow> global g' = l | Inl e \<Rightarrow> global g' = global g) \<and> sinks g' = sinks g \<and>
     (logged g' = logged g \<longleftrightarrow> known_level (Level cfg))"
  by (auto simp: logger_Init_def Let_def parseLevel_warn_def split: sum.splits if_splits)

lemma unknown_level_info: "\<not> known_level lvl \<Longrightarrow> parseLevel lvl = InfoLevel"
  by (simp add: known_level_def parseLevel_def Let_def)

end
