(* ===== verification/Mock_Flow.thy ===== *)
theory Mock_Flow
  imports Baetyl_Prelude "HOL-Library.Multiset"
begin

text \<open>
  The scripted connections of package \<^verbatim>\<open>mock\<close>: \<^verbatim>\<open>mock/msg_flow.go\<close>. A flow is a list of actions that is run against a
  connection. A connection is its three methods over a state of its own; how \<^verbatim>\<open>fmt\<close> prints packets and
  their types is an argument.
\<close>

section \<open>Connections\<close>

record ('s, 'p) Conn =
  conn_Send :: "'s \<Rightarrow> 'p \<Rightarrow> string option \<times> 's"
  conn_Receive :: "'s \<Rightarrow> ('p option \<times> string option) \<times> 's"
  conn_Close :: "'s \<Rightarrow> string option \<times> 's"

text \<open>
  The pipe hands a packet from a sender to a receiver without a buffer. A call is told what its partner offers at that
  time; \<open>pick\<close> is the choice of \<^verbatim>\<open>select\<close> when both cases are ready. \<open>None\<close> is a call that blocks, or for \<^verbatim>\<open>Close\<close> the
  panic of closing twice.
\<close>

record Pipe =
  pipe_closed :: bool

definition NewPipe :: Pipe where
  "NewPipe = \<lparr>pipe_closed = False\<rparr>"

definition Pipe_Send :: "Pipe \<Rightarrow> bool \<Rightarrow> bool \<Rightarrow> string option option" where
  "Pipe_Send conn receiver pick =
     (if receiver \<and> (\<not> pipe_closed conn \<or> pick) then Some None
      else if pipe_closed conn then Some (Some ''closed'') else None)"

definition Pipe_Receive :: "Pipe \<Rightarrow> 'p option \<Rightarrow> bool \<Rightarrow> ('p option \<times> string option) option" where
  "Pipe_Receive conn sender pick =
     (if sender \<noteq> None \<and> (\<not> pipe_closed conn \<or> pick) then Some (sender, None)
      else if pipe_closed conn then Some (None, Some ''EOF'') else None)"

definition Pipe_Close :: "Pipe \<Rightarrow> Pipe option" where
  "Pipe_Close conn = (if pipe_closed conn then None else Some (conn\<lparr>pipe_closed := True\<rparr>))"

section \<open>Flows\<close>

datatype ('s, 'p) action =
    ActionSend "'p list"
  | ActionReceive "'p list"
  | ActionSkip "'p list"
  | ActionRun "'s \<Rightarrow> 's"
  | ActionClose
  | ActionEnd

record ('s, 'p) Flow =
  debug :: bool
  actions :: "('s, 'p) action list"

definition NewFlow :: "('s, 'p) Flow" where
  "NewFlow = \<lparr>debug = False, actions = []\<rparr>"

definition flow_add :: "('s, 'p) Flow \<Rightarrow> ('s, 'p) action \<Rightarrow> ('s, 'p) Flow" where
  "flow_add f a = f\<lparr>actions := actions f @ [a]\<rparr>"

definition Flow_Debug where "Flow_Debug f = f\<lparr>debug := True\<rparr>"

definition Flow_Send where "Flow_Send f pkts = flow_add f (ActionSend pkts)"

definition Flow_Receive where "Flow_Receive f pkts = flow_add f (ActionReceive pkts)"

definition Flow_Skip where "Flow_Skip f pkts = flow_add f (ActionSkip pkts)"

definition Flow_Run where "Flow_Run f fn = flow_add f (ActionRun fn)"

definition Flow_Close where "Flow_Close f = flow_add f ActionClose"

definition Flow_End where "Flow_End f = flow_add f ActionEnd"

fun send_all :: "('s, 'p) Conn \<Rightarrow> 's \<Rightarrow> 'p list \<Rightarrow> string option \<times> 's" where
  "send_all conn st [] = (None, st)"
| "send_all conn st (pkt # pkts) =
     (case conn_Send conn st pkt of
        (Some e, st') \<Rightarrow> (Some (''error sending packet: '' @ e), st')
      | (None, st') \<Rightarrow> send_all conn st' pkts)"

text \<open>
  The loop of \<^verbatim>\<open>Receive\<close> and \<^verbatim>\<open>Skip\<close>: the texts still expected, the text of a packet, the two error messages. A nil packet is printed as
  any other; \<open>text_of\<close> gives its text too. \<open>fmt_v\<close>, \<open>fmt_q\<close> and \<open>fmt_T\<close> below are the verbs of the printing package.
\<close>

function receive_loop ::
  "('s, 'p) Conn \<Rightarrow> ('p option \<Rightarrow> string) \<Rightarrow> (string \<Rightarrow> string) \<Rightarrow> ('p option \<Rightarrow> string) \<Rightarrow> 's \<Rightarrow> string list \<Rightarrow>
     string option \<times> 's" where
  "receive_loop conn text_of failed unexpected st store =
     (if store = [] then (None, st)
      else case conn_Receive conn st of
             ((pkt, Some e), st') \<Rightarrow> (Some (failed e), st')
           | ((pkt, None), st') \<Rightarrow>
               if text_of pkt \<in> set store
               then receive_loop conn text_of failed unexpected st' (remove1 (text_of pkt) store)
               else (Some (unexpected pkt), st'))"
  by auto
termination
  by (relation "measure (\<lambda>(conn, text_of, f, u, st, store). length store)") (auto simp: length_remove1)

declare receive_loop.simps [simp del]

definition flow_test ::
  "('p option \<Rightarrow> string) \<Rightarrow> ('p option \<Rightarrow> string) \<Rightarrow> ('p option \<Rightarrow> string) \<Rightarrow> ('s, 'p) Conn \<Rightarrow> 's \<Rightarrow> ('s, 'p) action \<Rightarrow> string option \<times> 's" where
  "flow_test fmt_v fmt_q fmt_T conn st action =
     (case action of
        ActionSend pkts \<Rightarrow> send_all conn st pkts
      | ActionReceive pkts \<Rightarrow>
          receive_loop conn fmt_v (\<lambda>e. ''expected to receive a packet but got error: '' @ e)
            (\<lambda>p. ''unexpected packet '' @ fmt_q p) st (map (fmt_v \<circ> Some) pkts)
      | ActionSkip pkts \<Rightarrow>
          receive_loop conn fmt_T (\<lambda>e. ''expected to skip over a received packet but got error: '' @ e)
            (\<lambda>p. ''unexpected to receive a packet of type '' @ fmt_T p) st (map (fmt_T \<circ> Some) pkts)
      | ActionRun fn \<Rightarrow> (None, fn st)
      | ActionClose \<Rightarrow>
          (case conn_Close conn st of
             (Some e, st') \<Rightarrow> (Some (''expected connection to close successfully but got error: '' @ e), st')
           | (None, st') \<Rightarrow> (None, st'))
      | ActionEnd \<Rightarrow>
          (case conn_Receive conn st of
             ((pkt, err), st') \<Rightarrow>
               (case err of
                  Some e \<Rightarrow>
                    if \<not> strings_Contains e ''EOF'' then (Some (''expected EOF but got '' @ e), st')
                    else if pkt \<noteq> None then (Some (''expected no packet but got '' @ fmt_v pkt), st') else (None, st')
                | None \<Rightarrow> if pkt \<noteq> None then (Some (''expected no packet but got '' @ fmt_v pkt), st') else (None, st'))))"

fun test_all ::
  "('p option \<Rightarrow> string) \<Rightarrow> ('p option \<Rightarrow> string) \<Rightarrow> ('p option \<Rightarrow> string) \<Rightarrow> ('s, 'p) Conn \<Rightarrow> 's \<Rightarrow> ('s, 'p) action list \<Rightarrow> string option \<times> 's" where
  "test_all fmt_v fmt_q fmt_T conn st [] = (None, st)"
| "test_all fmt_v fmt_q fmt_T conn st (a # as) =
     (case flow_test fmt_v fmt_q fmt_T conn st a of
        (Some e, st') \<Rightarrow> (Some e, st')
      | (None, st') \<Rightarrow> test_all fmt_v fmt_q fmt_T conn st' as)"

definition Flow_Test where
  "Flow_Test fmt_v fmt_q fmt_T f conn st = test_all fmt_v fmt_q fmt_T conn st (actions f)"

text \<open>
  \<^verbatim>\<open>TestAsync\<close>: the value of \<^verbatim>\<open>errCh <- f.Test(conn)\<close> is computed before \<^verbatim>\<open>select\<close> chooses. The result is the time at which
  something is sent on the channel, and what: \<open>test\<close> is the duration and the result of the test, or
  \<open>None\<close> if it does not return; \<open>pick\<close> the choice when the timer has fired too.
\<close>

definition TestAsync :: "(int \<times> string option) option \<Rightarrow> int \<Rightarrow> bool \<Rightarrow> (int \<times> string option) option" where
  "TestAsync test timeout pick =
     map_option (\<lambda>(duration, err).
       (duration, if timeout \<le> duration \<and> pick then Some ''timed out waiting for flow to complete'' else err)) test"

section \<open>Receiving out of order\<close>

text \<open>\<open>delivers conn st pkts st'\<close>: receiving from \<open>st\<close> gives these packets without an error and ends in \<open>st'\<close>.\<close>

fun delivers :: "('s, 'p) Conn \<Rightarrow> 's \<Rightarrow> 'p option list \<Rightarrow> 's \<Rightarrow> bool" where
  "delivers conn st [] st' \<longleftrightarrow> st = st'"
| "delivers conn st (p # ps) st' \<longleftrightarrow>
     (\<exists>st1. conn_Receive conn st = ((p, None), st1) \<and> delivers conn st1 ps st')"

lemma delivers_head:
  assumes recv: "conn_Receive conn st = ((pkt, err), st1)" and store: "store \<noteq> []"
  shows "(\<exists>pkts. delivers conn st pkts st' \<and> mset (map text_of pkts) = mset store) \<longleftrightarrow>
      err = None \<and> text_of pkt \<in> set store \<and>
      (\<exists>ps. delivers conn st1 ps st' \<and> mset (map text_of ps) = mset (remove1 (text_of pkt) store))"
proof
  assume "\<exists>pkts. delivers conn st pkts st' \<and> mset (map text_of pkts) = mset store"
  then obtain pkts where pkts: "delivers conn st pkts st'" "mset (map text_of pkts) = mset store" by blast
  with store obtain p ps where p: "pkts = p # ps" by (cases pkts) auto
  with pkts recv have "err = None" "p = pkt" "delivers conn st1 ps st'" by auto
  moreover have store_eq: "mset store = add_mset (text_of pkt) (mset (map text_of ps))"
    using pkts(2) by (simp add: p \<open>p = pkt\<close>)
  then have "text_of pkt \<in># mset store" by simp
  then have "text_of pkt \<in> set store" by simp
  moreover have "mset (map text_of ps) = mset (remove1 (text_of pkt) store)"
    by (simp add: store_eq)
  ultimately show "err = None \<and> text_of pkt \<in> set store \<and>
      (\<exists>ps. delivers conn st1 ps st' \<and> mset (map text_of ps) = mset (remove1 (text_of pkt) store))" by blast
next
  assume "err = None \<and> text_of pkt \<in> set store \<and>
      (\<exists>ps. delivers conn st1 ps st' \<and> mset (map text_of ps) = mset (remove1 (text_of pkt) store))"
  then obtain ps where ps: "err = None" "text_of pkt \<in> set store" "delivers conn st1 ps st'"
    "mset (map text_of ps) = mset (remove1 (text_of pkt) store)" by blast
  then have "mset (map text_of (pkt # ps)) = mset store" by simp
  with ps recv show "\<exists>pkts. delivers conn st pkts st' \<and> mset (map text_of pkts) = mset store"
    by (metis delivers.simps(2))
qed

lemma receive_loop_perm:
  "receive_loop conn text_of failed unexpected st store = (None, st') \<longleftrightarrow>
     (\<exists>pkts. delivers conn st pkts st' \<and> mset (map text_of pkts) = mset store)"
proof (induction conn text_of failed unexpected st store rule: receive_loop.induct)
  case (1 conn text_of failed unexpected st store)
  obtain pkt err st1 where recv: "conn_Receive conn st = ((pkt, err), st1)"
    by (metis surj_pair)
  show ?case
  proof (cases "store = []")
    case True
    then show ?thesis by (auto simp: receive_loop.simps [of conn text_of failed unexpected st] intro: exI [of _ "[]"])
  next
    case store: False
    note head = delivers_head [OF recv store, of st' text_of]
    show ?thesis
    proof (cases "err = None \<and> text_of pkt \<in> set store")
      case True
      then show ?thesis
        using 1 [OF store recv [symmetric]] head store recv
        by (simp add: receive_loop.simps [of conn text_of failed unexpected st])
    next
      case False
      then show ?thesis
        using head store recv by (auto simp: receive_loop.simps [of conn text_of failed unexpected st] split: option.splits)
    qed
  qed
qed

text \<open>
  Receiving is matching up to order. An action that expects packets succeeds exactly when the connection
  delivers, without an error, as many packets as expected whose texts are the expected texts in some order; it then
  has taken exactly those from the connection. The loop always ends.
\<close>

theorem receive_matches_permutation:
  "flow_test fmt_v fmt_q fmt_T conn st (ActionReceive pkts) = (None, st') \<longleftrightarrow>
     (\<exists>rs. delivers conn st rs st' \<and> mset (map fmt_v rs) = mset (map (fmt_v \<circ> Some) pkts))"
  by (simp add: flow_test_def receive_loop_perm)

text \<open>The timeout of an asynchronous test never cuts a test short: nothing is sent before the test returns.\<close>

lemma TestAsync_waits:
  "TestAsync None timeout pick = None"
  "TestAsync (Some (duration, err)) timeout pick = Some (t, r) \<Longrightarrow> t = duration"
  by (auto simp: TestAsync_def)

end
