(* ===== verification/Mock_Http.thy ===== *)
theory Mock_Http
  imports Baetyl_Prelude
begin

text \<open>
  The scripted HTTP server of package \<^verbatim>\<open>mock\<close>: \<^verbatim>\<open>mock/http_server.go\<close>. A server is given a list of responses; its handler plays them one after the
  other and answers with an empty success when there is none left. The handler runs in one goroutine per connection
  and takes no lock, so it is modelled twice: as one operation, and as the reads and writes of several handlers.
\<close>

section \<open>The server\<close>

record Response =
  status :: int
  body :: string

definition NewResponse :: "int \<Rightarrow> string \<Rightarrow> Response" where
  "NewResponse s b = \<lparr>status = s, body = b\<rparr>"

record 'tls Server =
  tlsConfig :: "'tls option"
  responses :: "Response list"
  uses_tls :: bool

definition NewServer :: "'tls option \<Rightarrow> Response list \<Rightarrow> 'tls Server" where
  "NewServer tc rs = \<lparr>tlsConfig = tc, responses = rs, uses_tls = (tc \<noteq> None)\<rparr>"

lemma NewServer_responses: "responses (NewServer tc rs) = rs"
  by (simp add: NewServer_def)

text \<open>\<^verbatim>\<open>WriteHeader\<close> panics on a code that has not three digits; some codes have no body.\<close>

definition valid_code :: "int \<Rightarrow> bool" where
  "valid_code c \<longleftrightarrow> 100 \<le> c \<and> c \<le> 999"

definition bodyAllowed :: "int \<Rightarrow> bool" where
  "bodyAllowed c \<longleftrightarrow> \<not> (100 \<le> c \<and> c \<le> 199) \<and> c \<noteq> 204 \<and> c \<noteq> 304"

type_synonym reply = "int \<times> string"

definition reply_of :: "Response \<Rightarrow> reply" where
  "reply_of r = (status r, if bodyAllowed (status r) then body r else [])"

text \<open>\<open>None\<close> is the panic of the handler: the connection is closed without an answer.\<close>

definition handler :: "'tls Server \<Rightarrow> reply option \<times> 'tls Server" where
  "handler s =
     (case responses s of
        [] \<Rightarrow> (Some (200, []), s)
      | r # rs \<Rightarrow> if valid_code (status r) then (Some (reply_of r), s\<lparr>responses := rs\<rparr>) else (None, s))"

fun requests :: "nat \<Rightarrow> 'tls Server \<Rightarrow> reply option list \<times> 'tls Server" where
  "requests 0 s = ([], s)"
| "requests (Suc n) s = (case handler s of (r, s') \<Rightarrow> (case requests n s' of (rs, t) \<Rightarrow> (r # rs, t)))"

text \<open>
  The scripted server plays its script. Requests that do not overlap are answered with the given responses in their order, and with
  an empty success after the last one. A response whose code is not valid answers nothing and is never passed: it and all later requests fail.
\<close>

theorem responses_in_order:
  "fst (requests n (NewServer tc rs)) =
     (case find (\<lambda>k. \<not> valid_code (status (rs ! k))) [0..<length rs] of
        None \<Rightarrow> map (Some \<circ> reply_of) (take n rs) @ replicate (n - length rs) (Some (200, []))
      | Some k \<Rightarrow> map (Some \<circ> reply_of) (take n (take k rs)) @ replicate (n - k) None)"
proof -
  have "fst (requests n s) =
      (case find (\<lambda>k. \<not> valid_code (status (responses s ! k))) [0..<length (responses s)] of
         None \<Rightarrow> map (Some \<circ> reply_of) (take n (responses s)) @ replicate (n - length (responses s)) (Some (200, []))
       | Some k \<Rightarrow> map (Some \<circ> reply_of) (take n (take k (responses s))) @ replicate (n - k) None)" for s :: "'a Server"
  proof (induction n arbitrary: s)
    case 0
    then show ?case by (simp split: option.split)
  next
    case (Suc n)
    show ?case
    proof (cases "responses s")
      case Nil
      with Suc.IH [of s] show ?thesis by (simp add: handler_def split_beta)
    next
      case (Cons r rs)
      have upt: "[0..<length (r # rs)] = 0 # map Suc [0..<length rs]"
        by (simp add: upt_conv_Cons map_Suc_upt del: upt_Suc)
      show ?thesis
      proof (cases "valid_code (status r)")
        case True
        with Cons have h: "handler s = (Some (reply_of r), s\<lparr>responses := rs\<rparr>)" by (simp add: handler_def)
        from True Suc.IH [of "s\<lparr>responses := rs\<rparr>"] show ?thesis
          unfolding Cons upt by (simp add: h split_beta find_map_comp comp_def split: option.split)
      next
        case False
        with Cons have h: "handler s = (None, s)" by (simp add: handler_def)
        from False Suc.IH [of s] show ?thesis unfolding Cons upt by (simp add: h split_beta)
      qed
    qed
  qed
  from this [of "NewServer tc rs"] show ?thesis unfolding NewServer_responses .
qed

section \<open>Overlapping requests\<close>

text \<open>The reads and writes of a handler: the length check, the status line, the body, the shortening of the slice.\<close>

datatype handler_pc = Checking | Heading | Writing int | Shortening int string | Finished | Panicked

record race =
  script :: "Response list"
  pcs :: "handler_pc list"
  replies :: "(nat \<times> reply) list"

definition handler_step :: "nat \<Rightarrow> race \<Rightarrow> race" where
  "handler_step i s =
     (case pcs s ! i of
        Checking \<Rightarrow>
          if script s = [] then s\<lparr>pcs := (pcs s)[i := Finished], replies := replies s @ [(i, 200, [])]\<rparr>
          else s\<lparr>pcs := (pcs s)[i := Heading]\<rparr>
      | Heading \<Rightarrow>
          (case script s of [] \<Rightarrow> s\<lparr>pcs := (pcs s)[i := Panicked]\<rparr> | r # _ \<Rightarrow> s\<lparr>pcs := (pcs s)[i := Writing (status r)]\<rparr>)
      | Writing c \<Rightarrow>
          (case script s of [] \<Rightarrow> s\<lparr>pcs := (pcs s)[i := Panicked]\<rparr> | r # _ \<Rightarrow> s\<lparr>pcs := (pcs s)[i := Shortening c (body r)]\<rparr>)
      | Shortening c b \<Rightarrow>
          (case script s of
             [] \<Rightarrow> s\<lparr>pcs := (pcs s)[i := Panicked]\<rparr>
           | _ # rs \<Rightarrow> s\<lparr>script := rs, pcs := (pcs s)[i := Finished], replies := replies s @ [(i, c, b)]\<rparr>)
      | _ \<Rightarrow> s)"

definition race_run :: "nat list \<Rightarrow> race \<Rightarrow> race" where
  "race_run sched s = foldl (\<lambda>s i. handler_step i s) s sched"

text \<open>Two requests at a time: both may get the first response while the second one is never sent, and a single response may make one of them panic.\<close>

lemma overlapping_requests:
  "replies (race_run [0, 1, 0, 1, 0, 1, 0, 1] \<lparr>script = [NewResponse 200 ''a'', NewResponse 200 ''b''], pcs = [Checking, Checking], replies = []\<rparr>) =
     [(0, 200, ''a''), (1, 200, ''a'')]"
  "pcs (race_run [0, 1, 0, 0, 0, 1] \<lparr>script = [NewResponse 200 ''a''], pcs = [Checking, Checking], replies = []\<rparr>) = [Finished, Panicked]"
  by code_simp+

end
