(* ===== verification/Issue_Tool.thy ===== *)
theory Issue_Tool
  imports Pki
begin

text \<open>
  The command line tool that issues a set of test certificates: \<^verbatim>\<open>tools/issue_certificate.go\<close>. What it prints is left
  out; the files it writes are a list of names and contents, and the error of each write is an argument.
\<close>

record AltNames =
  alt_DNSNames :: "string list"
  alt_IPs :: "string list"
  alt_Emails :: "string list"
  alt_URIs :: "string list"

definition genCsr :: "'pub \<Rightarrow> string \<Rightarrow> AltNames \<Rightarrow> 'pub CertificateRequest" where
  "genCsr no_key cn alt =
     \<lparr>csr_Raw = [],
      csr_Subject = \<lparr>Country = [''CN''], Organization = [''Linux Foundation Edge''], OrganizationalUnit = [''BAETYL''],
        Locality = [''Haidian District''], Province = [''Beijing''], StreetAddress = [''Baidu Campus''],
        PostalCode = [''100093''], CommonName = cn\<rparr>,
      csr_EmailAddresses = alt_Emails alt, csr_IPAddresses = alt_IPs alt, csr_URIs = alt_URIs alt,
      csr_DNSNames = alt_DNSNames alt, csr_PublicKey = no_key\<rparr>"

definition local_ips :: AltNames where
  "local_ips = \<lparr>alt_DNSNames = [], alt_IPs = [''0.0.0.0'', ''127.0.0.1''], alt_Emails = [], alt_URIs = []\<rparr>"

text \<open>\<open>no_key\<close> is the nil public key of a request; \<open>t\<close> gives the two clock readings and the randomness of each call.\<close>

type_synonym call_env = "nat \<Rightarrow> nat \<times> int \<times> int"

definition createRoot :: "'pub pki_env \<Rightarrow> 'pub \<Rightarrow> nat \<times> int \<times> int \<Rightarrow> CertPem pki_result" where
  "createRoot env no_key t =
     (case t of (seed, begin, now) \<Rightarrow>
        CreateSelfSignedRootCert env seed begin now (genCsr no_key ''root.ca'' local_ips) (50 * 365))"

definition createSub ::
  "'pub pki_env \<Rightarrow> 'pub \<Rightarrow> nat \<times> int \<times> int \<Rightarrow> string \<Rightarrow> AltNames \<Rightarrow> CertPem \<Rightarrow> CertPem pki_result" where
  "createSub env no_key t cn alt parent =
     (case t of (seed, begin, now) \<Rightarrow>
        CreateSubCertWithKey env seed begin now (genCsr no_key cn alt) (20 * 365) (Some parent))"

text \<open>\<open>write\<close> writes the pairs in order until one fails.\<close>

fun write_files :: "(string \<Rightarrow> string option) \<Rightarrow> (string \<times> string) list \<Rightarrow> string option \<times> (string \<times> string) list" where
  "write_files werr [] = (None, [])"
| "write_files werr ((f, c) # fs) =
     (case werr f of
        Some e \<Rightarrow> (Some e, [])
      | None \<Rightarrow> (let (err, ws) = write_files werr fs in (err, (f, c) # ws)))"

definition pem_files :: "string \<Rightarrow> CertPem \<Rightarrow> (string \<times> string) list" where
  "pem_files name pem = [(''output/'' @ name @ ''.crt'', Crt pem), (''output/'' @ name @ ''.key'', KeyPem pem)]"

text \<open>\<open>step\<close>: create a pair, write its files, go on with it; the result is the error and all files written.\<close>

definition issue_step ::
  "(string \<Rightarrow> string option) \<Rightarrow> string \<Rightarrow> CertPem pki_result \<Rightarrow>
     (CertPem \<Rightarrow> pki_error option \<times> (string \<times> string) list) \<Rightarrow> pki_error option \<times> (string \<times> string) list" where
  "issue_step werr name created cont =
     (case created of
        Inl e \<Rightarrow> (Some e, [])
      | Inr pem \<Rightarrow>
          (case write_files werr (pem_files name pem) of
             (Some e, ws) \<Rightarrow> (Some (PkiErr e), ws)
           | (None, ws) \<Rightarrow> (let (err, ws') = cont pem in (err, ws @ ws'))))"

definition issueCert ::
  "'pub pki_env \<Rightarrow> 'pub \<Rightarrow> call_env \<Rightarrow> (string \<Rightarrow> string option) \<Rightarrow> pki_error option \<times> (string \<times> string) list" where
  "issueCert env no_key t werr =
     issue_step werr ''ca'' (createRoot env no_key (t 0)) (\<lambda>ca.
     issue_step werr ''client'' (createSub env no_key (t 1) ''client'' local_ips ca) (\<lambda>_.
     issue_step werr ''server'' (createSub env no_key (t 2) ''server'' (local_ips\<lparr>alt_DNSNames := [''localhost'']\<rparr>) ca) (\<lambda>_.
     (None, []))))"

section \<open>The files fit together\<close>

lemma write_files_ok: "write_files werr fs = (None, ws) \<Longrightarrow> ws = fs"
proof (induction fs arbitrary: ws)
  case (Cons fc fs)
  then show ?case by (cases fc) (auto split: option.splits prod.splits)
qed simp

lemma issue_step_ok:
  "issue_step werr name created cont = (None, ws) \<longleftrightarrow>
     (\<exists>pem ws'. created = Inr pem \<and> write_files werr (pem_files name pem) = (None, pem_files name pem) \<and>
        cont pem = (None, ws') \<and> ws = pem_files name pem @ ws')"
  by (auto simp: issue_step_def dest: write_files_ok split: sum.splits prod.splits option.splits)

text \<open>The program: what it prints, its exit status, and the files it leaves.\<close>

definition tool_main where
  "tool_main env no_key t werr =
     (case issueCert env no_key t werr of
        (None, files) \<Rightarrow> ([], 0 :: nat, files)
      | (Some e, files) \<Rightarrow> ([e], 1, files))"

lemma tool_main_status:
  "fst (snd (tool_main env no_key t werr)) = 0 \<longleftrightarrow> fst (issueCert env no_key t werr) = None"
  "snd (snd (tool_main env no_key t werr)) = snd (issueCert env no_key t werr)"
  by (simp_all add: tool_main_def split: prod.split option.split)

text \<open>
  The tool issues a usable set of files. When it ends without an error it has written six files: certificate and key of an
  authority, of a client and of a server. They parse; the client's and the server's certificates are
  signed by the key of the authority and name it as their issuer; each key belongs to its certificate; their organizational unit is
  \<^verbatim>\<open>BAETYL\<close>, which the system check of the context asks for; and the server's certificate is for \<^verbatim>\<open>localhost\<close>.
\<close>

theorem issueCert_files:
  assumes laws: "pem_laws env" "key_laws env" "x509_laws env Public signed_by"
    and ok: "issueCert env no_key t werr = (None, files)"
  shows "\<exists>ca client server xca xcl xsv kca kcl ksv.
     files = pem_files ''ca'' ca @ pem_files ''client'' client @ pem_files ''server'' server \<and>
     issued env Public ca xca kca \<and> issued env Public client xcl kcl \<and> issued env Public server xsv ksv \<and>
     signed_by xca (Public (KeyVal kca)) \<and> signed_by xcl (Public (KeyVal kca)) \<and> signed_by xsv (Public (KeyVal kca)) \<and>
     Issuer xcl = Subject (Body xca) \<and> Issuer xsv = Subject (Body xca) \<and>
     CommonName (Subject (Body xcl)) = ''client'' \<and> CommonName (Subject (Body xsv)) = ''server'' \<and>
     OrganizationalUnit (Subject (Body xcl)) = [''BAETYL''] \<and> OrganizationalUnit (Subject (Body xsv)) = [''BAETYL''] \<and>
     DNSNames (Body xsv) = [''localhost'']"
proof -
  obtain ca client server where
    ca: "createRoot env no_key (t 0) = Inr ca" and
    client: "createSub env no_key (t 1) ''client'' local_ips ca = Inr client" and
    server: "createSub env no_key (t 2) ''server'' (local_ips\<lparr>alt_DNSNames := [''localhost'']\<rparr>) ca = Inr server" and
    files: "files = pem_files ''ca'' ca @ pem_files ''client'' client @ pem_files ''server'' server"
    using ok by (auto simp: issueCert_def issue_step_ok)
  obtain xca kca where xca: "issued env Public ca xca kca" "signed_by xca (Public (KeyVal kca))"
    using ca self_signed_issued [OF laws] by (fastforce simp: createRoot_def split: prod.splits)
  have sub: "\<exists>c k. issued env Public pem c k \<and> signed_by c (Public (KeyVal kca)) \<and> Issuer c = Subject (Body xca) \<and>
      CommonName (Subject (Body c)) = cn \<and> OrganizationalUnit (Subject (Body c)) = [''BAETYL''] \<and> DNSNames (Body c) = alt_DNSNames alt"
    if "createSub env no_key s cn alt ca = Inr pem" for s cn alt pem
  proof -
    obtain seed start now where s: "s = (seed, start, now)" by (cases s)
    with that have "CreateSubCertWithKey env seed start now (genCsr no_key cn alt) (20 * 365) (Some ca) = Inr pem"
      by (simp add: createSub_def)
    from sub_cert_issued [OF laws this xca(1)] show ?thesis
      by (auto simp: same_names_def genCsr_def sub_template_def cut_times_def)
  qed
  from sub [OF client] obtain xcl kcl where cl: "issued env Public client xcl kcl" "signed_by xcl (Public (KeyVal kca))"
    "Issuer xcl = Subject (Body xca)" "CommonName (Subject (Body xcl)) = ''client''"
    "OrganizationalUnit (Subject (Body xcl)) = [''BAETYL'']" by blast
  from sub [OF server] obtain xsv ksv where sv: "issued env Public server xsv ksv" "signed_by xsv (Public (KeyVal kca))"
    "Issuer xsv = Subject (Body xca)" "CommonName (Subject (Body xsv)) = ''server''"
    "OrganizationalUnit (Subject (Body xsv)) = [''BAETYL'']" "DNSNames (Body xsv) = [''localhost'']" by auto
  show ?thesis using files xca cl sv by blast
qed

section \<open>An instance\<close>

text \<open>The small crypto instance of the authority, with the three requests and certificates of the tool.\<close>

definition tool_info :: "nat \<Rightarrow> nat CertificateRequest" where
  "tool_info n =
     (if n = 1 then genCsr 0 ''root.ca'' local_ips else if n = 2 then genCsr 0 ''client'' local_ips
      else genCsr 0 ''server'' (local_ips\<lparr>alt_DNSNames := [''localhost'']\<rparr>))"

definition tool_template :: "nat \<Rightarrow> nat x509_Certificate" where
  "tool_template n =
     (if n = 1 then root_template toy_base (tool_info 1) (50 * 365) 0 0 ECDSAWithSHA256
      else sub_template toy_base (tool_info n) (20 * 365) 0 0 ECDSAWithSHA256)"

definition tool_cert :: "nat \<Rightarrow> nat x509_Certificate" where
  "tool_cert n = \<lparr>Raw = replicate n CHR ''r'', Body = cut_times (Body (tool_template n)),
     Issuer = csr_Subject (tool_info 1), PublicKey = Some (Suc n)\<rparr>"

definition tool_env :: "nat pki_env" where
  "tool_env = toy_base\<lparr>
     CreateCertificateRequest := (\<lambda>seed info k.
       if seed \<in> {1, 2, 3} \<and> info = tool_info seed \<and> k = EcKey \<lparr>ec_Curve = ''P256'', ec_D = seed\<rparr>
       then Inr (replicate seed CHR ''c'') else Inl ''unsupported''),
     ParseCertificateRequest := (\<lambda>s. Inr ((tool_info (length s))\<lparr>csr_PublicKey := Suc (length s)\<rparr>)),
     x509_ParseCertificate := (\<lambda>s. if length s \<in> {1, 2, 3} then Inr (tool_cert (length s)) else Inl ''malformed''),
     CreateCertificate := (\<lambda>seed t p pub k.
       if seed \<in> {1, 2, 3} \<and> t = tool_template seed \<and> Subject (Body p) = csr_Subject (tool_info 1) \<and> pub = Suc seed \<and>
          k = EcKey \<lparr>ec_Curve = ''P256'', ec_D = 1\<rparr>
       then Inr (replicate seed CHR ''r'') else Inl ''unsupported'')\<rparr>"

lemma tool_laws: "pem_laws tool_env" "key_laws tool_env" "x509_laws tool_env toy_pub (\<lambda>c p. p = 2)"
proof -
  show "pem_laws tool_env" "key_laws tool_env"
    using toy_laws(1,2) by (simp_all add: pem_laws_def key_laws_def tool_env_def toy_def)
  show "x509_laws tool_env toy_pub (\<lambda>c p. p = 2)"
    by (auto simp: x509_laws_def tool_env_def toy_pub_def tool_cert_def same_names_def split: if_splits)
qed

lemma tool_runs: "fst (issueCert tool_env 0 (\<lambda>i. (Suc i, 0, 0)) (\<lambda>_. None)) = None"
  by code_simp

theorem issueCert_files_witness:
  "\<exists>files. issueCert tool_env 0 (\<lambda>i. (Suc i, 0, 0)) (\<lambda>_. None) = (None, files) \<and>
     map fst files = [''output/ca.crt'', ''output/ca.key'', ''output/client.crt'', ''output/client.key'',
       ''output/server.crt'', ''output/server.key'']"
proof -
  obtain files where "issueCert tool_env 0 (\<lambda>i. (Suc i, 0, 0)) (\<lambda>_. None) = (None, files)"
    using tool_runs by (metis prod.collapse)
  with issueCert_files [OF tool_laws this] show ?thesis by (auto simp: pem_files_def)
qed

end
