(* ===== verification/Context_Env.thy ===== *)
theory Context_Env
  imports Mqtt_Client Http_Client Pki Log_Config
begin

text \<open>
  The service context: \<^verbatim>\<open>context/env.go\<close>, \<^verbatim>\<open>context/config.go\<close> and \<^verbatim>\<open>context/context.go\<close>. The process
  environment, the files, the YAML loader, the logger and the TLS package are the fields of
  \<open>ctx_env\<close>; the certificate parser is that of the theory of the certificate authority, the
  clients are those of the MQTT and HTTP theories. Signals (\<^verbatim>\<open>Wait\<close>) are not modelled.
\<close>

section \<open>The environment\<close>

definition KeyBaetyl :: string where "KeyBaetyl = ''BAETYL''"

definition KeyConfFile :: string where "KeyConfFile = ''BAETYL_CONF_FILE''"

definition KeyNodeName :: string where "KeyNodeName = ''BAETYL_NODE_NAME''"

definition KeyAppName :: string where "KeyAppName = ''BAETYL_APP_NAME''"

definition KeyAppVersion :: string where "KeyAppVersion = ''BAETYL_APP_VERSION''"

definition KeySvcName :: string where "KeySvcName = ''BAETYL_SERVICE_NAME''"

definition KeySysConf :: string where "KeySysConf = ''BAETYL_SYSTEM_CONF''"

definition KeyRunMode :: string where "KeyRunMode = ''BAETYL_RUN_MODE''"

definition KeyBaetylHostPathLib :: string where "KeyBaetylHostPathLib = ''BAETYL_HOST_PATH_LIB''"

lemmas ctx_keys [simp] = KeyBaetyl_def KeyConfFile_def KeyNodeName_def KeyAppName_def KeyAppVersion_def
  KeySvcName_def KeySysConf_def KeyRunMode_def KeyBaetylHostPathLib_def

record SystemConfig =
  sc_Certificate :: Certificate
  sc_Function :: HttpClientConfig
  sc_Core :: HttpClientConfig
  sc_Broker :: ClientConfig
  sc_Logger :: LogConfig

text \<open>
  \<open>LoadYAML\<close> and \<open>UnmarshalNil\<close> write into the configuration they are given, also when they fail. \<open>log_Init\<close>
  is the error of setting up the logger; \<open>GOOS_windows\<close> tells the platform.
\<close>

record ('pub, 'tls) ctx_env =
  Getenv :: "string \<Rightarrow> string"
  Setenv_err :: "string option"
  GOOS_windows :: bool
  FileExists :: "string \<Rightarrow> bool"
  os_ReadFile :: "string \<Rightarrow> (string, string) result"
  LoadYAML :: "string \<Rightarrow> SystemConfig \<Rightarrow> string option \<times> SystemConfig"
  UnmarshalNil :: "SystemConfig \<Rightarrow> string option \<times> SystemConfig"
  log_Init :: "LogConfig \<Rightarrow> string option"
  tlsconfig_Client :: "tls_options \<Rightarrow> (string, 'tls) result"
  pki :: "'pub pki_env"

definition HostPathLib ::
  "('pub, 'tls) ctx_env \<Rightarrow> (string, string) result \<times> ('pub, 'tls) ctx_env" where
  "HostPathLib env =
     (let val = Getenv env KeyBaetylHostPathLib
      in if val = []
         then let val = (if GOOS_windows env then ''C:/baetyl'' else ''/var/lib/baetyl'')
              in case Setenv_err env of
                   Some e \<Rightarrow> (Inl e, env)
                 | None \<Rightarrow> (Inr val, env\<lparr>Getenv := (Getenv env)(KeyBaetylHostPathLib := val)\<rparr>)
         else (Inr val, env))"

definition RunMode :: "('pub, 'tls) ctx_env \<Rightarrow> string" where
  "RunMode env = (let mode = Getenv env KeyRunMode in if mode \<noteq> ''native'' then ''kube'' else mode)"

definition EdgeNamespace :: string where "EdgeNamespace = ''baetyl-edge''"

definition EdgeSystemNamespace :: string where "EdgeSystemNamespace = ''baetyl-edge-system''"

definition BrokerPort :: string where "BrokerPort = ''50010''"

definition FunctionHttpPort :: string where "FunctionHttpPort = ''50011''"

definition CoreHttpPort :: "('pub, 'tls) ctx_env \<Rightarrow> string" where
  "CoreHttpPort env = (if RunMode env = ''native'' then ''8443'' else ''443'')"

definition BrokerHost :: "('pub, 'tls) ctx_env \<Rightarrow> string" where
  "BrokerHost env = (if RunMode env = ''native'' then ''127.0.0.1'' else ''baetyl-broker'' @ ''.'' @ EdgeSystemNamespace)"

definition CoreHost :: "('pub, 'tls) ctx_env \<Rightarrow> string" where
  "CoreHost env = (if RunMode env = ''native'' then ''127.0.0.1'' else ''baetyl-core'' @ ''.'' @ EdgeSystemNamespace)"

definition FunctionHost :: "('pub, 'tls) ctx_env \<Rightarrow> string" where
  "FunctionHost env = (if RunMode env = ''native'' then ''127.0.0.1'' else ''baetyl-function'' @ ''.'' @ EdgeSystemNamespace)"

definition getBrokerAddress :: "('pub, 'tls) ctx_env \<Rightarrow> string" where
  "getBrokerAddress env = ''ssl'' @ ''://'' @ BrokerHost env @ '':'' @ BrokerPort"

definition getFunctionAddress :: "('pub, 'tls) ctx_env \<Rightarrow> string" where
  "getFunctionAddress env = ''https'' @ ''://'' @ FunctionHost env @ '':'' @ FunctionHttpPort"

definition getCoreAddress :: "('pub, 'tls) ctx_env \<Rightarrow> string" where
  "getCoreAddress env = ''https'' @ ''://'' @ CoreHost env @ '':'' @ CoreHttpPort env"

definition getCoreInscureAdddress :: "('pub, 'tls) ctx_env \<Rightarrow> string" where
  "getCoreInscureAdddress env = ''http'' @ ''://'' @ CoreHost env @ '':'' @ CoreHttpPort env"

lemmas env_defs = RunMode_def EdgeSystemNamespace_def BrokerPort_def FunctionHttpPort_def CoreHttpPort_def
  BrokerHost_def CoreHost_def FunctionHost_def getBrokerAddress_def getFunctionAddress_def
  getCoreAddress_def getCoreInscureAdddress_def

text \<open>The host path is stable: once returned it is what the environment says and what later calls return.\<close>

lemma HostPathLib_stable:
  "HostPathLib env = (Inr p, env') \<Longrightarrow>
     p \<noteq> [] \<and> Getenv env' KeyBaetylHostPathLib = p \<and> HostPathLib env' = (Inr p, env')"
  by (auto simp: HostPathLib_def Let_def split: if_splits option.splits)

section \<open>The context\<close>

text \<open>
  The context is a concurrent map under string keys; the values the code stores are strings and
  the system configuration, callers may store others. A getter asserts the type of what it
  loads: \<open>None\<close> is the panic of a failed assertion. \<open>has_log\<close> is whether the logger is not nil.
\<close>

datatype 'v ctx_value = VString string | VConf SystemConfig | VOther 'v

record 'v ctx =
  store :: "string \<rightharpoonup> 'v ctx_value"
  has_log :: bool

definition Load :: "'v ctx \<Rightarrow> string \<Rightarrow> 'v ctx_value option" where
  "Load c k = store c k"

definition Store :: "'v ctx \<Rightarrow> string \<Rightarrow> 'v ctx_value \<Rightarrow> 'v ctx" where
  "Store c k v = c\<lparr>store := (store c)(k \<mapsto> v)\<rparr>"

definition LoadOrStore :: "'v ctx \<Rightarrow> string \<Rightarrow> 'v ctx_value \<Rightarrow> ('v ctx_value \<times> bool) \<times> 'v ctx" where
  "LoadOrStore c k v = (case store c k of Some w \<Rightarrow> ((w, True), c) | None \<Rightarrow> ((v, False), Store c k v))"

definition Delete :: "'v ctx \<Rightarrow> string \<Rightarrow> 'v ctx" where
  "Delete c k = c\<lparr>store := (store c)(k := None)\<rparr>"

interpretation ctx_store: kv_store Load Store Delete
  by unfold_locales (simp_all add: Load_def Store_def Delete_def)

definition load_string :: "'v ctx \<Rightarrow> string \<Rightarrow> string option" where
  "load_string c k =
     (case Load c k of None \<Rightarrow> Some [] | Some (VString s) \<Rightarrow> Some s | Some _ \<Rightarrow> None)"

definition NodeName where "NodeName c = load_string c KeyNodeName"

definition AppName where "AppName c = load_string c KeyAppName"

definition AppVersion where "AppVersion c = load_string c KeyAppVersion"

definition ServiceName where "ServiceName c = load_string c KeySvcName"

definition ConfFile where "ConfFile c = load_string c KeyConfFile"

text \<open>\<open>Some None\<close> is the nil pointer.\<close>

definition get_SystemConfig :: "'v ctx \<Rightarrow> SystemConfig option option" where
  "get_SystemConfig c =
     (case Load c KeySysConf of None \<Rightarrow> Some None | Some (VConf sc) \<Rightarrow> Some (Some sc) | Some _ \<Rightarrow> None)"

text \<open>
  \<^verbatim>\<open>LoadCustomConfig\<close> for the system configuration: the first of \<open>files\<close> if it is not empty, else the file of the
  context; a missing file is an empty document.
\<close>

definition LoadCustomConfig ::
  "('pub, 'tls) ctx_env \<Rightarrow> 'v ctx \<Rightarrow> SystemConfig \<Rightarrow> string list \<Rightarrow> (string option \<times> SystemConfig) option" where
  "LoadCustomConfig env c cfg files =
     (case ConfFile c of
        None \<Rightarrow> None
      | Some f \<Rightarrow>
          let f = (case files of g # _ \<Rightarrow> if g \<noteq> [] then g else f | [] \<Rightarrow> f)
          in Some (if FileExists env f then LoadYAML env f cfg else UnmarshalNil env cfg))"

definition zero_cert :: Certificate where
  "zero_cert = \<lparr>CA = [], Key = [], Cert = [], CertName = [], InsecureSkipVerify = False, ClientAuthType = 0\<rparr>"

definition zero_http :: HttpClientConfig where
  "zero_http = \<lparr>hc_Address = [], hc_Timeout = 0, hc_KeepAlive = 0, hc_MaxIdleConns = 0, hc_IdleConnTimeout = 0,
     hc_TLSHandshakeTimeout = 0, hc_ExpectContinueTimeout = 0, hc_Certificate = zero_cert\<rparr>"

definition zero_config :: SystemConfig where
  "zero_config = \<lparr>sc_Certificate = zero_cert, sc_Function = zero_http, sc_Core = zero_http,
     sc_Broker = \<lparr>cc_Address = [], cc_Username = [], cc_Password = [], cc_ClientID = [], cc_CleanSession = False,
       cc_Timeout = 0, cc_KeepAlive = 0, cc_MaxReconnectInterval = 0, cc_MaxCacheMessages = 0,
       cc_DisableAutoAck = False, cc_Subscriptions = [], cc_Certificate = zero_cert\<rparr>,
     sc_Logger = \<lparr>Level = [], Encoding = [], Filename = [], Compress = False, MaxAge = 0, MaxSize = 0,
       MaxBackups = 0, EncodeTime = [], EncodeLevel = []\<rparr>\<rparr>"

definition or_default :: "string \<Rightarrow> string \<Rightarrow> string" where
  "or_default s d = (if s = [] then d else s)"

definition inherit_cert :: "Certificate \<Rightarrow> Certificate \<Rightarrow> Certificate" where
  "inherit_cert system c = c\<lparr>CA := or_default (CA c) (CA system), Key := or_default (Key c) (Key system),
     Cert := or_default (Cert c) (Cert system)\<rparr>"

definition populate_http :: "Certificate \<Rightarrow> string \<Rightarrow> HttpClientConfig \<Rightarrow> HttpClientConfig" where
  "populate_http system addr h = h\<lparr>hc_Address := or_default (hc_Address h) addr,
     hc_Certificate := inherit_cert system (hc_Certificate h)\<rparr>"

definition populate_broker :: "Certificate \<Rightarrow> string \<Rightarrow> string \<Rightarrow> string \<Rightarrow> ClientConfig \<Rightarrow> ClientConfig" where
  "populate_broker system addr app svc b =
     (let b = b\<lparr>cc_Address := or_default (cc_Address b) addr\<rparr>;
          b = (if svc \<noteq> []
               then b\<lparr>cc_ClientID := or_default (cc_ClientID b) (''baetyl-link-'' @ app),
                      cc_Subscriptions := cc_Subscriptions b @ [\<lparr>qt_qos = 1, qt_topic = ''$link/'' @ svc\<rparr>]\<rparr>
               else b)
      in b\<lparr>cc_Certificate := inherit_cert system (cc_Certificate b)\<rparr>)"

definition populate :: "('pub, 'tls) ctx_env \<Rightarrow> string \<Rightarrow> string \<Rightarrow> SystemConfig \<Rightarrow> SystemConfig" where
  "populate env app svc sc =
     sc\<lparr>sc_Function := populate_http (sc_Certificate sc) (getFunctionAddress env) (sc_Function sc),
        sc_Core := populate_http (sc_Certificate sc) (getCoreAddress env) (sc_Core sc),
        sc_Broker := populate_broker (sc_Certificate sc) (getBrokerAddress env) app svc (sc_Broker sc)\<rparr>"

definition new_ctx :: "('pub, 'tls) ctx_env \<Rightarrow> string \<Rightarrow> 'v ctx" where
  "new_ctx env confFile =
     (let confFile = (if confFile = [] then Getenv env KeyConfFile else confFile);
          c = \<lparr>store = Map.empty, has_log = False\<rparr>;
          c = Store c KeyConfFile (VString confFile);
          c = Store c KeyNodeName (VString (Getenv env KeyNodeName));
          c = Store c KeyAppName (VString (Getenv env KeyAppName));
          c = Store c KeyAppVersion (VString (Getenv env KeyAppVersion));
          c = Store c KeySvcName (VString (Getenv env KeySvcName))
      in c\<lparr>has_log := True\<rparr>)"

definition load_system :: "('pub, 'tls) ctx_env \<Rightarrow> 'v ctx \<Rightarrow> SystemConfig option" where
  "load_system env c =
     (case LoadCustomConfig env c zero_config [] of
        None \<Rightarrow> None
      | Some (None, sc) \<Rightarrow> Some sc
      | Some (Some e, sc) \<Rightarrow> Some (snd (UnmarshalNil env sc)))"

text \<open>
  \<open>NewContext\<close>: after a failed \<^verbatim>\<open>log.Init\<close> the nil logger is stored and used, which panics (\<open>None\<close>).
\<close>

definition NewContext :: "('pub, 'tls) ctx_env \<Rightarrow> string \<Rightarrow> 'v ctx option" where
  "NewContext env confFile =
     (let c = new_ctx env confFile
      in case (AppName c, ServiceName c, load_system env c) of
           (Some app, Some svc, Some sc) \<Rightarrow>
             (let sc = populate env app svc sc;
                  c = Store c KeySysConf (VConf sc);
                  c = c\<lparr>has_log := (log_Init env (sc_Logger sc) = None)\<rparr>
              in if has_log c then Some c else None)
         | _ \<Rightarrow> None)"

section \<open>Certificates and clients\<close>

datatype ctx_error = ErrSystemCertNotFound | ErrSystemCertInvalid | CtxErr string | CtxPanic

definition ctx_err :: "(string, 'a) result \<Rightarrow> (ctx_error, 'a) result" where
  "ctx_err r = (case r of Inl e \<Rightarrow> Inl (CtxErr e) | Inr x \<Rightarrow> Inr x)"

text \<open>\<open>with_config\<close> dereferences the pointer that \<^verbatim>\<open>SystemConfig()\<close> returns.\<close>

definition with_config :: "'v ctx \<Rightarrow> (ctx_error, SystemConfig) result" where
  "with_config c = (case get_SystemConfig c of Some (Some sc) \<Rightarrow> Inr sc | _ \<Rightarrow> Inl CtxPanic)"

definition valid_system_cert :: "'pub x509_Certificate list \<Rightarrow> bool" where
  "valid_system_cert info =
     (\<not> (length info \<noteq> 1 \<or> length (OrganizationalUnit (Subject (Body (info ! 0)))) \<noteq> 1 \<or>
         OrganizationalUnit (Subject (Body (info ! 0))) ! 0 \<noteq> KeyBaetyl))"

definition CheckSystemCert :: "('pub, 'tls) ctx_env \<Rightarrow> 'v ctx \<Rightarrow> (ctx_error, unit) result" where
  "CheckSystemCert env c =
     rbind (with_config c) (\<lambda>sc.
     let cfg = sc_Certificate sc
     in if \<not> FileExists env (CA cfg) \<or> \<not> FileExists env (Key cfg) \<or> \<not> FileExists env (Cert cfg)
        then Inl ErrSystemCertNotFound
        else rbind (ctx_err (os_ReadFile env (Cert cfg))) (\<lambda>crt.
             case ParseCertificates (pki env) crt of
               None \<Rightarrow> Inl CtxPanic
             | Some (info, Some e) \<Rightarrow> Inl (CtxErr e)
             | Some (info, None) \<Rightarrow> if valid_system_cert info then Inr () else Inl ErrSystemCertInvalid))"

definition NewFunctionHttpClient :: "('pub, 'tls) ctx_env \<Rightarrow> 'v ctx \<Rightarrow> (ctx_error, 'tls HttpClient) result" where
  "NewFunctionHttpClient env c =
     rbind (CheckSystemCert env c) (\<lambda>_.
     rbind (with_config c) (\<lambda>sc.
     rbind (ctx_err (HttpToClientOptions (tlsconfig_Client env) (sc_Function sc))) (\<lambda>ops.
     Inr (NewHttpClient ops))))"

definition NewCoreHttpsClient :: "('pub, 'tls) ctx_env \<Rightarrow> 'v ctx \<Rightarrow> (ctx_error, 'tls HttpClient) result" where
  "NewCoreHttpsClient env c =
     rbind (CheckSystemCert env c) (\<lambda>_.
     rbind (with_config c) (\<lambda>sc.
     rbind (ctx_err (HttpToClientOptions (tlsconfig_Client env) (sc_Core sc))) (\<lambda>ops.
     Inr (NewHttpClient ops))))"

definition NewCoreHttpClient :: "('pub, 'tls) ctx_env \<Rightarrow> 'v ctx \<Rightarrow> (ctx_error, 'tls HttpClient) result" where
  "NewCoreHttpClient env c =
     Inr (NewHttpClient (NewHttpClientOptions\<lparr>ho_Address := getCoreInscureAdddress env\<rparr>))"

text \<open>Go's \<^verbatim>\<open>copy\<close> overwrites elements the destination has and never extends it.\<close>

definition go_copy :: "'a list \<Rightarrow> 'a list \<Rightarrow> 'a list" where
  "go_copy dst src = (let n = min (length dst) (length src) in take n src @ drop n dst)"

definition NewSystemBrokerClientConfig :: "('pub, 'tls) ctx_env \<Rightarrow> 'v ctx \<Rightarrow> (ctx_error, ClientConfig) result" where
  "NewSystemBrokerClientConfig env c =
     rbind (CheckSystemCert env c) (\<lambda>_.
     rbind (with_config c) (\<lambda>sc.
     let config = (sc_Broker sc)\<lparr>cc_CleanSession := True, cc_Subscriptions := []\<rparr>
     in Inr (config\<lparr>cc_Subscriptions := go_copy (cc_Subscriptions config) (cc_Subscriptions (sc_Broker sc))\<rparr>)))"

definition NewBrokerClient :: "('pub, 'tls) ctx_env \<Rightarrow> ClientConfig \<Rightarrow> (ctx_error, 'tls Client) result" where
  "NewBrokerClient env config =
     rbind (ctx_err (ToClientOptions (tlsconfig_Client env) config)) (\<lambda>ops.
     case NewClient ops of None \<Rightarrow> Inl CtxPanic | Some cl \<Rightarrow> Inr cl)"

definition NewSystemBrokerClient ::
  "('pub, 'tls) ctx_env \<Rightarrow> 'v ctx \<Rightarrow> QOSTopic list \<Rightarrow> (ctx_error, 'tls Client) result" where
  "NewSystemBrokerClient env c subTopics =
     rbind (NewSystemBrokerClientConfig env c) (\<lambda>config.
     NewBrokerClient env
       (if length subTopics > 0 then config\<lparr>cc_Subscriptions := cc_Subscriptions config @ subTopics\<rparr> else config))"

section \<open>A new context\<close>

lemma NewContext_SystemConfig:
  assumes "NewContext env f = Some c"
  shows "\<exists>sc0. load_system env (new_ctx env f :: 'v ctx) = Some sc0 \<and>
     get_SystemConfig (c :: 'v ctx) = Some (Some (populate env (Getenv env KeyAppName) (Getenv env KeySvcName) sc0)) \<and>
     has_log c"
proof -
  have names: "AppName (new_ctx env f :: 'v ctx) = Some (Getenv env KeyAppName)"
    "ServiceName (new_ctx env f :: 'v ctx) = Some (Getenv env KeySvcName)"
    by (simp_all add: new_ctx_def Store_def AppName_def ServiceName_def load_string_def Load_def Let_def)
  show ?thesis
    using assms
    by (auto simp: NewContext_def names Let_def get_SystemConfig_def Load_def Store_def
        split: option.splits if_splits)
qed

text \<open>
  The populated configuration. In every context that \<^verbatim>\<open>NewContext\<close> returns, the addresses of the
  function, core and broker services are those of the configuration file, or else the address of the run mode: the local
  host in native mode, the service of the system namespace in any other mode. Each
  client has the certificate files of its own section or else of the system, and a service with a name is subscribed to its
  link topic, at QOS 1, after the configured subscriptions.
\<close>

theorem NewContext_populates:
  assumes "NewContext env f = Some (c :: 'v ctx)"
  shows "\<exists>sc0 sc. load_system env (new_ctx env f :: 'v ctx) = Some sc0 \<and> get_SystemConfig c = Some (Some sc) \<and>
     hc_Address (sc_Function sc) =
       (if hc_Address (sc_Function sc0) \<noteq> [] then hc_Address (sc_Function sc0)
        else if Getenv env ''BAETYL_RUN_MODE'' = ''native'' then ''https://127.0.0.1:50011''
        else ''https://baetyl-function.baetyl-edge-system:50011'') \<and>
     hc_Address (sc_Core sc) =
       (if hc_Address (sc_Core sc0) \<noteq> [] then hc_Address (sc_Core sc0)
        else if Getenv env ''BAETYL_RUN_MODE'' = ''native'' then ''https://127.0.0.1:8443''
        else ''https://baetyl-core.baetyl-edge-system:443'') \<and>
     cc_Address (sc_Broker sc) =
       (if cc_Address (sc_Broker sc0) \<noteq> [] then cc_Address (sc_Broker sc0)
        else if Getenv env ''BAETYL_RUN_MODE'' = ''native'' then ''ssl://127.0.0.1:50010''
        else ''ssl://baetyl-broker.baetyl-edge-system:50010'') \<and>
     sc_Certificate sc = sc_Certificate sc0 \<and>
     hc_Certificate (sc_Function sc) = inherit_cert (sc_Certificate sc0) (hc_Certificate (sc_Function sc0)) \<and>
     hc_Certificate (sc_Core sc) = inherit_cert (sc_Certificate sc0) (hc_Certificate (sc_Core sc0)) \<and>
     cc_Certificate (sc_Broker sc) = inherit_cert (sc_Certificate sc0) (cc_Certificate (sc_Broker sc0)) \<and>
     cc_Subscriptions (sc_Broker sc) = cc_Subscriptions (sc_Broker sc0) @
       (if Getenv env ''BAETYL_SERVICE_NAME'' = [] then []
        else [\<lparr>qt_qos = 1, qt_topic = ''$link/'' @ Getenv env ''BAETYL_SERVICE_NAME''\<rparr>])"
proof -
  obtain sc0 where sc0: "load_system env (new_ctx env f :: 'v ctx) = Some sc0"
    "get_SystemConfig c = Some (Some (populate env (Getenv env KeyAppName) (Getenv env KeySvcName) sc0))"
    using NewContext_SystemConfig [OF assms] by blast
  show ?thesis
    by (rule exI [of _ sc0], rule exI [of _ "populate env (Getenv env KeyAppName) (Getenv env KeySvcName) sc0"])
      (use sc0 in \<open>simp add: populate_def populate_http_def populate_broker_def or_default_def env_defs Let_def\<close>)
qed

text \<open>
  The subscriptions of the system broker client. Whatever the system configuration subscribes to, the
  client that \<^verbatim>\<open>NewSystemBrokerClient\<close> returns subscribes only to the topics it is given: the
  configured subscriptions, with the link topic of the service among them, are copied into a slice of length
  zero and lost.
\<close>

theorem system_broker_subscriptions:
  assumes "NewSystemBrokerClient env c subTopics = Inr cl"
  shows "Subscriptions (ops cl) = map (\<lambda>t. \<lparr>sub_topic = qt_topic t, sub_qos = ucast (qt_qos t)\<rparr>) subTopics \<and>
     CleanSession (ops cl)"
  using assms
  by (auto simp: NewSystemBrokerClient_def NewSystemBrokerClientConfig_def NewBrokerClient_def go_copy_def
      ctx_err_def ToClientOptions_def NewClient_def rbind_eq_Inr Let_def
      split: if_splits sum.splits option.splits)

lemma valid_system_cert_iff:
  "valid_system_cert info \<longleftrightarrow> (\<exists>x. info = [x] \<and> OrganizationalUnit (Subject (Body x)) = [''BAETYL''])"
  by (auto simp: valid_system_cert_def length_Suc_conv)

lemma CheckSystemCert_Inr:
  assumes "get_SystemConfig c = Some (Some sc)"
  shows "CheckSystemCert env c = Inr () \<longleftrightarrow>
     FileExists env (CA (sc_Certificate sc)) \<and> FileExists env (Key (sc_Certificate sc)) \<and>
     FileExists env (Cert (sc_Certificate sc)) \<and>
     (\<exists>crt x. os_ReadFile env (Cert (sc_Certificate sc)) = Inr crt \<and>
        ParseCertificates (pki env) crt = Some ([x], None) \<and>
        OrganizationalUnit (Subject (Body x)) = [''BAETYL''])"
  using assms
  by (auto simp: CheckSystemCert_def with_config_def ctx_err_def valid_system_cert_iff Let_def go_result
      split: sum.splits option.splits if_splits)

text \<open>
  A system certificate is accepted exactly when the three configured files exist, the certificate file can be
  read and holds exactly one certificate, and its only organizational unit is \<^verbatim>\<open>BAETYL\<close>; without the
  check no secured client is created.
\<close>

theorem CheckSystemCert_accepts:
  assumes "get_SystemConfig c = Some (Some sc)"
  shows "(CheckSystemCert env c = Inr () \<longleftrightarrow>
       FileExists env (CA (sc_Certificate sc)) \<and> FileExists env (Key (sc_Certificate sc)) \<and>
       FileExists env (Cert (sc_Certificate sc)) \<and>
       (\<exists>crt x. os_ReadFile env (Cert (sc_Certificate sc)) = Inr crt \<and>
          ParseCertificates (pki env) crt = Some ([x], None) \<and>
          OrganizationalUnit (Subject (Body x)) = [''BAETYL''])) \<and>
     (\<forall>e. CheckSystemCert env c = Inl e \<longrightarrow>
       NewFunctionHttpClient env c = Inl e \<and> NewCoreHttpsClient env c = Inl e \<and>
       NewSystemBrokerClientConfig env c = Inl e \<and> NewSystemBrokerClient env c subTopics = Inl e)"
  using CheckSystemCert_Inr [OF assms, of env]
  by (simp add: NewFunctionHttpClient_def NewCoreHttpsClient_def NewSystemBrokerClientConfig_def NewSystemBrokerClient_def)

section \<open>An instance\<close>

text \<open>A native service \<^verbatim>\<open>svc\<close> without a configuration file, whose certificate file holds one certificate.\<close>

definition demo_system_cert :: Certificate where
  "demo_system_cert = zero_cert\<lparr>CA := ''ca.pem'', Key := ''key.pem'', Cert := ''crt.pem''\<rparr>"

definition demo_ctx_env :: "(nat, unit) ctx_env" where
  "demo_ctx_env =
     \<lparr>Getenv = (\<lambda>k. if k = ''BAETYL_RUN_MODE'' then ''native'' else if k = ''BAETYL_SERVICE_NAME'' then ''svc'' else []),
      Setenv_err = None, GOOS_windows = False, FileExists = (\<lambda>f. f \<noteq> []),
      os_ReadFile = (\<lambda>f. Inr (EncodeCertificates toy [toy_cert ''R'' toy_root 2])),
      LoadYAML = (\<lambda>f sc. (Some ''unreachable'', sc)),
      UnmarshalNil = (\<lambda>sc. (None, sc\<lparr>sc_Certificate := demo_system_cert\<rparr>)),
      log_Init = (\<lambda>l. None), tlsconfig_Client = (\<lambda>o'. Inr ()), pki = toy\<rparr>"

definition demo_ctx :: "unit ctx" where
  "demo_ctx = the (NewContext demo_ctx_env [])"

definition demo_config :: SystemConfig where
  "demo_config = populate demo_ctx_env [] ''svc'' (zero_config\<lparr>sc_Certificate := demo_system_cert\<rparr>)"

lemma demo_NewContext:
  "NewContext demo_ctx_env [] = Some demo_ctx" "get_SystemConfig demo_ctx = Some (Some demo_config)"
proof -
  have "load_system demo_ctx_env (new_ctx demo_ctx_env [] :: unit ctx) = Some (zero_config\<lparr>sc_Certificate := demo_system_cert\<rparr>)"
    by (simp add: load_system_def LoadCustomConfig_def new_ctx_def demo_ctx_env_def ConfFile_def load_string_def
        Load_def Store_def Let_def)
  moreover have "AppName (new_ctx demo_ctx_env [] :: unit ctx) = Some []"
    "ServiceName (new_ctx demo_ctx_env [] :: unit ctx) = Some ''svc''"
    by (simp_all add: new_ctx_def Store_def AppName_def ServiceName_def load_string_def Load_def Let_def demo_ctx_env_def)
  ultimately have c: "NewContext demo_ctx_env [] =
      Some ((Store (new_ctx demo_ctx_env []) KeySysConf (VConf demo_config))\<lparr>has_log := True\<rparr> :: unit ctx)"
    by (simp add: NewContext_def Let_def demo_config_def Store_def) (simp add: demo_ctx_env_def)
  then show "NewContext demo_ctx_env [] = Some demo_ctx" by (simp add: demo_ctx_def)
  show "get_SystemConfig demo_ctx = Some (Some demo_config)"
    by (simp add: demo_ctx_def c get_SystemConfig_def Load_def Store_def)
qed

lemma demo_config_cert: "sc_Certificate demo_config = demo_system_cert"
  by (simp add: demo_config_def populate_def)

theorem NewContext_populates_witness:
  "NewContext demo_ctx_env [] = Some demo_ctx \<and>
   (\<exists>sc. get_SystemConfig demo_ctx = Some (Some sc) \<and> cc_Address (sc_Broker sc) = ''ssl://127.0.0.1:50010'' \<and>
      cc_Subscriptions (sc_Broker sc) = [\<lparr>qt_qos = 1, qt_topic = ''$link/svc''\<rparr>])"
proof -
  have "load_system demo_ctx_env (new_ctx demo_ctx_env [] :: unit ctx) = Some (zero_config\<lparr>sc_Certificate := demo_system_cert\<rparr>)"
    by (simp add: load_system_def LoadCustomConfig_def new_ctx_def demo_ctx_env_def ConfFile_def load_string_def
        Load_def Store_def Let_def)
  then show ?thesis
    using NewContext_populates [OF demo_NewContext(1)] demo_NewContext(1)
    by (auto simp: demo_ctx_env_def zero_config_def)
qed

lemma demo_cert_file:
  "ParseCertificates toy (EncodeCertificates toy [toy_cert ''R'' toy_root 2]) = Some ([toy_cert ''R'' toy_root 2], None)"
  "OrganizationalUnit (Subject (Body (toy_cert ''R'' toy_root 2))) = [''BAETYL'']"
  using parse_issued [OF toy_laws(1), of "''R''" "toy_cert ''R'' toy_root 2" "toy_cert ''R'' toy_root 2"]
  by (simp_all add: toy_def toy_cert_def cut_times_def toy_root_def root_template_def toy_info_def)

theorem CheckSystemCert_accepts_witness: "CheckSystemCert demo_ctx_env demo_ctx = Inr ()"
  using CheckSystemCert_accepts [OF demo_NewContext(2), of demo_ctx_env "[]"] demo_cert_file
  by (simp add: demo_config_cert demo_system_cert_def demo_ctx_env_def)

lemma demo_broker:
  "is_ok (NewSystemBrokerClient demo_ctx_env demo_ctx [\<lparr>qt_qos = 0, qt_topic = ''t''\<rparr>])"
proof -
  have "CheckSystemCert demo_ctx_env demo_ctx = Inr ()"
    using CheckSystemCert_Inr [OF demo_NewContext(2), of demo_ctx_env] demo_cert_file
    by (simp add: demo_config_cert demo_system_cert_def demo_ctx_env_def)
  moreover have "tlsconfig_Client demo_ctx_env o' = Inr ()" for o' by (simp add: demo_ctx_env_def)
  moreover have "cc_MaxCacheMessages (sc_Broker demo_config) = 0"
    by (simp add: demo_config_def populate_def populate_broker_def zero_config_def Let_def)
  ultimately show ?thesis
    by (simp add: NewSystemBrokerClient_def NewSystemBrokerClientConfig_def NewBrokerClient_def with_config_def
        demo_NewContext(2) ctx_err_def ToClientOptions_def NewTLSConfigClient_def NewClient_def Let_def)
qed

theorem system_broker_subscriptions_witness:
  "\<exists>cl. NewSystemBrokerClient demo_ctx_env demo_ctx [\<lparr>qt_qos = 0, qt_topic = ''t''\<rparr>] = Inr cl \<and>
     Subscriptions (ops cl) = [\<lparr>sub_topic = ''t'', sub_qos = 0\<rparr>]"
proof -
  obtain cl where "NewSystemBrokerClient demo_ctx_env demo_ctx [\<lparr>qt_qos = 0, qt_topic = ''t''\<rparr>] = Inr cl"
    using demo_broker by (auto simp: is_ok_def split: sum.splits)
  then show ?thesis using system_broker_subscriptions by fastforce
qed

end
