(* ===== verification/Context_Run.thy ===== *)
theory Context_Run
  imports Context_Env Dm_Wire Log_Init Utils_Net
begin

text \<open>
  The entry points of a service: \<^verbatim>\<open>context/run.go\<close>, \<^verbatim>\<open>dmcontext/run.go\<close>, the waiting for signals and the logger of \<^verbatim>\<open>context/context.go\<close>,
  \<^verbatim>\<open>Close\<close> of the device management context, and \<^verbatim>\<open>context/platform.go\<close>. The command line is read as package \<^verbatim>\<open>flag\<close> reads it. What a
  run does is a list of events and the way it ends; the handler of the service is an argument, which returns or panics.
\<close>

section \<open>The command line\<close>

datatype flag_end = FlagsOk bool string | FlagExit nat

text \<open>The name of a flag and the value after an equals sign, which is not looked for in the first character.\<close>

definition split_flag :: "string \<Rightarrow> string \<times> string option" where
  "split_flag name =
     (hd name # takeWhile (\<lambda>c. c \<noteq> CHR ''='') (tl name),
      case dropWhile (\<lambda>c. c \<noteq> CHR ''='') (tl name) of [] \<Rightarrow> None | _ # v \<Rightarrow> Some v)"

text \<open>\<^verbatim>\<open>flag.Parse\<close> with the flags \<^verbatim>\<open>h\<close> (boolean) and \<^verbatim>\<open>c\<close> (text); an error exits with status two, an undefined help flag with zero.\<close>

fun parse_flags :: "string list \<Rightarrow> bool \<Rightarrow> string \<Rightarrow> flag_end" where
  "parse_flags [] h c = FlagsOk h c"
| "parse_flags (s # args) h c =
     (if length s < 2 \<or> hd s \<noteq> CHR ''-'' \<or> s = ''--'' then FlagsOk h c
      else
        let name = (if s ! 1 = CHR ''-'' then drop 2 s else drop 1 s)
        in if hd name = CHR ''-'' \<or> hd name = CHR ''='' then FlagExit 2
           else
             (case split_flag name of (n, v) \<Rightarrow>
                if n = ''h''
                then (case v of
                        None \<Rightarrow> parse_flags args True c
                      | Some x \<Rightarrow> (case ParseBool x of None \<Rightarrow> FlagExit 2 | Some b \<Rightarrow> parse_flags args b c))
                else if n = ''c''
                then (case v of
                        Some x \<Rightarrow> parse_flags args h x
                      | None \<Rightarrow> (case args of [] \<Rightarrow> FlagExit 2 | x # args' \<Rightarrow> parse_flags args' h x))
                else if n = ''help'' then FlagExit 0 else FlagExit 2))"

definition default_conf :: string where
  "default_conf = ''etc/baetyl/conf.yml''"

section \<open>Run\<close>

datatype outcome = HandlerReturns "string option" | HandlerPanics string

datatype 'ctx run_event =
    Printed string
  | UsagePrinted
  | ContextCreated string
  | ContextStarted
  | LogLine log_Level string
  | HandlerCalled 'ctx
  | ContextClosed

datatype run_end = Returned | ExitStatus nat | Crashed

text \<open>The last line of the log: the recovered panic, the error of the handler, or the regular end.\<close>

definition outcome_line :: "outcome \<Rightarrow> 'ctx run_event" where
  "outcome_line r =
     (case r of
        HandlerReturns None \<Rightarrow> LogLine InfoLevel ''service has stopped''
      | HandlerReturns (Some e) \<Rightarrow> LogLine ErrorLevel ''service has stopped with error''
      | HandlerPanics p \<Rightarrow> LogLine ErrorLevel ''service is stopped with panic'')"

text \<open>A panic of \<open>NewContext\<close> comes before the deferred function is set up and ends the process.\<close>

definition context_Run ::
  "(string \<Rightarrow> 'ctx option) \<Rightarrow> ('ctx \<Rightarrow> outcome) \<Rightarrow> string list \<Rightarrow> 'ctx run_event list \<times> run_end" where
  "context_Run new serve args =
     (let version = Printed (utils_Version VERSION REVISION)
      in case parse_flags args False default_conf of
           FlagExit n \<Rightarrow> ([version, UsagePrinted], ExitStatus n)
         | FlagsOk h c \<Rightarrow>
             if h then ([version, UsagePrinted], Returned)
             else (case new c of
                     None \<Rightarrow> ([version], Crashed)
                   | Some ctx \<Rightarrow>
                       ([version, ContextCreated c, LogLine InfoLevel ''service starting'', HandlerCalled ctx,
                         outcome_line (serve ctx)], Returned)))"

definition dm_Run ::
  "(string \<Rightarrow> 'ctx option) \<Rightarrow> ('ctx \<Rightarrow> 'ctx) \<Rightarrow> ('ctx \<Rightarrow> outcome) \<Rightarrow> string list \<Rightarrow> 'ctx run_event list \<times> run_end" where
  "dm_Run new start serve args =
     (let version = Printed (utils_Version VERSION REVISION)
      in case parse_flags args False default_conf of
           FlagExit n \<Rightarrow> ([version, UsagePrinted], ExitStatus n)
         | FlagsOk h c \<Rightarrow>
             if h then ([version, UsagePrinted], Returned)
             else (case new c of
                     None \<Rightarrow> ([version], Crashed)
                   | Some ctx \<Rightarrow>
                       let ctx = start ctx
                       in ([version, ContextCreated c, ContextStarted, LogLine InfoLevel ''service starting'', HandlerCalled ctx,
                            outcome_line (serve ctx), ContextClosed], Returned)))"

section \<open>The configuration files of a driver\<close>

definition DefaultDeviceModelConf :: string where "DefaultDeviceModelConf = ''etc/baetyl/models.yml''"
definition DefaultAccessTemplateConf :: string where "DefaultAccessTemplateConf = ''etc/baetyl/access_template.yml''"
definition DefaultSubDeviceConf :: string where "DefaultSubDeviceConf = ''etc/baetyl/sub_devices.yml''"

text \<open>The decoder writes into the value it is given, also when it fails; a file that cannot be read leaves it alone.\<close>

definition unmarshalYAML ::
  "(string \<Rightarrow> (string, string) result) \<Rightarrow> (string \<Rightarrow> 'v \<Rightarrow> string option \<times> 'v) \<Rightarrow> string \<Rightarrow> 'v \<Rightarrow> string option \<times> 'v" where
  "unmarshalYAML ReadFile yaml_Unmarshal file out =
     (case ReadFile file of Inl e \<Rightarrow> (Some e, out) | Inr bs \<Rightarrow> yaml_Unmarshal bs out)"

text \<open>After an error the value is decoded once more, from nothing, which fills in defaults (\<open>unmarshal_nil\<close>).\<close>

definition load_or_default ::
  "(string \<Rightarrow> (string, string) result) \<Rightarrow> (string \<Rightarrow> 'v \<Rightarrow> string option \<times> 'v) \<Rightarrow> ('v \<Rightarrow> string option \<times> 'v) \<Rightarrow> string \<Rightarrow> 'v \<Rightarrow> 'v" where
  "load_or_default ReadFile yaml_Unmarshal unmarshal_nil file out =
     (case unmarshalYAML ReadFile yaml_Unmarshal file out of
        (None, v) \<Rightarrow> v
      | (Some _, v) \<Rightarrow> snd (unmarshal_nil v))"

record yaml_lib =
  yaml_models :: "string \<Rightarrow> (string \<rightharpoonup> DeviceProperty list) \<Rightarrow> string option \<times> (string \<rightharpoonup> DeviceProperty list)"
  yaml_templates :: "string \<Rightarrow> (string \<rightharpoonup> AccessTemplate) \<Rightarrow> string option \<times> (string \<rightharpoonup> AccessTemplate)"
  yaml_driver :: "string \<Rightarrow> dm_config \<Rightarrow> string option \<times> dm_config"
  nil_models :: "(string \<rightharpoonup> DeviceProperty list) \<Rightarrow> string option \<times> (string \<rightharpoonup> DeviceProperty list)"
  nil_templates :: "(string \<rightharpoonup> AccessTemplate) \<Rightarrow> string option \<times> (string \<rightharpoonup> AccessTemplate)"
  nil_driver :: "dm_config \<Rightarrow> string option \<times> dm_config"

definition NewContext_files ::
  "(string \<Rightarrow> (string, string) result) \<Rightarrow> yaml_lib \<Rightarrow> string \<Rightarrow> (QOSTopic list \<Rightarrow> (string, 'tls Client) result) \<Rightarrow> ('c, 'tls) DmCtx option" where
  "NewContext_files ReadFile Y node newClient =
     Dm_Context.NewContext node
       (load_or_default ReadFile (yaml_models Y) (nil_models Y) DefaultDeviceModelConf Map.empty)
       (load_or_default ReadFile (yaml_templates Y) (nil_templates Y) DefaultAccessTemplateConf Map.empty)
       (load_or_default ReadFile (yaml_driver Y) (nil_driver Y) DefaultSubDeviceConf \<lparr>cfg_devices = [], cfg_driver = []\<rparr>)
       newClient"

section \<open>Close\<close>

text \<open>
  \<^verbatim>\<open>DmCtx.Close\<close>: the client is killed and waited for, the tomb of the context is killed. No goroutine runs under that tomb (the
  processing loops are started with a plain \<^verbatim>\<open>go\<close>), so waiting for it returns at once.
\<close>

definition DmCtx_Close :: "('c, 'tls) DmCtx \<Rightarrow> ('c, 'tls) DmCtx" where
  "DmCtx_Close c = c\<lparr>mqtt := map_option Client_Kill (mqtt c)\<rparr>"

section \<open>Signals\<close>

datatype signal = SIGTERM | SIGINT | SIGPIPE | OtherSignal nat

text \<open>The channels that were asked for, each with room for one signal, and whether a broken pipe is ignored.\<close>

record signals =
  notified :: "signal chan list"
  pipe_ignored :: bool

text \<open>\<open>WaitChan\<close> returns the index of its channel.\<close>

definition WaitChan :: "signals \<Rightarrow> nat \<times> signals" where
  "WaitChan g = (length (notified g), g\<lparr>notified := notified g @ [make_chan 1], pipe_ignored := True\<rparr>)"

text \<open>The runtime delivers a signal to every channel that has room; it does not wait for the others.\<close>

definition deliver :: "signal \<Rightarrow> signals \<Rightarrow> signals" where
  "deliver s g =
     (if s = SIGTERM \<or> s = SIGINT
      then g\<lparr>notified := map (\<lambda>ch. case chan_send ch s of None \<Rightarrow> ch | Some ch' \<Rightarrow> ch') (notified g)\<rparr>
      else g)"

definition Wait_returns :: "nat \<Rightarrow> signals \<Rightarrow> bool" where
  "Wait_returns i g \<longleftrightarrow> i < length (notified g) \<and> chan_recv (notified g ! i) \<noteq> None"

section \<open>Platform\<close>

record PlatformInfo =
  pl_OS :: string
  pl_Architecture :: string
  pl_Variant :: string

definition PlatformString :: "PlatformInfo \<Rightarrow> string" where
  "PlatformString pl =
     (if pl_OS pl = [] then ''unknown''
      else if pl_Variant pl = [] then pl_OS pl @ ''-'' @ pl_Architecture pl
      else pl_OS pl @ ''-'' @ pl_Architecture pl @ ''-'' @ pl_Variant pl)"

section \<open>Properties\<close>

lemma parse_conf_flag:
  "parse_flags [] False default_conf = FlagsOk False default_conf"
  "parse_flags [''-c'', f] False d = FlagsOk False f"
  "parse_flags [''--c'', f] False d = FlagsOk False f"
  "parse_flags [''-c='' @ f] False d = FlagsOk False f"
  "parse_flags (''-h'' # args) h d = parse_flags args True d"
  by (simp_all add: split_flag_def Let_def)

definition closes :: "'ctx run_event list \<Rightarrow> nat" where
  "closes es = length (filter (\<lambda>e. e = ContextClosed) es)"

definition creations :: "'ctx run_event list \<Rightarrow> nat" where
  "creations es = length (filter (\<lambda>e. \<exists>f. e = ContextCreated f) es)"

definition handler_calls :: "'ctx run_event list \<Rightarrow> 'ctx list" where
  "handler_calls es = List.map_filter (\<lambda>e. case e of HandlerCalled ctx \<Rightarrow> Some ctx | _ \<Rightarrow> None) es"

text \<open>
  The lifecycle of a device service, for any handler: it is called at most once and only with a started context; a context
  that was created is closed exactly once, at the very end, also after an error or a panic of the handler. Either of them
  ends the run like a success, by returning.
\<close>

lemma dm_Run_lifecycle:
  assumes "dm_Run new start serve args = (es, end')"
  shows "closes es = creations es \<and> length (handler_calls es) = creations es \<and> creations es \<le> 1 \<and>
     (\<forall>ctx \<in> set (handler_calls es). \<exists>c f. new f = Some c \<and> ctx = start c) \<and>
     (0 < creations es \<longrightarrow> last es = ContextClosed \<and> end' = Returned)"
  using assms
  by (auto simp: dm_Run_def Let_def closes_def creations_def handler_calls_def List.map_filter_def outcome_line_def
      split: flag_end.splits if_splits option.splits outcome.splits) blast+

text \<open>The service is given the context of the file named on the command line, or of the default file.\<close>

lemma context_Run_handler:
  assumes "parse_flags args False default_conf = FlagsOk False f" "Context_Env.NewContext env f = Some ctx"
  shows "handler_calls (fst (context_Run (Context_Env.NewContext env) serve args)) = [ctx] \<and>
     ConfFile ctx = Some (if f = [] then Getenv env KeyConfFile else f)"
proof -
  have "ConfFile ctx = Some (if f = [] then Getenv env KeyConfFile else f)"
    using assms(2)
    by (auto simp: Context_Env.NewContext_def Let_def new_ctx_def ConfFile_def load_string_def Load_def Store_def
        split: option.splits if_splits)
  then show ?thesis
    using assms by (simp add: context_Run_def handler_calls_def List.map_filter_def outcome_line_def split: outcome.split option.split)
qed

text \<open>Without its configuration files a driver runs with no devices, no models and no subscriptions, if decoding nothing adds none.\<close>

lemma NewContext_no_files:
  assumes "\<And>f. ReadFile f = Inl ''no such file''" "\<And>v. snd (nil_models Y v) = v" "\<And>v. snd (nil_templates Y v) = v" "\<And>v. snd (nil_driver Y v) = v"
    and "NewContext_files ReadFile Y node newClient = Some c"
  shows "devices c = Map.empty \<and> deviceModels c = Map.empty \<and> (\<exists>cl. newClient [] = Inr cl \<and> mqtt c = Some cl)"
  using assms(5)
  by (auto simp: NewContext_files_def load_or_default_def unmarshalYAML_def assms(1-4) Dm_Context.NewContext_def device_subscriptions_def
      devices_by_name_def split: sum.splits)

text \<open>A call of a driver on a closed context gives an error, or leaves its message in a channel that nobody reads any more.\<close>

lemma closed_publish:
  assumes "mqtt c = Some cl" "mqtt_publish pick t p (DmCtx_Close c) = (r, c')"
  shows "r = RErr (MqttError ErrClientAlreadyClosed) \<or>
     r = ROk \<and> \<not> pick \<and> (\<exists>cl'. mqtt c' = Some cl' \<and> dying cl' \<and> chan_buf (cache cl') \<noteq> [])"
proof -
  let ?cl = "cl\<lparr>dying := True\<rparr>"
  have cl: "mqtt (DmCtx_Close c) = Some ?cl" using assms(1) by (simp add: DmCtx_Close_def Client_Kill_def)
  obtain pkt cnt where pkt: "publish_packet (ucast (qt_qos t)) (qt_topic t) p 0 False False ?cl = (pkt, ?cl\<lparr>ids := cnt\<rparr>)"
    using publish_packet_cases by blast
  show ?thesis
  proof (cases "pick \<or> chan_full (cache cl)")
    case True
    then show ?thesis using assms(2) cl pkt
      by (auto simp: mqtt_publish_def Client_Publish_def Client_Send_def)
  next
    case False
    then obtain ch where "chan_send (cache cl) pkt = Some ch" "chan_buf ch \<noteq> []"
      by (auto simp: chan_send_def chan_full_def)
    then show ?thesis using assms(2) cl pkt False
      by (auto simp: mqtt_publish_def Client_Publish_def Client_Send_def)
  qed
qed

lemma Wait_after_signal:
  assumes "WaitChan g = (i, g')"
  shows "\<not> Wait_returns i g'" and "s = SIGTERM \<or> s = SIGINT \<Longrightarrow> Wait_returns i (deliver s g')"
    and "\<not> (s = SIGTERM \<or> s = SIGINT) \<Longrightarrow> deliver s g' = g'"
  using assms by (auto simp: WaitChan_def Wait_returns_def deliver_def chan_recv_def chan_send_def make_chan_def chan_full_def nth_append)

end
