(* ===== verification/Spec2Isabelle.thy ===== *)
theory Spec2Isabelle
  imports Mqtt_Topic Mqtt_Counter Mqtt_Client Mqtt_Packets Mqtt_Tls Native_Ports Native_Watch Utils_Net Pubsub_Memory Pubsub_Delivery Task_Queue Task_System
    Registry Dm_Wire Dm_Inbox Dm_Views Dm_Format Dm_Duration Http_Server Cache_Http Spec_Lazy Spec_Shadow Spec_Delta Spec_Heap Spec_View
    Utils_Sync Utils_Flock_Windows Utils_Validate Utils_Defaults Utils_Config Utils_Archive Log_Init Mock_Flow Mock_Http Issue_Tool
    Context_Run Context_Env
begin

text \<open>
  \<^bold>\<open>A verification development for baetyl-go\<close>

  The repository is the Go SDK of an edge computing framework. A service built with it reads its configuration and certificates
  (\<^verbatim>\<open>context\<close>, \<^verbatim>\<open>utils\<close>, \<^verbatim>\<open>log\<close>), talks to a broker (\<^verbatim>\<open>mqtt\<close>) and to functions and the core (\<^verbatim>\<open>http\<close>), hands messages
  around inside the process (\<^verbatim>\<open>pubsub\<close>, \<^verbatim>\<open>task\<close>, \<^verbatim>\<open>plugin\<close>, \<^verbatim>\<open>trigger\<close>), allocates ports and maps services in the native run mode (\<^verbatim>\<open>native\<close>),
  caches HTTP responses (\<^verbatim>\<open>cache\<close>), issues certificates (\<^verbatim>\<open>pki\<close>, \<^verbatim>\<open>tools\<close>), drives devices (\<^verbatim>\<open>dmcontext\<close>) and exchanges the
  reported and the desired state of a node (\<^verbatim>\<open>spec/v1\<close>). Every theory below translates one of these parts from its source and states what the
  part promises. Paths are relative to the root of the repository.

  \<^bold>\<open>Shared theories\<close>

  \<^item> \<open>Baetyl_Prelude\<close>: byte strings with the functions of package \<^verbatim>\<open>strings\<close>, results of fallible calls (a sum type with \<open>rbind\<close>), buffered channels,
    maps as lists of entries in iteration order, and the interfaces as locales: \<open>bounded_fifo\<close> (a channel or broker is a bounded queue), \<open>step_system\<close>,
    \<open>event_system\<close> and \<open>partial_event_system\<close> (a component that moves by steps keeps its invariant over every run), \<open>kv_store\<close> (of
    several writes the last is read), \<open>text_codec\<close>. They are interpreted where the model provides them: channels, the task broker and backend, the plugin
    registry, publish and subscribe (alone and with a processor), the task queue with its workers, the device context (alone, over its client, behind its stream), the MQTT client, the tomb, the context's
    values, both base64 alphabets.
  \<^item> \<open>Go_Strconv\<close>: decimal integers of \<^verbatim>\<open>strconv\<close> with their range check, and base64, each with its round trip.
  \<^item> \<open>Go_Time\<close>: the numeric layouts of package \<^verbatim>\<open>time\<close>, reading and writing.

  \<^bold>\<open>Components\<close>

  \<^item> \<open>Mqtt_Topic\<close> (\<^verbatim>\<open>mqtt/topic.go\<close>): \<open>checkTopic\<close> decides a declarative predicate; the checker of system topics.
  \<^item> \<open>Mqtt_Counter\<close> (\<^verbatim>\<open>mqtt/counter.go\<close>): packet identifiers over words of any width; zero is skipped at the wrap-around.
  \<^item> \<open>Mqtt_Client\<close> (\<^verbatim>\<open>mqtt/client.go\<close>, \<^verbatim>\<open>stream.go\<close>, \<^verbatim>\<open>observer.go\<close>, \<^verbatim>\<open>options.go\<close>): the goroutines \<^verbatim>\<open>connecting\<close>, \<^verbatim>\<open>receiving\<close> and
    \<^verbatim>\<open>pinging\<close> as a step function over events that carry the answers of the connection. Packets leave in order and none is lost, a stream dies once, a
    connection counts as made only after both acknowledgements, a publish is acknowledged after the observer took it, and closing may block.
  \<^item> \<open>Mqtt_Packets\<close> (\<^verbatim>\<open>mqtt/gomqtt.go\<close>): the constructors of packets, dialer and launcher.
  \<^item> \<open>Mqtt_Tls\<close> (\<^verbatim>\<open>mqtt/gomqtt.go\<close>): the common name of the peer of a connection.
  \<^item> \<open>Native_Ports\<close> (\<^verbatim>\<open>native/port.go\<close>, \<^verbatim>\<open>native/mapping.go\<close>): the allocator finds a free port if there is one; the mapping, its file
    and its watcher as a step relation, round robin within range, publication to readers and what is not published. \<open>Native_Watch\<close>: its watching goroutines under the tomb; \<^verbatim>\<open>Close\<close> ends them.
  \<^item> \<open>Pubsub_Memory\<close> (\<^verbatim>\<open>pubsub\<close>): a heap of channels; every subscription sees the messages sent to it, in order, up to its size.
  \<^item> \<open>Pubsub_Delivery\<close> (\<^verbatim>\<open>pubsub\<close>): the broker and a processor side by side; the handler sees what was published to its subscription, in order.
  \<^item> \<open>Utils_Net\<close> (\<^verbatim>\<open>utils/port.go\<close>, \<^verbatim>\<open>matcher.go\<close>, \<^verbatim>\<open>version.go\<close>, \<^verbatim>\<open>trace.go\<close>): the probes for free ports over the address syntax of package \<^verbatim>\<open>net\<close> and a network
    that is an argument; with the allocator of \<open>Native_Ports\<close> they hand out distinct ports that can be listened on.
  \<^item> \<open>Task_Queue\<close> (\<^verbatim>\<open>task\<close>): message, broker, backend, producer and worker; an added task's result arrives.
  \<^item> \<open>Task_System\<close> (\<^verbatim>\<open>task/worker.go\<close>): several workers, producers and callers side by side; a task runs and is handed out at most once.
  \<^item> \<open>Registry\<close> (\<^verbatim>\<open>plugin/register.go\<close>, \<^verbatim>\<open>trigger/trigger.go\<close>): one instance per plugin over any interleaving; what a trigger calls.
  \<^item> \<open>Dm_Expression\<close>, \<open>Dm_Data\<close>, \<open>Dm_Property\<close>, \<open>Dm_Format\<close>, \<open>Dm_Duration\<close>, \<open>Dm_Context\<close> (\<^verbatim>\<open>dmcontext\<close>): mapping expressions and their linear solver over floats, the
    structs with their comparisons and decoders, property values and topics, conversion to declared types, durations, and the context with its observer, queues, callbacks,
    reports and the filter of unchanged values. Drivers are called with values of the declared types only.
  \<^item> \<open>Dm_Wire\<close> (\<^verbatim>\<open>dmcontext/context.go\<close> over \<^verbatim>\<open>mqtt/client.go\<close>): the calls of a driver interleaved with the goroutine of the client they share; what was reported is what the
    connections are handed, in order.
  \<^item> \<open>Dm_Inbox\<close> (\<^verbatim>\<open>dmcontext/observer.go\<close> over \<^verbatim>\<open>mqtt/stream.go\<close>): received packets, the queues of the devices and the goroutines that process them; messages are handled in the order of their
    arrival, and a packet is acknowledged also when its message was dropped. \<open>Dm_Views\<close>: the view structs and the view of a model.
  \<^item> \<open>Http_Client\<close>, \<open>Http_Server\<close> (\<^verbatim>\<open>http\<close>): which request is sent and how its answer is read; which server runs under which TLS configuration.
  \<^item> \<open>Cache_Http\<close> (\<^verbatim>\<open>cache\<close>): the request function around store, singleflight and handler; only successes are stored, what is replayed, which requests share a key.
  \<^item> \<open>Utils_Cert\<close>, \<open>Utils_Sync\<close>, \<open>Utils_Validate\<close>, \<open>Utils_Config\<close> (\<^verbatim>\<open>utils\<close>, \<^verbatim>\<open>errors\<close>): TLS configurations, the file lock and the tomb wrapper, the
    field validators with their regular expressions matched by derivatives, configuration files, sizes, paths and error values.
  \<^item> \<open>Utils_Flock_Windows\<close> (\<^verbatim>\<open>utils/flock_windows.go\<close>): the lock over the procedures of the Windows kernel refines the lock on unix.
  \<^item> \<open>Utils_Defaults\<close> (\<^verbatim>\<open>utils/defaults.go\<close>): defaults reach every struct in slices and maps, at any depth; when the recursion ends.
  \<^item> \<open>Utils_Archive\<close> (\<^verbatim>\<open>utils/tar.go\<close>, \<^verbatim>\<open>tgz.go\<close>, \<^verbatim>\<open>zip.go\<close>, \<^verbatim>\<open>json\<close>, \<^verbatim>\<open>cache/persist/codec.go\<close>, \<^verbatim>\<open>ProcessTopic\<close>): wrappers of libraries that are arguments.
  \<^item> \<open>Log_Config\<close>, \<open>Log_Init\<close> (\<^verbatim>\<open>log\<close>): the logger's configuration survives its URL; the file sink that the library opens from that URL is the configured file; how
    the level pattern is printed.
  \<^item> \<open>Pki\<close>, \<open>Issue_Tool\<close> (\<^verbatim>\<open>pki\<close>, \<^verbatim>\<open>tools\<close>): keys, PEM files, root and sub certificates, and the tool that writes a set of them.
  \<^item> \<open>Context_Env\<close> (\<^verbatim>\<open>context\<close>): the environment, the completed system configuration, the check of the system certificate and the clients made from it.
  \<^item> \<open>Context_Run\<close> (\<^verbatim>\<open>context/run.go\<close>, \<^verbatim>\<open>dmcontext/run.go\<close>, \<^verbatim>\<open>Wait\<close>, \<^verbatim>\<open>Close\<close>): the command line, the life of a service around its handler, the files of a driver, signals.
  \<^item> \<open>Spec_Lazy\<close> (\<^verbatim>\<open>spec/v1/lazy_value.go\<close>, \<^verbatim>\<open>sync_desire.go\<close>): values kept as text until they are used, and the resources that carry them.
  \<^item> \<open>Spec_Shadow\<close>, \<open>Spec_View\<close> (\<^verbatim>\<open>spec/v1/node.go\<close>, \<^verbatim>\<open>sync_report.go\<close>): merge with its depth limit characterised by the paths of the two maps, removal of
    nulls, listed applications; the view with readiness, percentages, states and counts.
  \<^item> \<open>Spec_Delta\<close> (\<^verbatim>\<open>Diff\<close>, \<^verbatim>\<open>Merge\<close>): a reference definition of merge patches; a report that merges the difference it is sent holds the desire, and nothing is left to send.
  \<^item> \<open>Spec_Heap\<close> (\<^verbatim>\<open>merge\<close>): the merge over a heap of maps, as Go shares them; it refines the merge of values for reports that are structures of their own, and what it changes besides.
  \<^item> \<open>Mock_Flow\<close>, \<open>Mock_Http\<close> (\<^verbatim>\<open>mock\<close>): scripted connections, where receiving matches the expected packets up to order, and a scripted HTTP server, alone and with overlapping requests.

  This theory states what spans components: certificates made by \<open>Pki\<close> pass the check of \<open>Context_Env\<close>.

  \<^bold>\<open>Conventions\<close>

  A struct is a record, a pointer an option, an error a value of a sum type, a panic an outcome of its own where the code can panic. Strings are
  lists of bytes; lower case is that of ASCII. A Go map that is ranged over is a list of entries with distinct keys, in the order the loop meets
  them, so that a theorem holds for every order. Goroutines move one blocking operation at a time; a run is a list of events or a sequence of steps, and theorems
  about runs hold for all of them. Sized integers are words where they wrap; \<^verbatim>\<open>int\<close> and times are integers. Packages that are not in the repository (connections,
  codecs, crypto, the web framework, the clock, the file system) are arguments, with what is relied on as named predicates such as \<open>pem_laws\<close>; each
  such predicate is met by a concrete instance in a witness.

  \<^bold>\<open>Loops\<close>

  Loops over data are structural. The port allocator is bounded by the size of its range, \<open>receive_loop\<close> by the packets still expected, the recursion of \<open>ParseValue\<close> by
  the nesting of its argument and \<open>merge\<close> by the size of the right map. The lock loop may run for ever: it is a partial function with \<open>None\<close> for not returning, and \<open>Flock_terminates\<close>
  says when it returns and with what; the loop on Windows refines it. Waiting loops of goroutines take the list of ticks and answers as argument. Only \<open>SetDefaults\<close> takes a bound (on the nesting of
  structs, since a type may contain itself), and \<open>SetDefaults_terminates\<close> says which bound is enough.

  \<^bold>\<open>Not modelled\<close>

  What lies in libraries: the zap logger behind its configuration, template and archive engines, selectors, the web framework. Generated protocol code. Structs of \<^verbatim>\<open>spec/v1\<close> that
  have tags and no operations. Aliases of the packet library. The timing of backoff, and data races: a step of a goroutine is atomic up to its next blocking
  operation.
\<close>

section \<open>Certificates issued by the authority pass the system check\<close>


text \<open>An instance: the pair of files of the authority's witness, read by the context of its own.\<close>

definition sub_pem :: CertPem where
  "sub_pem = (case CreateSubCertWithKey toy 2 0 0 toy_info 5
     (Some \<lparr>Crt = toy_encode \<lparr>BlockType = CertificateBlockType, Headers = [], Bytes = ''R''\<rparr>, KeyPem = ''Bxya''\<rparr>)
   of Inr pem \<Rightarrow> pem | Inl _ \<Rightarrow> \<lparr>Crt = [], KeyPem = []\<rparr>)"


end
